(* ===== verification/Go_Prelude.thy ===== *)
theory Go_Prelude
  imports Main "HOL-Library.Word" "HOL-Library.Multiset"
begin

text \<open>
  What the components share: Go's byte slices and fixed-width integers, run-time panics and
  errors as values of a sum type, the big-endian 32-bit codec of \<open>encoding/binary\<close>, the IEEE
  checksum of \<open>hash/crc32\<close>, and the list and multiset lemmas the component proofs rest on.

  A Go \<open>int\<close> is an HOL \<open>int\<close> (the 64-bit range is a hypothesis where it matters), \<open>uint64\<close>,
  \<open>uint32\<close> and \<open>uint8\<close> are words, so that their arithmetic wraps as it does in Go. A value of
  type \<open>panic + 'a\<close> is \<open>Inl\<close> where the Go code panics.
\<close>

unbundle bit_operations_syntax

named_theorems go_simps \<open>the equations of the panic monad and of slice access\<close>

section \<open>Types\<close>

type_synonym u8 = "8 word"
type_synonym u32 = "32 word"
type_synonym u64 = "64 word"
type_synonym bytes = "u8 list"

datatype panic =
    DivideByZero | IndexOutOfRange | MakeSliceLen | SliceBounds | NilDereference | NilMapWrite | CloseOfClosedChannel

section \<open>Panics and slice access\<close>

definition go_bind :: "'e + 'a \<Rightarrow> ('a \<Rightarrow> 'e + 'b) \<Rightarrow> 'e + 'b" where
  "go_bind r f = (case r of Inl p \<Rightarrow> Inl p | Inr x \<Rightarrow> f x)"

text \<open>\<open>xs[i]\<close>: a read outside the slice panics.\<close>

definition go_index :: "'a list \<Rightarrow> int \<Rightarrow> panic + 'a" where
  "go_index xs i = (if 0 \<le> i \<and> i < int (length xs) then Inr (xs ! nat i) else Inl IndexOutOfRange)"

text \<open>\<open>string(b)\<close> and \<open>[]byte(s)\<close>: a Go string is its bytes.\<close>

definition bytes_of_string :: "string \<Rightarrow> bytes" where
  "bytes_of_string s = map of_char s"

definition string_of_bytes :: "bytes \<Rightarrow> string" where
  "string_of_bytes b = map (\<lambda>w. char_of (unat w)) b"

section \<open>Integer conversions\<close>

definition uint64_of_int :: "int \<Rightarrow> u64" where
  "uint64_of_int i = word_of_int i"

definition uint32_of_int :: "int \<Rightarrow> u32" where
  "uint32_of_int i = word_of_int i"

text \<open>\<open>int(x)\<close> of a \<open>uint64\<close> reinterprets the bits as a signed value.\<close>

definition int_of_uint64 :: "u64 \<Rightarrow> int" where
  "int_of_uint64 w = sint w"

section \<open>Big-endian 32-bit words\<close>

definition be32 :: "u32 \<Rightarrow> bytes" where
  "be32 v = [ucast (drop_bit 24 v), ucast (drop_bit 16 v), ucast (drop_bit 8 v), ucast v]"

fun read32 :: "bytes \<Rightarrow> u32" where
  "read32 (a # b # c # d # _) =
     push_bit 24 (ucast a) OR push_bit 16 (ucast b) OR push_bit 8 (ucast c) OR ucast d"
| "read32 _ = 0"

section \<open>CRC-32 (IEEE polynomial, reflected)\<close>

definition crc_bit :: "u32 \<Rightarrow> u32" where
  "crc_bit x = (if bit x 0 then drop_bit 1 x XOR 0xEDB88320 else drop_bit 1 x)"

definition crc_byte :: "u32 \<Rightarrow> u8 \<Rightarrow> u32" where
  "crc_byte s b = (crc_bit ^^ 8) (s XOR ucast b)"

definition crc32 :: "bytes \<Rightarrow> u32" where
  "crc32 bs = foldl crc_byte 0xFFFFFFFF bs XOR 0xFFFFFFFF"

section \<open>Lemmas on panics and slices\<close>

lemma go_bind_Inl [simp, go_simps]: "go_bind (Inl p) f = Inl p"
  by (simp add: go_bind_def)

lemma go_bind_Inr [simp, go_simps]: "go_bind (Inr x) f = f x"
  by (simp add: go_bind_def)

lemma go_bind_eq_InrD: "go_bind r f = Inr y \<Longrightarrow> \<exists>x. r = Inr x \<and> f x = Inr y"
  by (cases r) auto

lemma go_bind_eq_Inr_iff: "go_bind m k = Inr y \<longleftrightarrow> (\<exists>x. m = Inr x \<and> k x = Inr y)"
  by (cases m) (simp_all add: go_bind_def)

lemma go_index_in [go_simps]: "0 \<le> i \<Longrightarrow> i < int (length xs) \<Longrightarrow> go_index xs i = Inr (xs ! nat i)"
  by (simp add: go_index_def)

lemma go_index_eq_Inr:
  "go_index xs i = Inr x \<longleftrightarrow> 0 \<le> i \<and> i < int (length xs) \<and> x = xs ! nat i"
  by (auto simp: go_index_def)

lemma unat_byte_less [simp]: "unat (w :: u8) < 256"
  using unsigned_less [of w] by (simp del: unsigned_less)

lemma of_char_char_of_byte: "(of_char (char_of (unat w) :: char) :: u8) = w" for w :: u8
proof -
  have "(of_char (char_of (unat w) :: char) :: nat) = unat w"
    by (simp only: of_char_of mod_less unat_byte_less)
  then have "of_nat (of_char (char_of (unat w) :: char)) = w"
    by (simp only: of_nat_unat ucast_id)
  then show ?thesis by (simp only: of_nat_of_char)
qed

lemma unat_of_char_byte: "unat (of_char c :: u8) = of_char c"
proof -
  have "(of_char c :: nat) = of_char c mod 256" by (simp only: of_char_mod_256)
  then have "(of_char c :: nat) < 256" by (metis mod_less_divisor zero_less_numeral)
  then have "unat (of_nat (of_char c) :: u8) = of_char c"
    by (simp add: unat_of_nat)
  then show ?thesis by (simp only: of_nat_of_char)
qed

lemma bytes_string_inverse [simp]: "bytes_of_string (string_of_bytes b) = b"
  by (simp add: bytes_of_string_def string_of_bytes_def of_char_char_of_byte map_idI)

lemma string_bytes_inverse [simp]: "string_of_bytes (bytes_of_string s) = s"
  by (simp add: bytes_of_string_def string_of_bytes_def unat_of_char_byte map_idI)

lemma length_bytes_of_string [simp]: "length (bytes_of_string s) = length s"
  by (simp add: bytes_of_string_def)

lemma length_string_of_bytes [simp]: "length (string_of_bytes b) = length b"
  by (simp add: string_of_bytes_def)

lemma string_of_bytes_inj [simp]: "string_of_bytes a = string_of_bytes b \<longleftrightarrow> a = b"
  using bytes_string_inverse by metis

section \<open>The big-endian codec\<close>

lemma length_be32 [simp]: "length (be32 v) = 4"
  by (simp add: be32_def)

lemma read32_be32_append [simp]: "read32 (be32 v @ xs) = v"
proof (rule bit_word_eqI)
  fix n assume "n < LENGTH(32)"
  then consider "n < 8" | "8 \<le> n \<and> n < 16" | "16 \<le> n \<and> n < 24" | "24 \<le> n \<and> n < 32"
    by fastforce
  then show "bit (read32 (be32 v @ xs)) n \<longleftrightarrow> bit v n"
    by cases (auto simp: be32_def bit_simps)
qed

lemma read32_be32 [simp]: "read32 (be32 v) = v"
  using read32_be32_append [of v "[]"] by simp

lemma be32_read32_list: "be32 (read32 [a, b, c, d]) = [a, b, c, d]"
  unfolding be32_def
  by simp (intro conjI; rule bit_word_eqI; auto simp: bit_simps dest: bit_imp_le_length)

lemma be32_read32: "length bs = 4 \<Longrightarrow> be32 (read32 bs) = bs"
proof -
  assume "length bs = 4"
  then obtain a b c d where "bs = [a, b, c, d]"
    by (auto simp: numeral_eq_Suc length_Suc_conv)
  then show ?thesis by (simp only: be32_read32_list)
qed

lemma read32_take: "4 \<le> length bs \<Longrightarrow> read32 (take 4 bs) = read32 bs"
  by (cases bs rule: read32.cases) (auto simp: numeral_eq_Suc)

lemma be32_inject [simp]: "be32 v = be32 w \<longleftrightarrow> v = w"
  by (metis read32_be32)

lemma read32_eq_iff: "length a = 4 \<Longrightarrow> length b = 4 \<Longrightarrow> read32 a = read32 b \<longleftrightarrow> a = b"
  by (metis be32_read32)

text \<open>The first byte alone bounds the value read from below.\<close>

lemma read32_ge_first: "unat a * 2 ^ 24 \<le> unat (read32 (a # b # c # d # xs))"
proof -
  let ?v = "read32 (a # b # c # d # xs)"
  have "ucast (drop_bit 24 ?v) = a"
    using be32_read32_list [of a b c d] by (simp add: be32_def)
  then have "unat (ucast (drop_bit 24 ?v) :: u8) = unat a" by simp
  moreover have "unat (ucast (drop_bit 24 ?v) :: u8) \<le> unat (drop_bit 24 ?v)"
    by (simp add: unsigned_ucast_eq take_bit_eq_mod)
  moreover have "unat (drop_bit 24 ?v) = unat ?v div 2 ^ 24"
    unfolding unat_drop_bit_eq by (rule drop_bit_eq_div)
  ultimately show ?thesis
    by (metis div_times_less_eq_dividend le_trans mult_le_mono1)
qed

section \<open>The checksum\<close>

lemma xor_right_cancel: "a XOR c = b XOR c \<longleftrightarrow> a = b" for a b c :: "'a :: len word"
  by (metis xor.assoc xor.right_neutral xor_self_eq)

lemma xor_left_cancel: "c XOR a = c XOR b \<longleftrightarrow> a = b" for a b c :: "'a :: len word"
  by (metis xor_right_cancel xor.commute)

text \<open>
  The polynomial has its top bit set, so bit 31 of a shifted state tells whether the state was
  odd: one shift loses nothing.
\<close>

lemma crc_bit_top: "bit (crc_bit z) 31 \<longleftrightarrow> bit z 0"
proof -
  have poly: "bit (0xEDB88320 :: u32) 31" by simp
  have "\<not> bit z 32" by (auto dest: bit_imp_le_length)
  with poly show ?thesis by (simp add: crc_bit_def bit_xor_iff bit_drop_bit_eq)
qed

lemma crc_bit_inj: "crc_bit x = crc_bit y \<longleftrightarrow> x = y"
proof
  assume e: "crc_bit x = crc_bit y"
  then have b0: "bit x 0 = bit y 0" using crc_bit_top [of x] crc_bit_top [of y] by simp
  have d: "drop_bit 1 x = drop_bit 1 y"
    using e b0 by (auto simp: crc_bit_def xor_right_cancel split: if_splits)
  show "x = y"
  proof (rule bit_word_eqI)
    fix n
    show "bit x n = bit y n"
    proof (cases n)
      case 0
      then show ?thesis using b0 by simp
    next
      case (Suc k)
      from d have "bit (drop_bit 1 x) k = bit (drop_bit 1 y) k" by simp
      then show ?thesis using Suc by (simp add: bit_drop_bit_eq)
    qed
  qed
qed simp

lemma crc_bits_inj: "(crc_bit ^^ n) x = (crc_bit ^^ n) y \<longleftrightarrow> x = y"
  by (induction n) (simp_all add: crc_bit_inj)

lemma crc_byte_state_inj: "crc_byte s b = crc_byte t b \<longleftrightarrow> s = t"
  by (simp add: crc_byte_def crc_bits_inj xor_right_cancel)

lemma crc_byte_byte_inj: "crc_byte s a = crc_byte s b \<longleftrightarrow> a = b"
proof -
  have "a = b" if "(ucast a :: u32) = ucast b"
  proof -
    from that have "unat (ucast a :: u32) = unat (ucast b :: u32)" by simp
    then have "unat a = unat b"
      using unat_byte_less [of a] unat_byte_less [of b]
      by (simp add: unsigned_ucast_eq take_bit_nat_eq_self del: unat_byte_less)
    then show ?thesis by (rule unsigned_word_eqI)
  qed
  then show ?thesis by (auto simp: crc_byte_def crc_bits_inj xor_left_cancel)
qed

lemma crc_fold_inj: "foldl crc_byte s bs = foldl crc_byte t bs \<longleftrightarrow> s = t"
  by (induction bs arbitrary: s t) (simp_all add: crc_byte_state_inj)

text \<open>Two messages that differ in exactly one byte have different checksums.\<close>

lemma crc32_one_byte: "crc32 (xs @ a # ys) = crc32 (xs @ b # ys) \<longleftrightarrow> a = b"
  by (simp add: crc32_def xor_right_cancel crc_fold_inj crc_byte_byte_inj)

lemma crc32_list_update:
  assumes "i < length bs" and "b \<noteq> bs ! i"
  shows "crc32 (bs[i := b]) \<noteq> crc32 bs"
proof -
  have "bs = take i bs @ bs ! i # drop (Suc i) bs"
    using assms(1) by (simp add: id_take_nth_drop)
  then show ?thesis
    using crc32_one_byte [of "take i bs" b "drop (Suc i) bs" "bs ! i"] assms
    by (simp add: upd_conv_take_nth_drop)
qed

text \<open>Evaluation on literals, and the check value of the CRC-32 catalogue for ``123456789''.\<close>

lemma crc_bit_numeral:
  "crc_bit (numeral w) =
     (if bit (numeral w :: u32) 0 then drop_bit 1 (numeral w) XOR 0xEDB88320
      else drop_bit 1 (numeral w))"
  "crc_bit 0 = 0" "crc_bit 1 = 0xEDB88320"
  by (simp_all add: crc_bit_def)

lemma crc_byte_unfold:
  "crc_byte s b =
     crc_bit (crc_bit (crc_bit (crc_bit (crc_bit (crc_bit (crc_bit (crc_bit (s XOR ucast b))))))))"
  by (simp add: crc_byte_def numeral_eq_Suc)

lemma crc32_check_value:
  "crc32 [0x31, 0x32, 0x33, 0x34, 0x35, 0x36, 0x37, 0x38, 0x39] = 0xCBF43926"
  by (simp add: crc_bit_numeral crc_byte_unfold crc32_def)

section \<open>Lists\<close>

lemma count_list_distinct: "distinct xs \<Longrightarrow> count_list xs x = (if x \<in> set xs then 1 else 0)"
  by (induction xs) auto

lemma count_list_pos: "0 < count_list xs x \<longleftrightarrow> x \<in> set xs"
  by (induction xs) auto

end
