(* ===== verification/Bloom_Hash.thy ===== *)
theory Bloom_Hash
  imports Go_Prelude
begin

text \<open>
  \<open>src/pkg/bloom/hash.go\<close>: the double hashing that turns an item into \<open>k\<close> positions of a filter
  of size \<open>m\<close>. MurmurHash3 is the third-party package \<open>twmb/murmur3\<close>: its \<open>Sum32\<close> is the
  parameter \<open>murmur\<close>, about which nothing is assumed.
\<close>

section \<open>Definitions\<close>

definition MaxHashFunctions :: int where
  "MaxHashFunctions = 20"

text \<open>\<open>int((h1 + uint64(i)*h2) % uint64(m))\<close>, the body of the loops.\<close>

definition hash_index :: "u64 \<Rightarrow> u64 \<Rightarrow> u64 \<Rightarrow> nat \<Rightarrow> panic + int" where
  "hash_index h1 h2 m i =
     (if m = 0 then Inl DivideByZero else Inr (int_of_uint64 ((h1 + of_nat i * h2) mod m)))"

fun hash_loop :: "u64 \<Rightarrow> u64 \<Rightarrow> u64 \<Rightarrow> nat \<Rightarrow> nat \<Rightarrow> panic + int list" where
  "hash_loop h1 h2 m i 0 = Inr []"
| "hash_loop h1 h2 m i (Suc n) =
     go_bind (hash_index h1 h2 m i) (\<lambda>x.
     go_bind (hash_loop h1 h2 m (Suc i) n) (\<lambda>xs. Inr (x # xs)))"

definition getHashIndices :: "(bytes \<Rightarrow> u32) \<Rightarrow> bytes \<Rightarrow> int \<Rightarrow> int \<Rightarrow> panic + int list" where
  "getHashIndices murmur item m k =
     (if k < 0 then Inl MakeSliceLen
      else let h1 = ucast (murmur item) :: u64; d = uint64_of_int (m - 1)
           in if d = 0 then Inl DivideByZero
              else hash_loop h1 (1 + h1 mod d) (uint64_of_int m) 0 (nat k))"

text \<open>
  The pooled variant. A slice of the pool is its backing array (the capacity is its length, the
  contents are whatever the last user left); \<open>None\<close> is the pool's \<open>New\<close>, which allocates
  capacity \<open>MaxHashFunctions\<close>. The loop overwrites the slice in place.
\<close>

fun hash_fill :: "u64 \<Rightarrow> u64 \<Rightarrow> u64 \<Rightarrow> nat \<Rightarrow> nat \<Rightarrow> int list \<Rightarrow> panic + int list" where
  "hash_fill h1 h2 m i 0 xs = Inr xs"
| "hash_fill h1 h2 m i (Suc n) xs =
     go_bind (hash_index h1 h2 m i) (\<lambda>x. hash_fill h1 h2 m (Suc i) n (xs[i := x]))"

definition getHashIndicesPooled ::
  "(bytes \<Rightarrow> u32) \<Rightarrow> int list option \<Rightarrow> bytes \<Rightarrow> int \<Rightarrow> int \<Rightarrow> panic + int list" where
  "getHashIndicesPooled murmur pooled item m k =
     (let backing = (case pooled of None \<Rightarrow> replicate (nat MaxHashFunctions) 0 | Some b \<Rightarrow> b)
      in if k < 0 then Inl SliceBounds
         else let indices = (if int (length backing) < k then replicate (nat k) 0
                             else take (nat k) backing);
                  h1 = ucast (murmur item) :: u64; d = uint64_of_int (m - 1)
              in if d = 0 then Inl DivideByZero
                 else hash_fill h1 (1 + h1 mod d) (uint64_of_int m) 0 (nat k) indices)"

text \<open>\<open>putHashIndices\<close>: the slice is cut to length 0 and its backing array goes back to the pool.\<close>

definition putHashIndices :: "int list list \<Rightarrow> int list \<Rightarrow> int list list" where
  "putHashIndices pool backing = backing # pool"

text \<open>
  \<open>MurmurHash3Provider\<close> over the streaming \<open>hash.Hash32\<close> of the package: its state is what has
  been written since the last reset.
\<close>

record MurmurHash3Provider =
  written :: bytes

definition NewMurmurHash3Provider :: MurmurHash3Provider where
  "NewMurmurHash3Provider = \<lparr>written = []\<rparr>"

definition provider_Reset :: "MurmurHash3Provider \<Rightarrow> MurmurHash3Provider" where
  "provider_Reset p = p\<lparr>written := []\<rparr>"

definition provider_Write :: "MurmurHash3Provider \<Rightarrow> bytes \<Rightarrow> MurmurHash3Provider" where
  "provider_Write p data = p\<lparr>written := written p @ data\<rparr>"

definition provider_Hash ::
  "(bytes \<Rightarrow> u32) \<Rightarrow> MurmurHash3Provider \<Rightarrow> bytes \<Rightarrow> u64 \<times> MurmurHash3Provider" where
  "provider_Hash murmur p data =
     (let p1 = provider_Reset p; p2 = provider_Write p1 data
      in (ucast (murmur (written p2)), p2))"

text \<open>\<open>DoubleHash\<close>: the moduli are taken at 32 bits, so \<open>m\<close> is truncated first.\<close>

definition DoubleHash :: "(bytes \<Rightarrow> u32) \<Rightarrow> bytes \<Rightarrow> int \<Rightarrow> panic + (int \<times> int)" where
  "DoubleHash murmur item m =
     (let h1 = murmur item;
          h2Bytes = item @ [0xDE, 0xAD, 0xBE, 0xEF];
          h2 = murmur h2Bytes;
          d = uint32_of_int (m - 1);
          m32 = uint32_of_int m
      in if d = 0 then Inl DivideByZero
         else let h2' = 1 + h2 mod d
              in if m32 = 0 then Inl DivideByZero
                 else Inr (uint (h1 mod m32), uint h2'))"

text \<open>Signed 64-bit arithmetic wraps; \<open>%\<close> truncates towards zero.\<close>

definition wrap64 :: "int \<Rightarrow> int" where
  "wrap64 x = sint (word_of_int x :: u64)"

definition go_rem :: "int \<Rightarrow> int \<Rightarrow> panic + int" where
  "go_rem a b = (if b = 0 then Inl DivideByZero else Inr (sgn a * (\<bar>a\<bar> mod \<bar>b\<bar>)))"

fun compute_loop :: "int \<Rightarrow> int \<Rightarrow> int \<Rightarrow> nat \<Rightarrow> nat \<Rightarrow> panic + int list" where
  "compute_loop h1 h2 m i 0 = Inr []"
| "compute_loop h1 h2 m i (Suc n) =
     go_bind (go_rem (wrap64 (h1 + wrap64 (int i * h2))) m) (\<lambda>x.
     go_bind (compute_loop h1 h2 m (Suc i) n) (\<lambda>xs. Inr (x # xs)))"

definition ComputeIndices :: "(bytes \<Rightarrow> u32) \<Rightarrow> bytes \<Rightarrow> int \<Rightarrow> int \<Rightarrow> panic + int list" where
  "ComputeIndices murmur item m k =
     go_bind (DoubleHash murmur item m) (\<lambda>(h1, h2).
       if k < 0 then Inl MakeSliceLen else compute_loop h1 h2 m 0 (nat k))"

text \<open>The positions of an item, as naturals: what the filter's specifications speak about.\<close>

definition positions :: "(bytes \<Rightarrow> u32) \<Rightarrow> int \<Rightarrow> int \<Rightarrow> bytes \<Rightarrow> nat list" where
  "positions murmur m k item =
     (case getHashIndices murmur item m k of Inl _ \<Rightarrow> [] | Inr xs \<Rightarrow> map nat xs)"

section \<open>Loops\<close>

lemma hash_loop_ok:
  "m \<noteq> 0 \<Longrightarrow> hash_loop h1 h2 m i n =
     Inr (map (\<lambda>j. int_of_uint64 ((h1 + of_nat j * h2) mod m)) [i ..< i + n])"
proof (induction n arbitrary: i)
  case 0
  then show ?case by simp
next
  case (Suc n)
  then show ?case by (simp add: hash_index_def upt_conv_Cons del: upt_Suc)
qed

lemma hash_loop_zero: "hash_loop h1 h2 0 i n = (if n = 0 then Inr [] else Inl DivideByZero)"
  by (cases n) (simp_all add: hash_index_def)

lemma hash_fill_ok:
  assumes "m \<noteq> 0"
  shows "i + n = length xs \<Longrightarrow> hash_fill h1 h2 m i n xs =
     Inr (take i xs @ map (\<lambda>j. int_of_uint64 ((h1 + of_nat j * h2) mod m)) [i ..< i + n])"
proof (induction n arbitrary: i xs)
  case 0
  then show ?case by simp
next
  case (Suc n)
  let ?f = "\<lambda>j. int_of_uint64 ((h1 + of_nat j * h2) mod m)"
  have "hash_fill h1 h2 m i (Suc n) xs = hash_fill h1 h2 m (Suc i) n (xs[i := ?f i])"
    using assms by (simp add: hash_index_def)
  also have "\<dots> = Inr (take (Suc i) (xs[i := ?f i]) @ map ?f [Suc i ..< Suc i + n])"
    using Suc.prems by (intro Suc.IH) simp
  also have "take (Suc i) (xs[i := ?f i]) = take i xs @ [?f i]"
    using Suc.prems by (simp add: take_Suc_conv_app_nth)
  finally show ?case by (simp add: upt_conv_Cons del: upt_Suc)
qed

section \<open>Range and formula of the indices\<close>

lemma uint64_of_int_pos: "0 < m \<Longrightarrow> m < 2 ^ 63 \<Longrightarrow> uint (uint64_of_int m) = m"
  by (simp add: uint64_of_int_def unsigned_of_int take_bit_int_eq_self)

lemma uint64_of_int_nonzero: "0 < m \<Longrightarrow> m < 2 ^ 63 \<Longrightarrow> uint64_of_int m \<noteq> 0"
  using uint64_of_int_pos by fastforce

lemma int_of_uint64_small: "uint w < 2 ^ 63 \<Longrightarrow> int_of_uint64 w = uint w"
proof -
  assume "uint w < 2 ^ 63"
  moreover have "- (2 ^ 63) \<le> uint w" by (rule order_trans [of _ 0]) simp_all
  ultimately have "signed_take_bit 63 (uint w) = uint w"
    by (intro signed_take_bit_int_eq_self)
  then show ?thesis by (simp add: int_of_uint64_def sint_uint)
qed

lemma mod_index_range:
  assumes "0 < m" and "m < 2 ^ 63"
  shows "int_of_uint64 (w mod uint64_of_int m) = uint w mod m"
proof -
  have u: "uint (w mod uint64_of_int m) = uint w mod m"
    using assms by (simp add: uint_mod uint64_of_int_pos)
  moreover have "uint w mod m < 2 ^ 63"
    using assms pos_mod_bound [of m "uint w"] by linarith
  ultimately show ?thesis by (simp add: int_of_uint64_small)
qed

lemma getHashIndices_eq:
  assumes "2 \<le> m" and "m < 2 ^ 63" and "0 \<le> k"
  shows "getHashIndices murmur item m k =
    Inr (map (\<lambda>j. uint (ucast (murmur item)
                 + of_nat j * (1 + ucast (murmur item) mod uint64_of_int (m - 1)) :: u64) mod m)
             [0 ..< nat k])"
proof -
  have "uint64_of_int (m - 1) \<noteq> 0" and "uint64_of_int m \<noteq> 0"
    using assms uint64_of_int_nonzero [of "m - 1"] uint64_of_int_nonzero [of m] by auto
  with assms show ?thesis
    by (simp add: getHashIndices_def Let_def hash_loop_ok mod_index_range)
qed

lemma positions_eq:
  assumes "2 \<le> m" and "m < 2 ^ 63" and "0 \<le> k"
  shows "getHashIndices murmur item m k = Inr (map int (positions murmur m k item))"
    and "length (positions murmur m k item) = nat k"
    and "\<And>j. j \<in> set (positions murmur m k item) \<Longrightarrow> j < nat m"
proof -
  show "getHashIndices murmur item m k = Inr (map int (positions murmur m k item))"
    using assms by (simp add: positions_def getHashIndices_eq o_def)
  show "length (positions murmur m k item) = nat k"
    using assms by (simp add: positions_def getHashIndices_eq)
  show "j < nat m" if "j \<in> set (positions murmur m k item)" for j
    using that assms by (auto simp: positions_def getHashIndices_eq nat_less_eq_zless)
qed

text \<open>Below \<open>2\<^sup>3\<^sup>1\<close> hash functions the 64-bit sum cannot wrap.\<close>

lemma uint_double_hash:
  fixes h :: u32
  assumes "2 \<le> m" and "m < 2 ^ 63" and "int j < 2 ^ 31"
  shows "uint (ucast h + of_nat j * (1 + ucast h mod uint64_of_int (m - 1)) :: u64)
       = uint h + int j * (1 + uint h mod (m - 1))"
proof -
  let ?h = "ucast h :: u64" and ?d = "uint64_of_int (m - 1)"
  have lh: "0 \<le> uint h" "uint h < 2 ^ 32"
    using unsigned_less [of h] by simp_all
  then have uh: "uint ?h = uint h"
    by (simp add: unsigned_ucast_eq take_bit_int_eq_self)
  have q: "uint (?h mod ?d) = uint h mod (m - 1)"
    using assms by (simp add: uint_mod uint64_of_int_pos uh)
  then have qw: "word_of_int (uint h mod (m - 1)) = ?h mod ?d"
    by (simp flip: q)
  have qb: "0 \<le> uint h mod (m - 1)" "uint h mod (m - 1) \<le> uint h"
    using assms lh by (simp_all add: zmod_le_nonneg_dividend)
  have p: "int j * (1 + uint h mod (m - 1)) \<le> int j * 2 ^ 32"
    using qb lh by (intro mult_left_mono) auto
  have "0 \<le> int j * (1 + uint h mod (m - 1))"
    using qb by simp
  moreover have "int j * (2 ^ 32 :: int) < 2 ^ 63"
    using assms(3) by simp
  ultimately have b: "uint h + int j * (1 + uint h mod (m - 1)) < 2 ^ 64
      \<and> 0 \<le> uint h + int j * (1 + uint h mod (m - 1))"
    using p lh by simp
  have "?h + of_nat j * (1 + ?h mod ?d)
      = word_of_int (uint h + int j * (1 + uint h mod (m - 1)))"
    by (simp add: uh qw)
  then have "uint (?h + of_nat j * (1 + ?h mod ?d))
      = take_bit 64 (uint h + int j * (1 + uint h mod (m - 1)))"
    by (simp only: unsigned_of_int) simp
  then show ?thesis
    using b by (simp only: take_bit_int_eq_self)
qed

lemma positions_nth:
  assumes "2 \<le> m" and "m < 2 ^ 63" and "0 \<le> k" and "k \<le> 2 ^ 31" and "j < nat k"
  shows "int (positions murmur m k item ! j)
       = (uint (murmur item) + int j * (1 + uint (murmur item) mod (m - 1))) mod m"
proof -
  have "int j < k" using assms(3,5) by linarith
  with assms(4) have "int j < 2 ^ 31" by linarith
  then have "uint (ucast (murmur item)
          + of_nat j * (1 + ucast (murmur item) mod uint64_of_int (m - 1)) :: u64)
      = uint (murmur item) + int j * (1 + uint (murmur item) mod (m - 1))"
    by (rule uint_double_hash [OF assms(1,2)])
  then show ?thesis
    using assms(1,2,3,5) by (simp add: positions_def getHashIndices_eq)
qed

lemma getHashIndices_m_one: "0 \<le> k \<Longrightarrow> getHashIndices murmur item 1 k = Inl DivideByZero"
  by (simp add: getHashIndices_def uint64_of_int_def Let_def)

lemma getHashIndices_m_zero:
  "0 \<le> k \<Longrightarrow> getHashIndices murmur item 0 k = (if k = 0 then Inr [] else Inl DivideByZero)"
  by (auto simp: getHashIndices_def uint64_of_int_def Let_def hash_loop_zero)

section \<open>Double hashing with two murmur calls\<close>

lemma uint32_of_int_pos: "0 \<le> m \<Longrightarrow> m < 2 ^ 32 \<Longrightarrow> uint (uint32_of_int m) = m"
  by (simp add: uint32_of_int_def unsigned_of_int take_bit_int_eq_self)

lemma uint32_of_int_nonzero: "0 < m \<Longrightarrow> m < 2 ^ 32 \<Longrightarrow> uint32_of_int m \<noteq> 0"
  using uint32_of_int_pos [of m] by fastforce

lemma DoubleHash_eq:
  assumes "2 \<le> m" and "m < 2 ^ 32"
  shows "DoubleHash murmur item m =
    Inr (uint (murmur item) mod m, 1 + uint (murmur (item @ [0xDE, 0xAD, 0xBE, 0xEF])) mod (m - 1))"
proof -
  let ?h2 = "murmur (item @ [0xDE, 0xAD, 0xBE, 0xEF])" and ?d = "uint32_of_int (m - 1)"
  have r: "uint (?h2 mod ?d) = uint ?h2 mod (m - 1)"
    using assms by (simp add: uint_mod uint32_of_int_pos)
  have "0 \<le> uint ?h2 mod (m - 1)" "uint ?h2 mod (m - 1) < m - 1"
    using assms by simp_all
  with assms have "(1 + uint ?h2 mod (m - 1)) mod 2 ^ 32 = 1 + uint ?h2 mod (m - 1)"
    by (intro mod_pos_pos_trivial) linarith+
  with r have "uint (1 + ?h2 mod ?d) = 1 + uint ?h2 mod (m - 1)"
    by (simp add: uint_word_ariths)
  moreover have "?d \<noteq> 0" "uint32_of_int m \<noteq> 0"
    using assms uint32_of_int_nonzero [of "m - 1"] uint32_of_int_nonzero [of m] by auto
  ultimately show ?thesis
    using assms by (simp add: DoubleHash_def Let_def uint_mod uint32_of_int_pos)
qed

lemma wrap64_small: "0 \<le> x \<Longrightarrow> x < 2 ^ 63 \<Longrightarrow> wrap64 x = x"
proof -
  assume x: "0 \<le> x" "x < 2 ^ 63"
  then have "- (2 ^ 63) \<le> x" by linarith
  with x have "signed_take_bit 63 x = x" by (intro signed_take_bit_int_eq_self)
  then show ?thesis by (simp add: wrap64_def signed_of_int)
qed

lemma compute_loop_ok:
  assumes "0 < m" and "0 \<le> h1" "h1 < 2 ^ 32" "0 \<le> h2" "h2 < 2 ^ 32"
  shows "int i + int n \<le> 2 ^ 30 \<Longrightarrow>
    compute_loop h1 h2 m i n = Inr (map (\<lambda>j. (h1 + int j * h2) mod m) [i ..< i + n])"
proof (induction n arbitrary: i)
  case 0
  then show ?case by simp
next
  case (Suc n)
  have "0 \<le> int i * h2" using assms by simp
  moreover have "int i * h2 \<le> 2 ^ 30 * 2 ^ 32"
    using assms Suc.prems by (intro mult_mono) auto
  ultimately have "wrap64 (h1 + wrap64 (int i * h2)) = h1 + int i * h2"
    using assms by (simp add: wrap64_small)
  moreover have "0 \<le> h1 + int i * h2"
    using assms by simp
  ultimately have "go_rem (wrap64 (h1 + wrap64 (int i * h2))) m = Inr ((h1 + int i * h2) mod m)"
    using assms(1) by (cases "h1 + int i * h2 = 0") (simp_all add: go_rem_def sgn_if)
  then show ?case
    using Suc by (simp add: upt_conv_Cons del: upt_Suc)
qed

lemma uint64_of_int_eq_0: "- (2 ^ 63) \<le> m \<Longrightarrow> m < 2 ^ 63 \<Longrightarrow> uint64_of_int m = 0 \<longleftrightarrow> m = 0"
proof
  assume m: "- (2 ^ 63) \<le> m" "m < 2 ^ 63" and z: "uint64_of_int m = 0"
  from z have "uint (uint64_of_int m) = 0" by simp
  then have "2 ^ 64 dvd m"
    by (simp add: uint64_of_int_def uint_word_of_int mod_eq_0_iff_dvd)
  then have "m \<noteq> 0 \<longrightarrow> \<bar>2 ^ 64\<bar> \<le> \<bar>m\<bar>"
    using dvd_imp_le_int by blast
  with m show "m = 0" by auto
qed (simp add: uint64_of_int_def)

section \<open>Properties\<close>



text \<open>Inside the 64-bit range, \<open>getHashIndices\<close> panics exactly for a negative \<open>k\<close>, for the size
  \<open>m = 1\<close> (a remainder by \<open>m - 1 = 0\<close>), and for \<open>m = 0\<close> when at least one index is asked for.\<close>

theorem getHashIndices_panics_iff:
  assumes "- (2 ^ 63) < m" and "m < 2 ^ 63"
  shows "(\<exists>p. getHashIndices murmur item m k = Inl p) \<longleftrightarrow> k < 0 \<or> m = 1 \<or> (m = 0 \<and> 0 < k)"
proof -
  have "uint64_of_int (m - 1) = 0 \<longleftrightarrow> m = 1" and "uint64_of_int m = 0 \<longleftrightarrow> m = 0"
    using assms uint64_of_int_eq_0 [of "m - 1"] uint64_of_int_eq_0 [of m] by auto
  then show ?thesis
    by (cases "m = 0") (auto simp: getHashIndices_def Let_def hash_loop_ok hash_loop_zero
        uint64_of_int_def)
qed

theorem getHashIndices_panics_iff_witness:
  "\<exists>p. getHashIndices (\<lambda>_. 7) [1] 1 3 = Inl p"
  using getHashIndices_panics_iff [of 1 "\<lambda>_. 7" "[1]" 3] by simp

text \<open>Whatever a recycled slice of the index pool holds and whatever its capacity, the pooled
  computation returns the indices of the allocating one.\<close>

theorem getHashIndicesPooled_eq:
  assumes "0 \<le> k"
  shows "getHashIndicesPooled murmur pooled item m k = getHashIndices murmur item m k"
proof -
  let ?m = "uint64_of_int m"
  have "hash_fill h1 h2 ?m 0 (nat k) xs = hash_loop h1 h2 ?m 0 (nat k)"
    if "length xs = nat k" for h1 h2 xs
  proof (cases "?m = 0")
    case True
    with that show ?thesis by (cases "nat k") (auto simp: hash_index_def)
  next
    case False
    then show ?thesis using that by (simp add: hash_fill_ok hash_loop_ok)
  qed
  moreover have "length (take (nat k) b) = nat k" if "\<not> int (length b) < k" for b :: "int list"
    using that by simp
  ultimately show ?thesis
    using assms by (simp add: getHashIndicesPooled_def getHashIndices_def Let_def del: length_take)
qed

theorem getHashIndicesPooled_eq_witness:
  "getHashIndicesPooled (\<lambda>_. 7) (Some [9, 9, 9, 9]) [1] 10 3 = getHashIndices (\<lambda>_. 7) [1] 10 3"
  by (rule getHashIndicesPooled_eq) simp

text \<open>\<open>DoubleHash\<close> and \<open>ComputeIndices\<close> keep their documented range for every size that fits
  \<open>uint32\<close>: both hashes and all indices lie in \<open>[0, m)\<close>, the step is at least 1, and the \<open>i\<close>-th
  index is \<open>(h1 + i * h2) mod m\<close> without wrap-around.\<close>

theorem ComputeIndices_correct:
  assumes "2 \<le> m" and "m < 2 ^ 32" and "0 \<le> k" and "k \<le> 2 ^ 30"
  shows "\<exists>h1 h2. DoubleHash murmur item m = Inr (h1, h2) \<and> 0 \<le> h1 \<and> h1 < m \<and> 1 \<le> h2 \<and> h2 < m
    \<and> ComputeIndices murmur item m k = Inr (map (\<lambda>j. (h1 + int j * h2) mod m) [0 ..< nat k])"
proof (intro exI conjI)
  let ?h1 = "uint (murmur item) mod m"
    and ?h2 = "1 + uint (murmur (item @ [0xDE, 0xAD, 0xBE, 0xEF])) mod (m - 1)"
  show d: "DoubleHash murmur item m = Inr (?h1, ?h2)"
    using assms by (rule_tac DoubleHash_eq)
  show b: "0 \<le> ?h1" "?h1 < m" "1 \<le> ?h2" using assms by simp_all
  have "uint (murmur (item @ [0xDE, 0xAD, 0xBE, 0xEF])) mod (m - 1) < m - 1"
    using assms by simp
  then show "?h2 < m" by simp
  then have "compute_loop ?h1 ?h2 m 0 (nat k)
      = Inr (map (\<lambda>j. (?h1 + int j * ?h2) mod m) [0 ..< 0 + nat k])"
    using assms b by (intro compute_loop_ok) linarith+
  then show "ComputeIndices murmur item m k
      = Inr (map (\<lambda>j. (?h1 + int j * ?h2) mod m) [0 ..< nat k])"
    using assms(3) by (simp add: ComputeIndices_def d)
qed

theorem ComputeIndices_correct_witness:
  "\<exists>h1 h2. DoubleHash (\<lambda>_. 7) [1] 10 = Inr (h1, h2) \<and> 0 \<le> h1 \<and> h1 < 10 \<and> 1 \<le> h2 \<and> h2 < 10
    \<and> ComputeIndices (\<lambda>_. 7) [1] 10 3 = Inr (map (\<lambda>j. (h1 + int j * h2) mod 10) [0 ..< nat 3])"
  by (rule ComputeIndices_correct) simp_all

end
