(* ===== verification/Membership_Spec.thy ===== *)
theory Membership_Spec
  imports Go_Prelude
begin

text \<open>
  What a deletable membership filter promises its clients, whatever it is built from: the plain
  counting filter, the filter with an index cache and the replicated filter all give it. A client
  runs a history of operations; the specification tracks the multiset of the items accepted and
  not yet removed.
\<close>

datatype 'a filter_op = AddOp 'a | RemoveOp 'a | ContainsOp 'a

text \<open>The run of a history: the implementation's state beside the specification's multiset.\<close>

fun run_ops ::
  "('s \<Rightarrow> 'a \<Rightarrow> bool \<times> 's) \<Rightarrow> ('s \<Rightarrow> 'a \<Rightarrow> 's) \<Rightarrow> ('s \<Rightarrow> 'a \<Rightarrow> bool \<times> 's)
    \<Rightarrow> 's \<Rightarrow> 'a multiset \<Rightarrow> 'a filter_op list \<Rightarrow> 's \<times> 'a multiset" where
  "run_ops add rem con s M [] = (s, M)"
| "run_ops add rem con s M (AddOp x # ops) =
     (let (ok, s') = add s x in run_ops add rem con s' (if ok then add_mset x M else M) ops)"
| "run_ops add rem con s M (RemoveOp x # ops) = run_ops add rem con (rem s x) (M - {#x#}) ops"
| "run_ops add rem con s M (ContainsOp x # ops) = run_ops add rem con (snd (con s x)) M ops"

text \<open>A history is legal if it removes only items that are held.\<close>

fun legal_ops ::
  "('s \<Rightarrow> 'a \<Rightarrow> bool \<times> 's) \<Rightarrow> ('s \<Rightarrow> 'a \<Rightarrow> 's) \<Rightarrow> ('s \<Rightarrow> 'a \<Rightarrow> bool \<times> 's)
    \<Rightarrow> 's \<Rightarrow> 'a multiset \<Rightarrow> 'a filter_op list \<Rightarrow> bool" where
  "legal_ops add rem con s M [] = True"
| "legal_ops add rem con s M (AddOp x # ops) =
     (let (ok, s') = add s x in legal_ops add rem con s' (if ok then add_mset x M else M) ops)"
| "legal_ops add rem con s M (RemoveOp x # ops) =
     (x \<in># M \<and> legal_ops add rem con (rem s x) (M - {#x#}) ops)"
| "legal_ops add rem con s M (ContainsOp x # ops) = legal_ops add rem con (snd (con s x)) M ops"

locale membership_filter =
  fixes holds :: "'s \<Rightarrow> 'a multiset \<Rightarrow> bool"
    and add :: "'s \<Rightarrow> 'a \<Rightarrow> bool \<times> 's"
    and rem :: "'s \<Rightarrow> 'a \<Rightarrow> 's"
    and con :: "'s \<Rightarrow> 'a \<Rightarrow> bool \<times> 's"
  assumes add_ok: "holds s M \<Longrightarrow> add s x = (True, s') \<Longrightarrow> holds s' (add_mset x M)"
    and add_rejected: "holds s M \<Longrightarrow> add s x = (False, s') \<Longrightarrow> holds s' M"
    and rem_held: "holds s M \<Longrightarrow> x \<in># M \<Longrightarrow> holds (rem s x) (M - {#x#})"
    and con_keeps: "holds s M \<Longrightarrow> holds (snd (con s x)) M"
    and con_held: "holds s M \<Longrightarrow> x \<in># M \<Longrightarrow> fst (con s x)"
begin

lemma run_ops_holds:
  "holds s M \<Longrightarrow> legal_ops add rem con s M ops \<Longrightarrow> run_ops add rem con s M ops = (s', M') \<Longrightarrow> holds s' M'"
proof (induction ops arbitrary: s M)
  case (Cons op ops)
  show ?case
  proof (cases op)
    case (AddOp x)
    obtain ok t where a: "add s x = (ok, t)" by (cases "add s x")
    then have "holds t (if ok then add_mset x M else M)"
      using Cons.prems(1) add_ok add_rejected by (cases ok) auto
    from Cons.IH [OF this] Cons.prems a AddOp show ?thesis by simp
  next
    case (RemoveOp x)
    with Cons.prems show ?thesis by (intro Cons.IH [OF rem_held, of s M x]) simp_all
  next
    case (ContainsOp x)
    with Cons.prems show ?thesis by (intro Cons.IH [OF con_keeps, of s M x]) simp_all
  qed
qed simp

lemma no_false_negative:
  "holds s M \<Longrightarrow> legal_ops add rem con s M ops \<Longrightarrow> run_ops add rem con s M ops = (s', M') \<Longrightarrow>
     x \<in># M' \<Longrightarrow> fst (con s' x)"
  using run_ops_holds con_held by blast

end

end
