(* ===== verification/Codec_Spec.thy ===== *)
theory Codec_Spec
  imports Go_Prelude
begin

text \<open>
  The contract of an encoder and its decoder: decoding gives back every valid value, and whatever
  the decoder accepts is the encoding of the valid value it returns (the format is canonical).
\<close>

locale codec =
  fixes valid :: "'a \<Rightarrow> bool"
    and enc :: "'a \<Rightarrow> bytes"
    and dec :: "bytes \<Rightarrow> 'e + 'a"
  assumes dec_enc: "valid x \<Longrightarrow> dec (enc x) = Inr x"
    and dec_sound: "dec d = Inr x \<Longrightarrow> valid x \<and> enc x = d"
begin

lemma dec_iff: "dec d = Inr x \<longleftrightarrow> valid x \<and> d = enc x"
  using dec_enc dec_sound by blast

lemma enc_inj: "valid x \<Longrightarrow> valid y \<Longrightarrow> enc x = enc y \<Longrightarrow> x = y"
  by (metis dec_enc sum.inject(2))

lemma dec_rejects: "(\<exists>e. dec d = Inl e) \<longleftrightarrow> (\<forall>x. valid x \<longrightarrow> d \<noteq> enc x)"
  by (metis dec_iff sum.exhaust sum.distinct(1))

end

end
