(* ===== verification/Bloom_Counting.thy ===== *)
theory Bloom_Counting
  imports Bloom_Hash Membership_Spec Codec_Spec
begin

text \<open>
  \<open>src/pkg/bloom/counting.go\<close>: the counting Bloom filter. Every method takes the filter's
  lock for its whole body, so each is one atomic function from filter to filter here. The slice
  accesses keep their bounds checks (\<open>go_index\<close>), the counters are \<open>uint8\<close> words.
\<close>

section \<open>Data\<close>

definition MaxFilterSize :: int where
  "MaxFilterSize = 100 * 1024 * 1024"

datatype bloom_error = ErrInvalidData | ErrCounterOverflow | ErrChecksumMismatch

definition bloom_error_message :: "bloom_error \<Rightarrow> string" where
  "bloom_error_message e = (case e of
      ErrInvalidData \<Rightarrow> ''invalid bloom filter data''
    | ErrCounterOverflow \<Rightarrow> ''counter overflow: maximum value 255 reached''
    | ErrChecksumMismatch \<Rightarrow> ''checksum mismatch: data may be corrupted'')"

record CountingBloomFilter =
  cbf_m :: int
  cbf_k :: int
  counters :: "u8 list"

section \<open>Operations\<close>

definition NewCountingBloomFilter :: "int \<Rightarrow> int \<Rightarrow> panic + CountingBloomFilter" where
  "NewCountingBloomFilter m k =
     (if m < 0 then Inl MakeSliceLen
      else Inr \<lparr>cbf_m = m, cbf_k = k, counters = replicate (nat m) 0\<rparr>)"

text \<open>The loop of \<open>Add\<close>: it stops at the first saturated counter and keeps the earlier increments.\<close>

fun add_loop :: "u8 list \<Rightarrow> int list \<Rightarrow> panic + (bloom_error option \<times> u8 list)" where
  "add_loop cs [] = Inr (None, cs)"
| "add_loop cs (i # is) =
     go_bind (go_index cs i) (\<lambda>c.
       if 255 \<le> c then Inr (Some ErrCounterOverflow, cs)
       else add_loop (cs[nat i := c + 1]) is)"

definition Add ::
  "(bytes \<Rightarrow> u32) \<Rightarrow> CountingBloomFilter \<Rightarrow> bytes \<Rightarrow> panic + (bloom_error option \<times> CountingBloomFilter)" where
  "Add murmur cbf item =
     go_bind (getHashIndices murmur item (cbf_m cbf) (cbf_k cbf)) (\<lambda>indices.
     go_bind (add_loop (counters cbf) indices) (\<lambda>(err, cs). Inr (err, cbf\<lparr>counters := cs\<rparr>)))"

fun remove_loop :: "u8 list \<Rightarrow> int list \<Rightarrow> panic + u8 list" where
  "remove_loop cs [] = Inr cs"
| "remove_loop cs (i # is) =
     go_bind (go_index cs i) (\<lambda>c. remove_loop (if 0 < c then cs[nat i := c - 1] else cs) is)"

definition Remove :: "(bytes \<Rightarrow> u32) \<Rightarrow> CountingBloomFilter \<Rightarrow> bytes \<Rightarrow> panic + CountingBloomFilter" where
  "Remove murmur cbf item =
     go_bind (getHashIndices murmur item (cbf_m cbf) (cbf_k cbf)) (\<lambda>indices.
     go_bind (remove_loop (counters cbf) indices) (\<lambda>cs. Inr (cbf\<lparr>counters := cs\<rparr>)))"

text \<open>\<open>BatchAdd\<close> checks all indices of an item first and increments them in a second pass.\<close>

fun overflow_check :: "u8 list \<Rightarrow> int list \<Rightarrow> panic + bool" where
  "overflow_check cs [] = Inr False"
| "overflow_check cs (i # is) =
     go_bind (go_index cs i) (\<lambda>c. if 255 \<le> c then Inr True else overflow_check cs is)"

fun increment_loop :: "u8 list \<Rightarrow> int list \<Rightarrow> panic + u8 list" where
  "increment_loop cs [] = Inr cs"
| "increment_loop cs (i # is) =
     go_bind (go_index cs i) (\<lambda>c. increment_loop (cs[nat i := c + 1]) is)"

fun BatchAdd ::
  "(bytes \<Rightarrow> u32) \<Rightarrow> CountingBloomFilter \<Rightarrow> bytes list
    \<Rightarrow> panic + (int \<times> int \<times> string list \<times> CountingBloomFilter)" where
  "BatchAdd murmur cbf [] = Inr (0, 0, [], cbf)"
| "BatchAdd murmur cbf (item # items) =
     go_bind (getHashIndices murmur item (cbf_m cbf) (cbf_k cbf)) (\<lambda>indices.
     go_bind (overflow_check (counters cbf) indices) (\<lambda>hasOverflow.
       if hasOverflow
       then go_bind (BatchAdd murmur cbf items) (\<lambda>(s, f, errs, cbf').
              Inr (s, f + 1, bloom_error_message ErrCounterOverflow # errs, cbf'))
       else go_bind (increment_loop (counters cbf) indices) (\<lambda>cs.
            go_bind (BatchAdd murmur (cbf\<lparr>counters := cs\<rparr>) items) (\<lambda>(s, f, errs, cbf').
              Inr (s + 1, f, '''' # errs, cbf')))))"

fun BatchRemove ::
  "(bytes \<Rightarrow> u32) \<Rightarrow> CountingBloomFilter \<Rightarrow> bytes list \<Rightarrow> panic + (int \<times> CountingBloomFilter)" where
  "BatchRemove murmur cbf [] = Inr (0, cbf)"
| "BatchRemove murmur cbf (item # items) =
     go_bind (getHashIndices murmur item (cbf_m cbf) (cbf_k cbf)) (\<lambda>indices.
     go_bind (remove_loop (counters cbf) indices) (\<lambda>cs.
     go_bind (BatchRemove murmur (cbf\<lparr>counters := cs\<rparr>) items) (\<lambda>(n, cbf'). Inr (n + 1, cbf'))))"

fun contains_loop :: "u8 list \<Rightarrow> int list \<Rightarrow> panic + bool" where
  "contains_loop cs [] = Inr True"
| "contains_loop cs (i # is) =
     go_bind (go_index cs i) (\<lambda>c. if c = 0 then Inr False else contains_loop cs is)"

definition Contains :: "(bytes \<Rightarrow> u32) \<Rightarrow> CountingBloomFilter \<Rightarrow> bytes \<Rightarrow> panic + bool" where
  "Contains murmur cbf item =
     go_bind (getHashIndices murmur item (cbf_m cbf) (cbf_k cbf)) (contains_loop (counters cbf))"

fun BatchContains :: "(bytes \<Rightarrow> u32) \<Rightarrow> CountingBloomFilter \<Rightarrow> bytes list \<Rightarrow> panic + bool list" where
  "BatchContains murmur cbf [] = Inr []"
| "BatchContains murmur cbf (item # items) =
     go_bind (getHashIndices murmur item (cbf_m cbf) (cbf_k cbf)) (\<lambda>indices.
     go_bind (contains_loop (counters cbf) indices) (\<lambda>found.
     go_bind (BatchContains murmur cbf items) (\<lambda>results. Inr (found # results))))"

fun count_loop :: "u8 list \<Rightarrow> u8 \<Rightarrow> int list \<Rightarrow> panic + u8" where
  "count_loop cs minCount [] = Inr minCount"
| "count_loop cs minCount (i # is) =
     go_bind (go_index cs i) (\<lambda>c. count_loop cs (if c < minCount then c else minCount) is)"

definition Count :: "(bytes \<Rightarrow> u32) \<Rightarrow> CountingBloomFilter \<Rightarrow> bytes \<Rightarrow> panic + u8" where
  "Count murmur cbf item =
     go_bind (getHashIndices murmur item (cbf_m cbf) (cbf_k cbf)) (count_loop (counters cbf) 255)"

definition Reset :: "CountingBloomFilter \<Rightarrow> CountingBloomFilter" where
  "Reset cbf = cbf\<lparr>counters := map (\<lambda>_. 0) (counters cbf)\<rparr>"

definition Size :: "CountingBloomFilter \<Rightarrow> int" where
  "Size cbf = cbf_m cbf"

definition HashCount :: "CountingBloomFilter \<Rightarrow> int" where
  "HashCount cbf = cbf_k cbf"

text \<open>\<open>[m(4 bytes)][k(4 bytes)][counters(m bytes)][CRC32 checksum(4 bytes)]\<close>\<close>

definition Serialize :: "CountingBloomFilter \<Rightarrow> bytes" where
  "Serialize cbf =
     (let data = be32 (uint32_of_int (cbf_m cbf)) @ be32 (uint32_of_int (cbf_k cbf)) @ counters cbf
      in data @ be32 (crc32 data))"

definition Deserialize :: "bytes \<Rightarrow> bloom_error + CountingBloomFilter" where
  "Deserialize data =
     (if length data < 12 then Inl ErrInvalidData
      else let m = uint (read32 (take 4 data)); k = uint (read32 (take 4 (drop 4 data)))
      in if MaxFilterSize < m then Inl ErrInvalidData
      else if k < 1 \<or> MaxHashFunctions < k then Inl ErrInvalidData
      else let expectedLen = 8 + m + 4
      in if int (length data) \<noteq> expectedLen then Inl ErrInvalidData
      else let n = nat (expectedLen - 4);
               dataWithoutChecksum = take n data;
               storedChecksum = read32 (take 4 (drop n data));
               calculatedChecksum = crc32 dataWithoutChecksum
      in if storedChecksum \<noteq> calculatedChecksum then Inl ErrChecksumMismatch
      else Inr \<lparr>cbf_m = m, cbf_k = k, counters = take (nat m) (drop 8 data)\<rparr>)"

section \<open>Invariant and abstraction\<close>

text \<open>The filters the constructor makes from a size of at least two and a number of hashes.\<close>

definition wf_cbf :: "CountingBloomFilter \<Rightarrow> bool" where
  "wf_cbf c \<longleftrightarrow> 2 \<le> cbf_m c \<and> cbf_m c < 2 ^ 63 \<and> 0 \<le> cbf_k c \<and> length (counters c) = nat (cbf_m c)"

text \<open>The positions of an item in a given filter.\<close>

definition item_positions :: "(bytes \<Rightarrow> u32) \<Rightarrow> CountingBloomFilter \<Rightarrow> bytes \<Rightarrow> nat list" where
  "item_positions murmur c item = positions murmur (cbf_m c) (cbf_k c) item"

text \<open>
  The specification state of a filter is the multiset of the items it holds. \<open>load\<close> is the value
  counter \<open>j\<close> should have for it. A filter \<open>covers\<close> a multiset if every counter is at least the
  load, and \<open>represents\<close> it if every counter is exactly the load.
\<close>

definition load :: "(bytes \<Rightarrow> u32) \<Rightarrow> int \<Rightarrow> int \<Rightarrow> bytes multiset \<Rightarrow> nat \<Rightarrow> nat" where
  "load murmur m k M j = (\<Sum>x \<in># M. count_list (positions murmur m k x) j)"

definition covers :: "(bytes \<Rightarrow> u32) \<Rightarrow> CountingBloomFilter \<Rightarrow> bytes multiset \<Rightarrow> bool" where
  "covers murmur c M \<longleftrightarrow> wf_cbf c \<and>
     (\<forall>j < length (counters c). load murmur (cbf_m c) (cbf_k c) M j \<le> unat (counters c ! j))"

definition represents :: "(bytes \<Rightarrow> u32) \<Rightarrow> CountingBloomFilter \<Rightarrow> bytes multiset \<Rightarrow> bool" where
  "represents murmur c M \<longleftrightarrow> wf_cbf c \<and>
     (\<forall>j < length (counters c). unat (counters c ! j) = load murmur (cbf_m c) (cbf_k c) M j)"

text \<open>The counters after incrementing, or decrementing, every position of a list (in \<open>uint8\<close>).\<close>

definition bump :: "u8 list \<Rightarrow> nat list \<Rightarrow> u8 list" where
  "bump cs ps = map (\<lambda>j. cs ! j + of_nat (count_list ps j)) [0 ..< length cs]"

definition drain :: "u8 list \<Rightarrow> nat list \<Rightarrow> u8 list" where
  "drain cs ps = map (\<lambda>j. of_nat (unat (cs ! j) - count_list ps j)) [0 ..< length cs]"

text \<open>The filter as its clients see it once it cannot panic: total operations.\<close>

definition filter_add :: "(bytes \<Rightarrow> u32) \<Rightarrow> CountingBloomFilter \<Rightarrow> bytes \<Rightarrow> bool \<times> CountingBloomFilter" where
  "filter_add murmur c x = (case Add murmur c x of
      Inl _ \<Rightarrow> (False, c) | Inr (err, c') \<Rightarrow> (err = None, c'))"

definition filter_remove :: "(bytes \<Rightarrow> u32) \<Rightarrow> CountingBloomFilter \<Rightarrow> bytes \<Rightarrow> CountingBloomFilter" where
  "filter_remove murmur c x = (case Remove murmur c x of Inl _ \<Rightarrow> c | Inr c' \<Rightarrow> c')"

definition filter_contains :: "(bytes \<Rightarrow> u32) \<Rightarrow> CountingBloomFilter \<Rightarrow> bytes \<Rightarrow> bool \<times> CountingBloomFilter" where
  "filter_contains murmur c x = (Contains murmur c x = Inr True, c)"

text \<open>\<open>Add\<close> with the partial increments of a failure undone: what a batch does for each item.\<close>

definition add_or_keep :: "(bytes \<Rightarrow> u32) \<Rightarrow> CountingBloomFilter \<Rightarrow> bytes \<Rightarrow> bool \<times> CountingBloomFilter" where
  "add_or_keep murmur c x = (case Add murmur c x of Inr (None, c') \<Rightarrow> (True, c') | _ \<Rightarrow> (False, c))"

fun batch_spec :: "(bytes \<Rightarrow> u32) \<Rightarrow> CountingBloomFilter \<Rightarrow> bytes list \<Rightarrow> bool list \<times> CountingBloomFilter" where
  "batch_spec murmur c [] = ([], c)"
| "batch_spec murmur c (x # xs) =
     (let (ok, c') = add_or_keep murmur c x; (oks, c'') = batch_spec murmur c' xs in (ok # oks, c''))"

text \<open>The filters the serialized format can carry.\<close>

definition serializable :: "CountingBloomFilter \<Rightarrow> bool" where
  "serializable c \<longleftrightarrow> 0 \<le> cbf_m c \<and> cbf_m c \<le> MaxFilterSize \<and> 1 \<le> cbf_k c \<and> cbf_k c \<le> MaxHashFunctions
     \<and> int (length (counters c)) = cbf_m c"

section \<open>The loops\<close>

lemma length_bump [simp]: "length (bump cs ps) = length cs"
  by (simp add: bump_def)

lemma length_drain [simp]: "length (drain cs ps) = length cs"
  by (simp add: drain_def)

lemma nth_bump [simp]: "j < length cs \<Longrightarrow> bump cs ps ! j = cs ! j + of_nat (count_list ps j)"
  by (simp add: bump_def)

lemma nth_drain [simp]: "j < length cs \<Longrightarrow> drain cs ps ! j = of_nat (unat (cs ! j) - count_list ps j)"
  by (simp add: drain_def)

lemma bump_Nil [simp]: "bump cs [] = cs"
  by (rule nth_equalityI) simp_all

lemma drain_Nil [simp]: "drain cs [] = cs"
  by (rule nth_equalityI) simp_all

lemma bump_Cons: "p < length cs \<Longrightarrow> bump (cs[p := cs ! p + 1]) ps = bump cs (p # ps)"
  by (rule nth_equalityI) (auto simp: nth_list_update)

lemma unat_byte_of_nat [simp]: "n \<le> 255 \<Longrightarrow> unat (of_nat n :: u8) = n"
  by (simp add: unat_of_nat)

lemma unat_bump:
  "j < length cs \<Longrightarrow> unat (cs ! j) + count_list ps j \<le> 255 \<Longrightarrow>
     unat (bump cs ps ! j) = unat (cs ! j) + count_list ps j"
  by (simp add: unat_word_ariths)

lemma unat_drain: "j < length cs \<Longrightarrow> unat (drain cs ps ! j) = unat (cs ! j) - count_list ps j"
proof -
  assume "j < length cs"
  moreover have "unat (cs ! j) - count_list ps j \<le> 255"
    using unat_byte_less [of "cs ! j"] by linarith
  ultimately show ?thesis by simp
qed

lemma drain_Cons:
  assumes "p < length cs"
  shows "drain (if 0 < cs ! p then cs[p := cs ! p - 1] else cs) ps = drain cs (p # ps)"
proof (rule nth_equalityI)
  fix j
  assume "j < length (drain (if 0 < cs ! p then cs[p := cs ! p - 1] else cs) ps)"
  then have j: "j < length cs" by (simp split: if_splits)
  show "drain (if 0 < cs ! p then cs[p := cs ! p - 1] else cs) ps ! j = drain cs (p # ps) ! j"
  proof (cases "cs ! p = 0")
    case True
    then show ?thesis using j by auto
  next
    case False
    then have "unat (cs ! p - 1) = unat (cs ! p) - 1" and "0 < cs ! p"
      by (simp_all add: unat_minus_one word_neq_0_conv)
    then show ?thesis using assms j by (auto simp: nth_list_update)
  qed
qed simp

lemma saturated_iff: "255 \<le> (c :: u8) \<longleftrightarrow> unat c = 255"
proof -
  have "255 \<le> c \<longleftrightarrow> 255 \<le> unat c" by (simp add: word_le_nat_alt)
  then show ?thesis using unat_byte_less [of c] by linarith
qed

lemma unat_suc_byte: "unat c < 255 \<Longrightarrow> unat (c + 1) = Suc (unat c)" for c :: u8
  by (simp add: unat_word_ariths)

text \<open>
  \<open>Add\<close>'s loop either increments every position, or stops at the first one whose counter is
  saturated, with the increments of the positions before it.
\<close>

lemma add_loop_cases:
  assumes "\<forall>p \<in> set ps. p < length cs"
  shows "((\<forall>j < length cs. unat (cs ! j) + count_list ps j \<le> 255)
           \<and> add_loop cs (map int ps) = Inr (None, bump cs ps))
       \<or> (\<exists>n < length ps. (\<forall>j < length cs. unat (cs ! j) + count_list (take n ps) j \<le> 255)
           \<and> unat (cs ! (ps ! n)) + count_list (take n ps) (ps ! n) = 255
           \<and> add_loop cs (map int ps) = Inr (Some ErrCounterOverflow, bump cs (take n ps)))"
  using assms
proof (induction ps arbitrary: cs)
  case Nil
  have "unat (cs ! j) \<le> 255" for j using unat_byte_less [of "cs ! j"] by linarith
  then show ?case by simp
next
  case (Cons p ps)
  then have p: "p < length cs" by simp
  let ?c = "cs ! p" and ?cs = "cs[p := cs ! p + 1]"
  have bound: "unat (cs ! j) \<le> 255" for j using unat_byte_less [of "cs ! j"] by linarith
  show ?case
  proof (cases "unat ?c = 255")
    case True
    then have "add_loop cs (map int (p # ps)) = Inr (Some ErrCounterOverflow, cs)"
      using p by (simp add: go_index_in saturated_iff)
    then show ?thesis using True bound by (intro disjI2 exI [of _ 0]) simp
  next
    case False
    with bound [of p] have lt: "unat ?c < 255" by linarith
    then have step: "add_loop cs (map int (p # ps)) = add_loop ?cs (map int ps)"
      using p False by (simp add: go_index_in saturated_iff)
    have val: "unat (?cs ! j) = unat (cs ! j) + (if j = p then 1 else 0)" if "j < length cs" for j
      using that lt by (auto simp: nth_list_update unat_suc_byte)
    have cnt: "unat (?cs ! j) + count_list qs j = unat (cs ! j) + count_list (p # qs) j"
      if "j < length cs" for j qs
      using val [OF that] by simp
    have "\<forall>q \<in> set ps. q < length ?cs" using Cons.prems by simp
    from Cons.IH [OF this] show ?thesis
    proof (elim disjE exE conjE)
      assume "\<forall>j < length ?cs. unat (?cs ! j) + count_list ps j \<le> 255"
        and "add_loop ?cs (map int ps) = Inr (None, bump ?cs ps)"
      then show ?thesis using step cnt p by (simp add: bump_Cons del: count_list.simps)
    next
      fix n
      assume n: "n < length ps" "\<forall>j < length ?cs. unat (?cs ! j) + count_list (take n ps) j \<le> 255"
        "unat (?cs ! (ps ! n)) + count_list (take n ps) (ps ! n) = 255"
        "add_loop ?cs (map int ps) = Inr (Some ErrCounterOverflow, bump ?cs (take n ps))"
      then have "ps ! n < length cs" using Cons.prems by simp
      with n step cnt [of _ "take n ps"] p show ?thesis
        by (intro disjI2 exI [of _ "Suc n"]) (simp add: bump_Cons del: count_list.simps)
    qed
  qed
qed

lemma remove_loop_ok:
  "\<forall>p \<in> set ps. p < length cs \<Longrightarrow> remove_loop cs (map int ps) = Inr (drain cs ps)"
proof (induction ps arbitrary: cs)
  case (Cons p ps)
  then show ?case using drain_Cons [of p cs ps] by (simp add: go_index_in split: if_splits)
qed simp

lemma contains_loop_ok:
  "\<forall>p \<in> set ps. p < length cs \<Longrightarrow> contains_loop cs (map int ps) = Inr (\<forall>p \<in> set ps. cs ! p \<noteq> 0)"
  by (induction ps) (auto simp: go_index_in)

lemma count_loop_ok:
  "\<forall>p \<in> set ps. p < length cs \<Longrightarrow> count_loop cs a (map int ps) = Inr (foldl min a (map ((!) cs) ps))"
proof (induction ps arbitrary: a)
  case (Cons p ps)
  have "(if cs ! p < a then cs ! p else a) = min a (cs ! p)" by (auto simp: min_def)
  with Cons show ?case by (simp add: go_index_in)
qed simp

lemma overflow_check_ok:
  "\<forall>p \<in> set ps. p < length cs \<Longrightarrow>
     overflow_check cs (map int ps) = Inr (\<exists>p \<in> set ps. unat (cs ! p) = 255)"
  by (induction ps) (auto simp: go_index_in saturated_iff)

lemma increment_loop_ok:
  "\<forall>p \<in> set ps. p < length cs \<Longrightarrow> increment_loop cs (map int ps) = Inr (bump cs ps)"
proof (induction ps arbitrary: cs)
  case (Cons p ps)
  then show ?case using bump_Cons [of p cs ps] by (simp add: go_index_in)
qed simp

section \<open>The operations on well-formed filters\<close>

lemma item_positions_ok:
  assumes "wf_cbf c"
  shows "getHashIndices murmur x (cbf_m c) (cbf_k c) = Inr (map int (item_positions murmur c x))"
    and "length (item_positions murmur c x) = nat (cbf_k c)"
    and "\<forall>p \<in> set (item_positions murmur c x). p < length (counters c)"
  using assms positions_eq [where m = "cbf_m c" and k = "cbf_k c" and murmur = murmur and item = x]
  by (auto simp: wf_cbf_def item_positions_def)

lemma item_positions_update [simp]:
  "item_positions murmur (c\<lparr>counters := cs\<rparr>) x = item_positions murmur c x"
  by (simp add: item_positions_def)

lemma wf_cbf_update [simp]: "wf_cbf c \<Longrightarrow> length cs = length (counters c) \<Longrightarrow> wf_cbf (c\<lparr>counters := cs\<rparr>)"
  by (simp add: wf_cbf_def)

lemma Remove_eq:
  "wf_cbf c \<Longrightarrow> Remove murmur c x = Inr (c\<lparr>counters := drain (counters c) (item_positions murmur c x)\<rparr>)"
  by (simp add: Remove_def item_positions_ok remove_loop_ok)

lemma Contains_eq:
  "wf_cbf c \<Longrightarrow>
     Contains murmur c x = Inr (\<forall>p \<in> set (item_positions murmur c x). counters c ! p \<noteq> 0)"
  by (simp add: Contains_def item_positions_ok contains_loop_ok)

lemma Count_eq:
  "wf_cbf c \<Longrightarrow>
     Count murmur c x = Inr (foldl min 255 (map ((!) (counters c)) (item_positions murmur c x)))"
  by (simp add: Count_def item_positions_ok count_loop_ok)

lemma Add_cases:
  assumes "wf_cbf c"
  obtains (ok) "\<forall>j < length (counters c).
        unat (counters c ! j) + count_list (item_positions murmur c x) j \<le> 255"
      "Add murmur c x = Inr (None, c\<lparr>counters := bump (counters c) (item_positions murmur c x)\<rparr>)"
  | (overflow) n where "n < length (item_positions murmur c x)"
      "\<forall>j < length (counters c).
        unat (counters c ! j) + count_list (take n (item_positions murmur c x)) j \<le> 255"
      "unat (counters c ! (item_positions murmur c x ! n))
         + count_list (take n (item_positions murmur c x)) (item_positions murmur c x ! n) = 255"
      "Add murmur c x = Inr (Some ErrCounterOverflow,
         c\<lparr>counters := bump (counters c) (take n (item_positions murmur c x))\<rparr>)"
proof -
  note ip = item_positions_ok [OF assms, where murmur = murmur and x = x]
  have A: "Add murmur c x = go_bind (add_loop (counters c) (map int (item_positions murmur c x)))
      (\<lambda>(err, cs). Inr (err, c\<lparr>counters := cs\<rparr>))"
    by (simp add: Add_def ip)
  from add_loop_cases [OF ip(3)] show ?thesis
    by (elim disjE exE conjE) (auto simp: A intro: that)
qed

lemma Add_wf: "wf_cbf c \<Longrightarrow> \<exists>err c'. Add murmur c x = Inr (err, c') \<and> wf_cbf c'
    \<and> cbf_m c' = cbf_m c \<and> cbf_k c' = cbf_k c"
  by (rule Add_cases [where c = c and murmur = murmur and x = x]) auto

section \<open>Loads\<close>

lemma load_empty [simp]: "load murmur m k {#} j = 0"
  by (simp add: load_def)

lemma load_add_mset [simp]:
  "load murmur m k (add_mset x M) j = count_list (positions murmur m k x) j + load murmur m k M j"
  by (simp add: load_def)

lemma load_remove:
  "x \<in># M \<Longrightarrow>
     load murmur m k M j = count_list (positions murmur m k x) j + load murmur m k (M - {#x#}) j"
  by (metis insert_DiffM load_add_mset)

lemma load_pos: "0 < load murmur m k M j \<longleftrightarrow> (\<exists>x \<in># M. j \<in> set (positions murmur m k x))"
  by (induction M) (auto simp: count_list_pos)

lemma load_ge_count:
  "j \<in> set (positions murmur m k x) \<Longrightarrow> count M x \<le> load murmur m k M j"
proof (induction M)
  case (add y M)
  then have "1 \<le> count_list (positions murmur m k x) j"
    by (simp add: Suc_le_eq count_list_pos)
  with add show ?case by (cases "x = y") auto
qed simp

section \<open>The filter against the multiset it holds\<close>

lemma covers_wf: "covers murmur c M \<Longrightarrow> wf_cbf c"
  by (simp add: covers_def)

lemma represents_covers: "represents murmur c M \<Longrightarrow> covers murmur c M"
  by (simp add: covers_def represents_def)

lemma covers_bump:
  assumes "covers murmur c M" and "\<forall>j < length (counters c). unat (counters c ! j) + count_list ps j \<le> 255"
  shows "covers murmur (c\<lparr>counters := bump (counters c) ps\<rparr>) M"
  using assms by (auto simp: covers_def unat_bump trans_le_add1 simp del: nth_bump)

lemma covers_add:
  assumes "covers murmur c M"
    and "\<forall>j < length (counters c). unat (counters c ! j) + count_list (item_positions murmur c x) j \<le> 255"
  shows "covers murmur (c\<lparr>counters := bump (counters c) (item_positions murmur c x)\<rparr>) (add_mset x M)"
  using assms by (auto simp: covers_def unat_bump item_positions_def add.commute add_mono simp del: nth_bump)

lemma represents_add:
  assumes "represents murmur c M"
    and "\<forall>j < length (counters c). unat (counters c ! j) + count_list (item_positions murmur c x) j \<le> 255"
  shows "represents murmur (c\<lparr>counters := bump (counters c) (item_positions murmur c x)\<rparr>) (add_mset x M)"
  using assms by (auto simp: represents_def unat_bump item_positions_def simp del: nth_bump)

lemma covers_remove:
  assumes "covers murmur c M" and "x \<in># M"
  shows "covers murmur (c\<lparr>counters := drain (counters c) (item_positions murmur c x)\<rparr>) (M - {#x#})"
  using assms load_remove [OF assms(2), of murmur "cbf_m c" "cbf_k c"]
  by (auto simp: covers_def unat_drain item_positions_def le_diff_conv2 add.commute le_diff_conv
    simp del: nth_drain)

lemma represents_remove:
  assumes "represents murmur c M" and "x \<in># M"
  shows "represents murmur (c\<lparr>counters := drain (counters c) (item_positions murmur c x)\<rparr>) (M - {#x#})"
  using assms load_remove [OF assms(2), of murmur "cbf_m c" "cbf_k c"]
  by (auto simp: represents_def unat_drain item_positions_def simp del: nth_drain)

lemma covers_counter_pos:
  assumes "covers murmur c M" and "x \<in># M" and "p \<in> set (item_positions murmur c x)"
  shows "counters c ! p \<noteq> 0"
proof -
  have "p < length (counters c)"
    using assms item_positions_ok(3) [OF covers_wf [OF assms(1)]] by blast
  moreover have "0 < load murmur (cbf_m c) (cbf_k c) M p"
    using assms by (auto simp: load_pos item_positions_def)
  ultimately have "0 < unat (counters c ! p)" using assms(1) by (fastforce simp: covers_def)
  then show ?thesis by auto
qed

lemma covers_new:
  assumes "2 \<le> m" and "m < 2 ^ 63" and "0 \<le> k"
  shows "\<exists>c. NewCountingBloomFilter m k = Inr c \<and> represents murmur c {#}"
  using assms by (auto simp: NewCountingBloomFilter_def represents_def wf_cbf_def)

lemma load_le:
  assumes "wf_cbf c"
  shows "load murmur (cbf_m c) (cbf_k c) M j \<le> nat (cbf_k c) * size M"
proof (induction M)
  case (add x M)
  then show ?case using count_le_length [of "item_positions murmur c x" j] item_positions_ok(2) [OF assms, where murmur = murmur and x = x]
    by (simp add: item_positions_def)
qed simp

text \<open>An addition cannot overflow while the items fit into the counters.\<close>

lemma Add_fits:
  assumes "represents murmur c M" and "nat (cbf_k c) * Suc (size M) \<le> 255"
  shows "\<exists>c'. Add murmur c x = Inr (None, c') \<and> represents murmur c' (add_mset x M) \<and> cbf_k c' = cbf_k c"
proof -
  have wf: "wf_cbf c" using assms(1) represents_covers covers_wf by blast
  note ip = item_positions_ok [OF wf, where murmur = murmur and x = x]
  show ?thesis
  proof (rule Add_cases [OF wf, where murmur = murmur and x = x])
    fix n
    let ?ps = "item_positions murmur c x"
    assume n: "n < length ?ps" and o: "unat (counters c ! (?ps ! n)) + count_list (take n ?ps) (?ps ! n) = 255"
    have "?ps ! n < length (counters c)" using n ip(3) nth_mem by blast
    then have "unat (counters c ! (?ps ! n)) \<le> nat (cbf_k c) * size M"
      using assms(1) load_le [OF wf, of murmur M] by (simp add: represents_def)
    moreover have "count_list (take n ?ps) (?ps ! n) \<le> n" using count_le_length [of "take n ?ps"] n by (metis length_take min.absorb4)
    moreover have "n < nat (cbf_k c)" using n ip(2) by simp
    ultimately show ?thesis using assms(2) o by simp
  qed (use assms(1) represents_add in fastforce)
qed

interpretation cbf: membership_filter "covers murmur" "filter_add murmur" "filter_remove murmur"
  "filter_contains murmur" for murmur
proof unfold_locales
  fix c M x c'
  assume c: "covers murmur c M"
  note w = covers_wf [OF c]
  show "covers murmur c' (add_mset x M)" if "filter_add murmur c x = (True, c')"
    using that by (rule_tac Add_cases [OF w, where murmur = murmur and x = x])
      (auto simp: filter_add_def intro: covers_add c)
  show "covers murmur c' M" if "filter_add murmur c x = (False, c')"
    using that by (rule_tac Add_cases [OF w, where murmur = murmur and x = x])
      (auto simp: filter_add_def intro: covers_bump c)
  show "covers murmur (filter_remove murmur c x) (M - {#x#})" if "x \<in># M"
    using that by (simp add: filter_remove_def Remove_eq w covers_remove c)
  show "covers murmur (snd (filter_contains murmur c x)) M"
    by (simp add: filter_contains_def c)
  show "fst (filter_contains murmur c x)" if "x \<in># M"
    using that covers_counter_pos [OF c] by (simp add: filter_contains_def Contains_eq w)
qed

section \<open>Properties\<close>

text \<open>C1: no false negatives. From a new filter of size at least two, after any history of additions,
  removals and queries in which only held items are removed, \<open>Contains\<close> answers true for every item
  that is held (an addition counts when it returned no error).\<close>

theorem no_false_negatives:
  assumes "2 \<le> m" and "m < 2 ^ 63" and "0 \<le> k" and "NewCountingBloomFilter m k = Inr c"
    and "legal_ops (filter_add murmur) (filter_remove murmur) (filter_contains murmur) c {#} ops"
    and "run_ops (filter_add murmur) (filter_remove murmur) (filter_contains murmur) c {#} ops = (c', M)"
    and "x \<in># M"
  shows "Contains murmur c' x = Inr True"
proof -
  have "covers murmur c {#}" using covers_new [OF assms(1-3)] assms(4) represents_covers by auto
  then have "fst (filter_contains murmur c' x)"
    using cbf.no_false_negative assms(5-7) by blast
  then show ?thesis by (simp add: filter_contains_def)
qed

theorem no_false_negatives_witness:
  "Contains (\<lambda>b. if b = [1] then 3 else 5) \<lparr>cbf_m = 4, cbf_k = 2, counters = [1, 0, 0, 1]\<rparr> [1] = Inr True"
  by (rule no_false_negatives [of 4 2 "\<lparr>cbf_m = 4, cbf_k = 2, counters = [0, 0, 0, 0]\<rparr>"
        "\<lambda>b. if b = [1] then 3 else 5" "[AddOp [1], AddOp [2], RemoveOp [2]]" _ "{#[1]#}"])
    (simp, simp, simp, code_simp, code_simp, code_simp, simp)

text \<open>C6: functional refinement. If every counter of a filter is exactly the number of times the held
  items hash to it, then a successful \<open>Add\<close> yields a filter that represents the multiset with the
  item added, and \<open>Remove\<close> of a held item one that represents the multiset without it; neither
  panics.\<close>

theorem Add_Remove_refine:
  assumes "represents murmur c M"
  shows "(\<exists>err c'. Add murmur c x = Inr (err, c') \<and> (err = None \<longrightarrow> represents murmur c' (add_mset x M)))
    \<and> (x \<in># M \<longrightarrow> (\<exists>c'. Remove murmur c x = Inr c' \<and> represents murmur c' (M - {#x#})))"
proof -
  have w: "wf_cbf c" using assms by (simp add: represents_def)
  have "\<exists>err c'. Add murmur c x = Inr (err, c') \<and> (err = None \<longrightarrow> represents murmur c' (add_mset x M))"
    by (rule Add_cases [OF w, where murmur = murmur and x = x]) (auto intro: represents_add assms)
  then show ?thesis using assms by (auto simp: Remove_eq w intro: represents_remove)
qed

theorem Add_Remove_refine_witness:
  "\<exists>c'. Remove (\<lambda>_. 3) \<lparr>cbf_m = 4, cbf_k = 2, counters = [1, 0, 0, 1]\<rparr> [1] = Inr c' \<and> represents (\<lambda>_. 3) c' {#}"
proof -
  have "represents (\<lambda>_. 3) \<lparr>cbf_m = 4, cbf_k = 2, counters = [1, 0, 0, 1]\<rparr> {#[1]#}"
    by code_simp
  from Add_Remove_refine [OF this, of "[1]"] show ?thesis by simp
qed

text \<open>C21: \<open>Add\<close> succeeds exactly when every counter has room for all the times the item hashes to it;
  otherwise it reports \<open>ErrCounterOverflow\<close>. On success \<open>Remove\<close> of the same item gives back the
  filter \<open>Add\<close> started from.\<close>

theorem Add_outcome:
  assumes "wf_cbf c"
  shows "\<exists>c'. (Add murmur c x =
        (if \<forall>j < length (counters c). unat (counters c ! j) + count_list (item_positions murmur c x) j \<le> 255
         then Inr (None, c') else Inr (Some ErrCounterOverflow, c')))
    \<and> wf_cbf c' \<and> (Add murmur c x = Inr (None, c') \<longrightarrow> Remove murmur c' x = Inr c)"
proof (rule Add_cases [OF assms, where murmur = murmur and x = x])
  let ?ps = "item_positions murmur c x"
  assume ok: "\<forall>j < length (counters c). unat (counters c ! j) + count_list ?ps j \<le> 255"
    and A: "Add murmur c x = Inr (None, c\<lparr>counters := bump (counters c) ?ps\<rparr>)"
  have "drain (bump (counters c) ?ps) ?ps = counters c"
    using ok by (intro nth_equalityI) (simp_all add: unat_bump del: nth_bump)
  then show ?thesis using ok A assms
    by (intro exI [of _ "c\<lparr>counters := bump (counters c) ?ps\<rparr>"]) (simp add: Remove_eq)
next
  let ?ps = "item_positions murmur c x"
  fix n
  assume n: "n < length ?ps"
    and at: "unat (counters c ! (?ps ! n)) + count_list (take n ?ps) (?ps ! n) = 255"
    and A: "Add murmur c x = Inr (Some ErrCounterOverflow, c\<lparr>counters := bump (counters c) (take n ?ps)\<rparr>)"
  have p: "?ps ! n < length (counters c)" using item_positions_ok(3) [OF assms] n nth_mem by blast
  have "count_list ?ps (?ps ! n) = count_list (take n ?ps @ ?ps ! n # drop (Suc n) ?ps) (?ps ! n)"
    using n by (simp add: id_take_nth_drop [symmetric])
  then have "count_list (take n ?ps) (?ps ! n) < count_list ?ps (?ps ! n)" by simp
  with at have "\<not> unat (counters c ! (?ps ! n)) + count_list ?ps (?ps ! n) \<le> 255" by linarith
  with p have "\<not> (\<forall>j < length (counters c). unat (counters c ! j) + count_list ?ps j \<le> 255)" by blast
  then show ?thesis using A assms
    by (intro exI [of _ "c\<lparr>counters := bump (counters c) (take n ?ps)\<rparr>"]) simp
qed

theorem Add_outcome_witness:
  "\<exists>c'. Add (\<lambda>_. 3) \<lparr>cbf_m = 4, cbf_k = 2, counters = [255, 0, 0, 7]\<rparr> [1] = Inr (Some ErrCounterOverflow, c')"
proof -
  have w: "wf_cbf \<lparr>cbf_m = 4, cbf_k = 2, counters = [255, 0, 0, 7]\<rparr>" by code_simp
  have "item_positions (\<lambda>_. 3) \<lparr>cbf_m = 4, cbf_k = 2, counters = [255, 0, 0, 7]\<rparr> [1] = [3, 0]" by code_simp
  with Add_outcome [OF w, of "\<lambda>_. 3" "[1]"] show ?thesis by (auto split: if_splits)
qed

text \<open>The answer of \<open>Contains\<close> on a filter that represents a multiset, exactly: true if and only if
  every position of the item is a position of some held item. So the false positives are the items
  whose positions are all taken by others.\<close>

theorem Contains_exact:
  assumes "represents murmur c M"
  shows "Contains murmur c x = Inr (\<forall>p \<in> set (item_positions murmur c x).
      \<exists>y \<in># M. p \<in> set (item_positions murmur c y))"
proof -
  have w: "wf_cbf c" using assms by (simp add: represents_def)
  have "counters c ! p \<noteq> 0 \<longleftrightarrow> (\<exists>y \<in># M. p \<in> set (item_positions murmur c y))"
    if "p \<in> set (item_positions murmur c x)" for p
  proof -
    have "p < length (counters c)" using that item_positions_ok(3) [OF w] by blast
    then have "unat (counters c ! p) = load murmur (cbf_m c) (cbf_k c) M p"
      using assms by (simp add: represents_def)
    then show ?thesis using load_pos [of murmur "cbf_m c" "cbf_k c" M p]
      by (auto simp: item_positions_def unat_eq_0)
  qed
  then show ?thesis by (simp add: Contains_eq w)
qed

theorem Contains_exact_witness:
  "Contains (\<lambda>_. 3) \<lparr>cbf_m = 4, cbf_k = 2, counters = [1, 0, 0, 1]\<rparr> [2] = Inr True"
proof -
  have r: "represents (\<lambda>_. 3) \<lparr>cbf_m = 4, cbf_k = 2, counters = [1, 0, 0, 1]\<rparr> {#[1]#}" by code_simp
  have "item_positions (\<lambda>_. 3) \<lparr>cbf_m = 4, cbf_k = 2, counters = [1, 0, 0, 1]\<rparr> y = [3, 0]" for y
    by (simp add: item_positions_def positions_def getHashIndices_def) code_simp
  with Contains_exact [OF r, of "[2]"] show ?thesis by simp
qed

lemma le_unat_foldl_min:
  "n \<le> unat (foldl min a ys) \<longleftrightarrow> n \<le> unat a \<and> (\<forall>y \<in> set ys. n \<le> unat y)" for a :: u8
proof (induction ys arbitrary: a)
  case (Cons y ys)
  have "unat (min a y) = min (unat a) (unat y)" by (simp add: min_def word_le_nat_alt)
  with Cons show ?case by auto
qed simp

text \<open>C33: \<open>Count\<close> never underestimates, up to the saturation value: on a filter that covers a
  multiset it returns at least the multiplicity of the item when that is at most 255, and with
  at least one hash function a positive count is the same as \<open>Contains\<close>.\<close>

theorem Count_bounds:
  assumes "covers murmur c M"
  shows "\<exists>n. Count murmur c x = Inr n \<and> min 255 (count M x) \<le> unat n
    \<and> Contains murmur c x = Inr (n \<noteq> 0)"
proof -
  have w: "wf_cbf c" using assms by (simp add: covers_def)
  let ?n = "foldl min 255 (map ((!) (counters c)) (item_positions murmur c x))"
  have "min 255 (count M x) \<le> unat (counters c ! p)" if "p \<in> set (item_positions murmur c x)" for p
  proof -
    have "p < length (counters c)" using that item_positions_ok(3) [OF w] by blast
    with assms have "load murmur (cbf_m c) (cbf_k c) M p \<le> unat (counters c ! p)"
      by (simp add: covers_def)
    with load_ge_count [of p murmur "cbf_m c" "cbf_k c" x M] that show ?thesis
      by (simp add: item_positions_def)
  qed
  then have "min 255 (count M x) \<le> unat ?n" by (simp add: le_unat_foldl_min)
  moreover have "?n \<noteq> 0 \<longleftrightarrow> (\<forall>p \<in> set (item_positions murmur c x). counters c ! p \<noteq> 0)"
    using le_unat_foldl_min [of 1 255 "map ((!) (counters c)) (item_positions murmur c x)"]
    by (simp add: Suc_le_eq unat_gt_0)
  ultimately show ?thesis by (simp add: Count_eq Contains_eq w)
qed

theorem Count_bounds_witness:
  "\<exists>n. Count (\<lambda>_. 3) \<lparr>cbf_m = 4, cbf_k = 2, counters = [2, 0, 0, 2]\<rparr> [1] = Inr n \<and> 2 \<le> unat n"
proof -
  have "represents (\<lambda>_. 3) \<lparr>cbf_m = 4, cbf_k = 2, counters = [2, 0, 0, 2]\<rparr> {#[1], [1]#}" by code_simp
  from Count_bounds [OF represents_covers [OF this], of "[1]"] obtain n where
    "Count (\<lambda>_. 3) \<lparr>cbf_m = 4, cbf_k = 2, counters = [2, 0, 0, 2]\<rparr> [1] = Inr n" "2 \<le> unat n"
    by (auto simp: numeral_2_eq_2)
  then show ?thesis by blast
qed

lemma distinct_bump_room:
  assumes "wf_cbf c" and "distinct (item_positions murmur c x)"
  shows "overflow_check (counters c) (map int (item_positions murmur c x)) = Inr (\<not> fst (add_or_keep murmur c x))"
    and "snd (add_or_keep murmur c x) = (if fst (add_or_keep murmur c x)
           then c\<lparr>counters := bump (counters c) (item_positions murmur c x)\<rparr> else c)"
proof -
  let ?ps = "item_positions murmur c x"
  note ip = item_positions_ok [OF assms(1), where murmur = murmur and x = x]
  have "(overflow_check (counters c) (map int ?ps) = Inr (\<not> fst (add_or_keep murmur c x)))
    \<and> snd (add_or_keep murmur c x) = (if fst (add_or_keep murmur c x)
           then c\<lparr>counters := bump (counters c) ?ps\<rparr> else c)"
  proof (rule Add_cases [OF assms(1), where murmur = murmur and x = x])
    assume room: "\<forall>j < length (counters c). unat (counters c ! j) + count_list ?ps j \<le> 255"
      and A: "Add murmur c x = Inr (None, c\<lparr>counters := bump (counters c) ?ps\<rparr>)"
    have "unat (counters c ! p) \<noteq> 255" if "p \<in> set ?ps" for p
    proof -
      from that have "0 < count_list ?ps p" by (simp add: count_list_pos)
      moreover have "unat (counters c ! p) + count_list ?ps p \<le> 255" using room ip(3) that by blast
      ultimately show ?thesis by linarith
    qed
    then show ?thesis using A ip(3) by (simp add: add_or_keep_def overflow_check_ok)
  next
    fix n
    assume n: "n < length ?ps" "unat (counters c ! (?ps ! n)) + count_list (take n ?ps) (?ps ! n) = 255"
      and A: "Add murmur c x = Inr (Some ErrCounterOverflow, c\<lparr>counters := bump (counters c) (take n ?ps)\<rparr>)"
    have "?ps ! n \<notin> set (take n ?ps)"
      using assms(2) n(1) by (auto simp: in_set_conv_nth nth_eq_iff_index_eq)
    with n have "\<exists>p \<in> set ?ps. unat (counters c ! p) = 255"
      by (metis add.right_neutral count_list_0_iff nth_mem)
    then show ?thesis using A ip(3) by (simp add: add_or_keep_def overflow_check_ok)
  qed
  then show "overflow_check (counters c) (map int ?ps) = Inr (\<not> fst (add_or_keep murmur c x))"
    and "snd (add_or_keep murmur c x) = (if fst (add_or_keep murmur c x)
           then c\<lparr>counters := bump (counters c) ?ps\<rparr> else c)" by blast+
qed

text \<open>C22: \<open>BatchAdd\<close>, when no item hashes twice to the same counter, does for each item in turn what
  \<open>Add\<close> does, except that a failed item leaves no partial increments: its success and failure counts,
  its error strings and its final filter are those of the sequential reference.\<close>

theorem BatchAdd_sequential:
  assumes "wf_cbf c" and "\<forall>x \<in> set items. distinct (item_positions murmur c x)"
  shows "BatchAdd murmur c items =
    (case batch_spec murmur c items of (oks, c') \<Rightarrow>
       Inr (int (count_list oks True), int (count_list oks False),
            map (\<lambda>ok. if ok then '''' else bloom_error_message ErrCounterOverflow) oks, c'))"
  using assms
proof (induction items arbitrary: c)
  case (Cons x items)
  let ?ps = "item_positions murmur c x"
  define r where "r = add_or_keep murmur c x"
  note step = distinct_bump_room [of c murmur x, folded r_def]
  have d: "distinct ?ps" and w: "wf_cbf c" using Cons.prems by auto
  note ip = item_positions_ok [OF w, where murmur = murmur and x = x]
  have snd_r: "wf_cbf (snd r)" "\<And>y. item_positions murmur (snd r) y = item_positions murmur c y"
    using step(2) [OF w d] w by simp_all
  then have IH: "BatchAdd murmur (snd r) items =
    (case batch_spec murmur (snd r) items of (oks, c') \<Rightarrow>
       Inr (int (count_list oks True), int (count_list oks False),
            map (\<lambda>ok. if ok then '''' else bloom_error_message ErrCounterOverflow) oks, c'))"
    using Cons.prems by (intro Cons.IH) auto
  have spec: "batch_spec murmur c (x # items) =
      (case batch_spec murmur (snd r) items of (oks, c') \<Rightarrow> (fst r # oks, c'))"
    by (simp add: r_def split: prod.splits)
  show ?case
    using step [OF w d] IH
    by (cases "fst r") (simp_all add: spec ip(1,3) increment_loop_ok split: prod.splits del: batch_spec.simps)
qed simp

theorem BatchAdd_sequential_witness:
  "BatchAdd (\<lambda>_. 3) \<lparr>cbf_m = 4, cbf_k = 2, counters = [254, 0, 0, 0]\<rparr> [[1], [2]] =
     Inr (1, 1, ['''', ''counter overflow: maximum value 255 reached''],
       \<lparr>cbf_m = 4, cbf_k = 2, counters = [255, 0, 0, 1]\<rparr>)"
proof -
  let ?c = "\<lparr>cbf_m = 4, cbf_k = 2, counters = [254, 0, 0, 0]\<rparr>"
  have w: "wf_cbf ?c" by code_simp
  have d: "\<forall>x \<in> set [[1], [2]]. distinct (item_positions (\<lambda>_. 3) ?c x)" by code_simp
  have "batch_spec (\<lambda>_. 3) ?c [[1], [2]] = ([True, False], \<lparr>cbf_m = 4, cbf_k = 2, counters = [255, 0, 0, 1]\<rparr>)"
    by code_simp
  with BatchAdd_sequential [OF w d] show ?thesis by (simp add: bloom_error_message_def)
qed

text \<open>With a repeated position \<open>BatchAdd\<close> can wrap a counter: its check sees 254 twice and both
  increments follow, so the counter goes to 0, the batch reports success, and \<open>Contains\<close> denies the
  item just added.\<close>

theorem BatchAdd_wraps:
  "\<exists>murmur c item c'. wf_cbf c \<and> BatchAdd murmur c [item] = Inr (1, 0, [''''], c')
     \<and> Contains murmur c' item = Inr False"
proof (intro exI conjI)
  show "wf_cbf \<lparr>cbf_m = 2, cbf_k = 3, counters = [254, 0]\<rparr>" by code_simp
  show "BatchAdd (\<lambda>_. 2) \<lparr>cbf_m = 2, cbf_k = 3, counters = [254, 0]\<rparr> [[7]] =
      Inr (1, 0, [''''], \<lparr>cbf_m = 2, cbf_k = 3, counters = [0, 1]\<rparr>)" by code_simp
  show "Contains (\<lambda>_. 2) \<lparr>cbf_m = 2, cbf_k = 3, counters = [0, 1]\<rparr> [7] = Inr False" by code_simp
qed

text \<open>The other batch operations are the single ones in a row: \<open>BatchContains\<close> maps \<open>Contains\<close> over
  the items in order, and \<open>BatchRemove\<close> folds \<open>Remove\<close> over them and returns their number.\<close>

theorem Batch_Contains_Remove:
  assumes "wf_cbf c"
  shows "BatchContains murmur c items = Inr (map (\<lambda>x. fst (filter_contains murmur c x)) items)
    \<and> BatchRemove murmur c items = Inr (int (length items), foldl (filter_remove murmur) c items)"
proof
  show "BatchContains murmur c items = Inr (map (\<lambda>x. fst (filter_contains murmur c x)) items)"
    using assms
    by (induction items) (auto simp: filter_contains_def Contains_eq item_positions_ok contains_loop_ok)
  show "BatchRemove murmur c items = Inr (int (length items), foldl (filter_remove murmur) c items)"
    using assms
  proof (induction items arbitrary: c)
    case (Cons x items)
    let ?c = "c\<lparr>counters := drain (counters c) (item_positions murmur c x)\<rparr>"
    have "wf_cbf ?c" using Cons.prems by simp
    with Cons show ?case by (simp add: filter_remove_def Remove_eq item_positions_ok remove_loop_ok)
  qed simp
qed

theorem Batch_Contains_Remove_witness:
  "BatchRemove (\<lambda>_. 3) \<lparr>cbf_m = 4, cbf_k = 2, counters = [2, 0, 0, 1]\<rparr> [[1], [2]] =
     Inr (2, \<lparr>cbf_m = 4, cbf_k = 2, counters = [0, 0, 0, 0]\<rparr>)"
proof -
  let ?c = "\<lparr>cbf_m = 4, cbf_k = 2, counters = [2, 0, 0, 1]\<rparr>"
  have w: "wf_cbf ?c" by code_simp
  have "foldl (filter_remove (\<lambda>_. 3)) ?c [[1], [2]] = \<lparr>cbf_m = 4, cbf_k = 2, counters = [0, 0, 0, 0]\<rparr>"
    by code_simp
  with Batch_Contains_Remove [OF w, of "\<lambda>_. 3" "[[1], [2]]"] show ?thesis by simp
qed

section \<open>The serialized form\<close>

lemma uint_uint32_of_int: "0 \<le> x \<Longrightarrow> x < 2 ^ 32 \<Longrightarrow> uint (uint32_of_int x) = x"
  by (simp add: uint32_of_int_def unsigned_of_int take_bit_int_eq_self)

lemma uint32_of_uint: "uint32_of_int (uint w) = w"
  by (simp add: uint32_of_int_def)

lemma Serialize_length: "length (Serialize c) = length (counters c) + 12"
  by (simp add: Serialize_def Let_def)

lemma Deserialize_Serialize:
  assumes "serializable c"
  shows "Deserialize (Serialize c) = Inr c"
proof -
  let ?h = "be32 (uint32_of_int (cbf_m c))" and ?k = "be32 (uint32_of_int (cbf_k c))"
  let ?d = "?h @ ?k @ counters c"
  have m: "uint (uint32_of_int (cbf_m c)) = cbf_m c" and k: "uint (uint32_of_int (cbf_k c)) = cbf_k c"
    using assms by (auto simp: serializable_def MaxFilterSize_def MaxHashFunctions_def intro!: uint_uint32_of_int)
  have S: "Serialize c = ?h @ (?k @ (counters c @ be32 (crc32 ?d)))"
    by (simp add: Serialize_def Let_def)
  have len: "nat (cbf_m c) = length (counters c)" "nat (cbf_m c + 8) = length (counters c) + 8"
    using assms by (auto simp: serializable_def)
  show ?thesis using assms
    unfolding Deserialize_def S
    by (simp add: Let_def m k len serializable_def add.commute)
qed

lemma Deserialize_bad_length:
  "int (length d) \<noteq> 8 + uint (read32 (take 4 d)) + 4 \<Longrightarrow> Deserialize d = Inl ErrInvalidData"
  by (auto simp: Deserialize_def Let_def)

lemma Deserialize_too_big:
  "MaxFilterSize < uint (read32 (take 4 d)) \<Longrightarrow> Deserialize d = Inl ErrInvalidData"
  by (auto simp: Deserialize_def Let_def)

lemma Deserialize_sound:
  assumes "Deserialize d = Inr c"
  shows "serializable c \<and> Serialize c = d"
proof -
  define m where "m = read32 (take 4 d)"
  define k where "k = read32 (take 4 (drop 4 d))"
  define n where "n = nat (8 + uint m + 4 - 4)"
  from assms have il: "int (length d) = 8 + uint m + 4"
    and b: "uint m \<le> MaxFilterSize" "\<not> (uint k < 1 \<or> MaxHashFunctions < uint k)"
    and crc: "read32 (take 4 (drop n d)) = crc32 (take n d)"
    and c: "c = \<lparr>cbf_m = uint m, cbf_k = uint k, counters = take (nat (uint m)) (drop 8 d)\<rparr>"
    by (simp_all only: Deserialize_def Let_def m_def [symmetric] k_def [symmetric] n_def [symmetric]
      not_less not_le sum.inject sum.distinct simp_thms split: if_splits)
  have n: "n = 8 + unat m" by (simp add: n_def nat_add_distrib)
  have "int (unat m) = uint m" by simp
  with il have len: "length d = 12 + unat m" by linarith
  have ser: "serializable c" using len b by (auto simp: c serializable_def)
  have "12 \<le> length d" using len by simp
  then have h: "be32 m = take 4 d" "be32 k = take 4 (drop 4 d)"
    unfolding m_def k_def by (simp_all add: be32_read32)
  have "take (8 + unat m) d = take 8 d @ take (unat m) (drop 8 d)" by (rule take_add)
  moreover have "take (4 + 4) d = take 4 d @ take 4 (drop 4 d)" by (rule take_add)
  ultimately have "take 4 d @ take 4 (drop 4 d) @ take (unat m) (drop 8 d) = take n d"
    by (simp add: n)
  then have body: "be32 (uint32_of_int (cbf_m c)) @ be32 (uint32_of_int (cbf_k c)) @ counters c = take n d"
    by (simp add: c uint32_of_uint h)
  have "length (take 4 (drop n d)) = 4" using len by (simp add: n)
  then have "be32 (crc32 (take n d)) = take 4 (drop n d)"
    unfolding crc [symmetric] by (rule be32_read32)
  also have "\<dots> = drop n d" using len by (simp add: n)
  finally have "Serialize c = take n d @ drop n d" by (simp add: Serialize_def body Let_def)
  then show ?thesis using ser by simp
qed

interpretation filter_codec: codec serializable Serialize Deserialize
  by unfold_locales (simp_all add: Deserialize_Serialize Deserialize_sound)

text \<open>C11: the serialized form is exact. \<open>Deserialize\<close> accepts a byte string if and only if it is the
  serialization of a filter of admissible size and hash count, and then returns that filter.\<close>

theorem Deserialize_iff:
  "Deserialize d = Inr c \<longleftrightarrow> serializable c \<and> d = Serialize c"
  by (rule filter_codec.dec_iff)

text \<open>C12: every single-byte corruption is detected: if one byte of a serialized filter is changed, in
  the header, the counters or the checksum, \<open>Deserialize\<close> returns an error.\<close>

theorem Deserialize_detects_corruption:
  assumes "serializable c" and "p < length (Serialize c)" and "b \<noteq> Serialize c ! p"
  shows "\<exists>e. Deserialize ((Serialize c)[p := b]) = Inl e"
proof (cases "Deserialize ((Serialize c)[p := b])")
  case (Inr c')
  define body where "body f = be32 (uint32_of_int (cbf_m f)) @ be32 (uint32_of_int (cbf_k f)) @ counters f" for f :: CountingBloomFilter
  have S: "Serialize f = body f @ be32 (crc32 (body f))" for f
    by (simp add: Serialize_def body_def Let_def)
  from Deserialize_sound [OF Inr] have eq: "Serialize c' = (Serialize c)[p := b]" by simp
  then have "length (body c') = length (body c)" by (metis S add_right_cancel length_append length_be32 length_list_update)
  show ?thesis
  proof (cases "p < length (body c)")
    case True
    then have "(Serialize c)[p := b] = (body c)[p := b] @ be32 (crc32 (body c))"
      by (simp add: S list_update_append)
    with eq \<open>length (body c') = length (body c)\<close>
    have "body c' = (body c)[p := b]" and "crc32 (body c') = crc32 (body c)" by (auto simp: S [of c'])
    moreover have "b \<noteq> body c ! p" using assms(3) True by (simp add: S nth_append)
    ultimately show ?thesis using crc32_list_update [OF True] by metis
  next
    case False
    then have "(Serialize c)[p := b] = body c @ (be32 (crc32 (body c)))[p - length (body c) := b]"
      by (simp add: S list_update_append)
    with eq \<open>length (body c') = length (body c)\<close>
    have "body c' = body c" and "be32 (crc32 (body c')) = (be32 (crc32 (body c)))[p - length (body c) := b]"
      by (auto simp: S [of c'])
    then have "(be32 (crc32 (body c)))[p - length (body c) := b] = be32 (crc32 (body c))" by simp
    moreover have "p - length (body c) < length (be32 (crc32 (body c)))" using assms(2) False by (simp add: S)
    ultimately have "be32 (crc32 (body c)) ! (p - length (body c)) = b" by (metis nth_list_update_eq)
    then have False using assms(3) False by (simp add: S nth_append)
    then show ?thesis ..
  qed
qed simp

theorem Deserialize_detects_corruption_witness:
  "\<exists>e. Deserialize ((Serialize \<lparr>cbf_m = 2, cbf_k = 1, counters = [3, 0]\<rparr>)[3 := 1]) = Inl e"
  by (rule Deserialize_detects_corruption)
    (simp_all add: serializable_def MaxFilterSize_def MaxHashFunctions_def Serialize_def Let_def be32_def
      uint32_of_int_def nth_append)

text \<open>\<open>Deserialize\<close> bounds the size and the number of hash functions but not from below by two: it
  accepts a filter of size one, and then every later \<open>Add\<close>, \<open>Remove\<close> and \<open>Contains\<close> on it panics with
  a division by zero.\<close>

theorem Deserialize_accepts_unusable:
  "\<exists>c. Deserialize (Serialize c) = Inr c \<and> (\<forall>murmur x. Add murmur c x = Inl DivideByZero
     \<and> Remove murmur c x = Inl DivideByZero \<and> Contains murmur c x = Inl DivideByZero)"
proof (intro exI conjI allI)
  let ?c = "\<lparr>cbf_m = 1, cbf_k = 1, counters = [0]\<rparr>"
  show "Deserialize (Serialize ?c) = Inr ?c"
    by (rule Deserialize_Serialize) (simp add: serializable_def MaxFilterSize_def MaxHashFunctions_def)
  show "Add murmur ?c x = Inl DivideByZero" "Remove murmur ?c x = Inl DivideByZero"
    "Contains murmur ?c x = Inl DivideByZero" for murmur x
    by (simp_all add: Add_def Remove_def Contains_def getHashIndices_m_one)
qed

end
