(* ===== verification/Bloom_Cache.thy ===== *)
theory Bloom_Cache
  imports Bloom_Counting "HOL-Library.AList"
begin

text \<open>
  \<open>src/pkg/bloom/cache.go\<close>: the LRU cache of index lists and the filter that consults it. The Go
  map is an association list (its order is never observed), the recency list has the least recently
  used key first, \<open>time.Now()\<close> is the argument \<open>now\<close>. The interface \<open>memo_cache\<close> is what the filter
  needs of the cache; it is interpreted on \<open>IndexCache\<close>.
\<close>

section \<open>The cache\<close>

record CacheEntry =
  ce_indices :: "int list"
  ce_timestamp :: int
  ce_hits :: u64

record IndexCache =
  ic_capacity :: int
  ic_cache :: "(string \<times> CacheEntry) list"
  ic_lru :: "string list"

definition NewIndexCache :: "int \<Rightarrow> panic + IndexCache" where
  "NewIndexCache capacity =
     (if capacity < 0 then Inl MakeSliceLen
      else Inr \<lparr>ic_capacity = capacity, ic_cache = [], ic_lru = []\<rparr>)"

fun removeFromLRU :: "string \<Rightarrow> string list \<Rightarrow> string list" where
  "removeFromLRU key [] = []"
| "removeFromLRU key (k # ks) = (if k = key then ks else k # removeFromLRU key ks)"

definition moveToFront :: "IndexCache \<Rightarrow> string \<Rightarrow> IndexCache" where
  "moveToFront c key = c\<lparr>ic_lru := removeFromLRU key (ic_lru c) @ [key]\<rparr>"

definition evictOldest :: "IndexCache \<Rightarrow> IndexCache" where
  "evictOldest c = (case ic_lru c of
      [] \<Rightarrow> c
    | oldest # rest \<Rightarrow> c\<lparr>ic_cache := AList.delete oldest (ic_cache c), ic_lru := rest\<rparr>)"

definition cache_Get :: "int \<Rightarrow> IndexCache \<Rightarrow> string \<Rightarrow> int list option \<times> IndexCache" where
  "cache_Get now c key = (case map_of (ic_cache c) key of
      None \<Rightarrow> (None, c)
    | Some entry \<Rightarrow>
        let entry' = entry\<lparr>ce_hits := ce_hits entry + 1, ce_timestamp := now\<rparr>;
            c1 = c\<lparr>ic_cache := AList.update key entry' (ic_cache c)\<rparr>
        in (Some (ce_indices entry), moveToFront c1 key))"

definition cache_Put :: "int \<Rightarrow> IndexCache \<Rightarrow> string \<Rightarrow> int list \<Rightarrow> IndexCache" where
  "cache_Put now c key indices = (case map_of (ic_cache c) key of
      Some entry \<Rightarrow>
        let entry' = entry\<lparr>ce_indices := indices, ce_timestamp := now, ce_hits := ce_hits entry + 1\<rparr>
        in moveToFront (c\<lparr>ic_cache := AList.update key entry' (ic_cache c)\<rparr>) key
    | None \<Rightarrow>
        let c1 = (if ic_capacity c \<le> int (length (ic_cache c)) then evictOldest c else c)
        in c1\<lparr>ic_cache := AList.update key \<lparr>ce_indices = indices, ce_timestamp = now, ce_hits = 0\<rparr> (ic_cache c1),
              ic_lru := ic_lru c1 @ [key]\<rparr>)"

definition cache_Remove :: "IndexCache \<Rightarrow> string \<Rightarrow> IndexCache" where
  "cache_Remove c key = (case map_of (ic_cache c) key of
      None \<Rightarrow> c
    | Some _ \<Rightarrow> c\<lparr>ic_cache := AList.delete key (ic_cache c), ic_lru := removeFromLRU key (ic_lru c)\<rparr>)"

definition cache_Clear :: "IndexCache \<Rightarrow> IndexCache" where
  "cache_Clear c = c\<lparr>ic_cache := [], ic_lru := []\<rparr>"

definition cache_Stats :: "IndexCache \<Rightarrow> int \<times> int" where
  "cache_Stats c = (int (length (ic_cache c)), ic_capacity c)"

section \<open>The filter with a cache\<close>

record CountingBloomFilterWithCache =
  wc_filter :: CountingBloomFilter
  wc_cache :: IndexCache

definition NewCountingBloomFilterWithCache ::
  "int \<Rightarrow> int \<Rightarrow> int \<Rightarrow> panic + CountingBloomFilterWithCache" where
  "NewCountingBloomFilterWithCache m k cacheSize =
     go_bind (NewCountingBloomFilter m k) (\<lambda>f.
     go_bind (NewIndexCache cacheSize) (\<lambda>c. Inr \<lparr>wc_filter = f, wc_cache = c\<rparr>))"

text \<open>\<open>Get indices from cache or compute\<close>, the common start of \<open>Add\<close> and \<open>Contains\<close>.\<close>

definition cached_indices ::
  "(bytes \<Rightarrow> u32) \<Rightarrow> int \<Rightarrow> CountingBloomFilterWithCache \<Rightarrow> bytes \<Rightarrow> panic + (int list \<times> IndexCache)" where
  "cached_indices murmur now s item =
     (let key = string_of_bytes item in
      case cache_Get now (wc_cache s) key of
        (Some indices, c) \<Rightarrow> Inr (indices, c)
      | (None, c) \<Rightarrow>
          go_bind (getHashIndices murmur item (cbf_m (wc_filter s)) (cbf_k (wc_filter s))) (\<lambda>indices.
            Inr (indices, cache_Put now c key indices)))"

definition WithCache_Add ::
  "(bytes \<Rightarrow> u32) \<Rightarrow> int \<Rightarrow> CountingBloomFilterWithCache \<Rightarrow> bytes
    \<Rightarrow> panic + (bloom_error option \<times> CountingBloomFilterWithCache)" where
  "WithCache_Add murmur now s item =
     go_bind (cached_indices murmur now s item) (\<lambda>(indices, c).
     go_bind (add_loop (counters (wc_filter s)) indices) (\<lambda>(err, cs).
       Inr (err, \<lparr>wc_filter = (wc_filter s)\<lparr>counters := cs\<rparr>, wc_cache = c\<rparr>)))"

definition WithCache_Contains ::
  "(bytes \<Rightarrow> u32) \<Rightarrow> int \<Rightarrow> CountingBloomFilterWithCache \<Rightarrow> bytes
    \<Rightarrow> panic + (bool \<times> CountingBloomFilterWithCache)" where
  "WithCache_Contains murmur now s item =
     go_bind (cached_indices murmur now s item) (\<lambda>(indices, c).
     go_bind (contains_loop (counters (wc_filter s)) indices) (\<lambda>found.
       Inr (found, s\<lparr>wc_cache := c\<rparr>)))"

definition WithCache_Remove ::
  "(bytes \<Rightarrow> u32) \<Rightarrow> CountingBloomFilterWithCache \<Rightarrow> bytes \<Rightarrow> panic + CountingBloomFilterWithCache" where
  "WithCache_Remove murmur s item =
     (let c = cache_Remove (wc_cache s) (string_of_bytes item)
      in go_bind (Remove murmur (wc_filter s) item) (\<lambda>f. Inr \<lparr>wc_filter = f, wc_cache = c\<rparr>))"

definition WithCache_Cache :: "CountingBloomFilterWithCache \<Rightarrow> IndexCache" where
  "WithCache_Cache s = wc_cache s"

section \<open>Invariant, contents and specification\<close>

text \<open>The recency list and the map have the same keys, each once.\<close>

definition cache_inv :: "IndexCache \<Rightarrow> bool" where
  "cache_inv c \<longleftrightarrow> distinct (map fst (ic_cache c)) \<and> distinct (ic_lru c)
     \<and> set (ic_lru c) = fst ` set (ic_cache c)"

definition contents :: "IndexCache \<Rightarrow> string \<Rightarrow> int list option" where
  "contents c key = map_option ce_indices (map_of (ic_cache c) key)"

text \<open>The abstract LRU cache: the entries in order of last use, the most recent one last.\<close>

definition lru_view :: "IndexCache \<Rightarrow> (string \<times> int list) list" where
  "lru_view c = map (\<lambda>k. (k, the (contents c k))) (ic_lru c)"

definition lru_get :: "string \<Rightarrow> (string \<times> int list) list \<Rightarrow> (string \<times> int list) list" where
  "lru_get k xs = filter (\<lambda>(k', _). k' \<noteq> k) xs @ filter (\<lambda>(k', _). k' = k) xs"

definition lru_put ::
  "int \<Rightarrow> string \<Rightarrow> int list \<Rightarrow> (string \<times> int list) list \<Rightarrow> (string \<times> int list) list" where
  "lru_put capacity k v xs =
     (if k \<in> fst ` set xs then filter (\<lambda>(k', _). k' \<noteq> k) xs @ [(k, v)]
      else (if capacity \<le> int (length xs) then tl xs else xs) @ [(k, v)])"

text \<open>Operations of the cached filter as the membership interface sees them.\<close>

definition cached_add where
  "cached_add murmur now s x = (case WithCache_Add murmur now s x of
      Inl _ \<Rightarrow> (False, s) | Inr (err, s') \<Rightarrow> (err = None, s'))"

definition cached_remove where
  "cached_remove murmur s x = (case WithCache_Remove murmur s x of Inl _ \<Rightarrow> s | Inr s' \<Rightarrow> s')"

definition cached_contains where
  "cached_contains murmur now s x = (case WithCache_Contains murmur now s x of
      Inl _ \<Rightarrow> (False, s) | Inr r \<Rightarrow> r)"

text \<open>Every cached index list is the one the hashing computes.\<close>

definition coherent :: "(bytes \<Rightarrow> u32) \<Rightarrow> CountingBloomFilterWithCache \<Rightarrow> bool" where
  "coherent murmur s \<longleftrightarrow> cache_inv (wc_cache s) \<and>
     (\<forall>key v. contents (wc_cache s) key = Some v \<longrightarrow>
        getHashIndices murmur (bytes_of_string key) (cbf_m (wc_filter s)) (cbf_k (wc_filter s)) = Inr v)"

section \<open>What a client needs of a cache\<close>

locale memo_cache =
  fixes inv :: "'c \<Rightarrow> bool"
    and look :: "'c \<Rightarrow> 'k \<Rightarrow> 'v option"
    and get :: "'c \<Rightarrow> 'k \<Rightarrow> 'v option \<times> 'c"
    and put :: "'c \<Rightarrow> 'k \<Rightarrow> 'v \<Rightarrow> 'c"
    and rem :: "'c \<Rightarrow> 'k \<Rightarrow> 'c"
  assumes get_look: "inv c \<Longrightarrow> fst (get c k) = look c k"
    and get_keeps: "inv c \<Longrightarrow> look (snd (get c k)) = look c"
    and get_inv: "inv c \<Longrightarrow> inv (snd (get c k))"
    and put_same: "inv c \<Longrightarrow> look (put c k v) k = Some v"
    and put_other: "inv c \<Longrightarrow> k' \<noteq> k \<Longrightarrow> look (put c k v) k' = Some w \<Longrightarrow> look c k' = Some w"
    and put_inv: "inv c \<Longrightarrow> inv (put c k v)"
    and rem_look: "inv c \<Longrightarrow> look (rem c k) k' = (if k' = k then None else look c k')"
    and rem_inv: "inv c \<Longrightarrow> inv (rem c k)"
begin

text \<open>A cache agrees with a partial function if it holds only values of it. Filling it on a miss
  keeps the agreement, and the value used is the function's.\<close>

lemma agree_get:
  "inv c \<Longrightarrow> look c \<subseteq>\<^sub>m f \<Longrightarrow> inv (snd (get c k)) \<and> look (snd (get c k)) \<subseteq>\<^sub>m f
     \<and> (fst (get c k) = None \<or> fst (get c k) = f k)"
  using get_look [of c k] get_keeps [of c k] get_inv [of c k]
  by (cases "look c k") (auto simp: map_le_def, metis domI)

lemma agree_put:
  assumes "inv c" and "look c \<subseteq>\<^sub>m f" and "f k = Some v"
  shows "inv (put c k v) \<and> look (put c k v) \<subseteq>\<^sub>m f"
proof -
  have "look (put c k v) k' = f k'" if "k' \<in> dom (look (put c k v))" for k'
  proof (cases "k' = k")
    case True
    then show ?thesis using assms put_same by simp
  next
    case False
    with that obtain w where "look (put c k v) k' = Some w" by auto
    with put_other [OF assms(1) False] assms(2) show ?thesis by (metis domI map_le_def)
  qed
  with put_inv [OF assms(1)] show ?thesis by (simp add: map_le_def)
qed

lemma agree_rem: "inv c \<Longrightarrow> look c \<subseteq>\<^sub>m f \<Longrightarrow> inv (rem c k) \<and> look (rem c k) \<subseteq>\<^sub>m f"
  using rem_look [of c k] rem_inv [of c k] by (auto simp: map_le_def domIff split: if_splits)

end

section \<open>The cache keeps its invariant and refines the LRU specification\<close>

lemma removeFromLRU_remove1: "removeFromLRU key ks = remove1 key ks"
  by (induction ks) auto

lemma cache_inv_dom: "cache_inv c \<Longrightarrow> k \<in> set (ic_lru c) \<longleftrightarrow> map_of (ic_cache c) k \<noteq> None"
  by (auto simp: cache_inv_def map_of_eq_None_iff)

lemma cache_inv_length: "cache_inv c \<Longrightarrow> length (ic_cache c) = length (ic_lru c)"
  unfolding cache_inv_def by (metis distinct_card length_map set_map)

lemma map_of_update [simp]: "map_of (AList.update k v al) = (map_of al)(k \<mapsto> v)"
  by (rule ext) (simp add: update_conv)

lemma fst_update [simp]: "fst ` set (AList.update k v al) = insert k (fst ` set al)"
  by (simp add: dom_update)

lemma fst_delete [simp]: "fst ` set (AList.delete k al) = fst ` set al - {k}"
  by (metis delete_keys set_map set_removeAll)

lemma moveToFront_inv:
  assumes "cache_inv c" and "k \<in> set (ic_lru c)"
  shows "cache_inv (moveToFront (c\<lparr>ic_cache := AList.update k e (ic_cache c)\<rparr>) k)"
  using assms by (auto simp: cache_inv_def moveToFront_def removeFromLRU_remove1 distinct_update)

lemma evictOldest_inv:
  assumes "cache_inv c"
  shows "cache_inv (evictOldest c)"
    and "ic_lru (evictOldest c) = tl (ic_lru c)"
    and "contents (evictOldest c) k = (if ic_lru c \<noteq> [] \<and> k = hd (ic_lru c) then None else contents c k)"
    and "ic_capacity (evictOldest c) = ic_capacity c"
  using assms
  by (cases "ic_lru c"; auto simp: evictOldest_def cache_inv_def contents_def delete_conv distinct_delete)+

lemma cache_Get_inv: "cache_inv c \<Longrightarrow> cache_inv (snd (cache_Get now c k))"
  using moveToFront_inv [of c k] cache_inv_dom [of c k]
  by (auto simp: cache_Get_def Let_def split: option.splits)

lemma cache_Put_inv: "cache_inv c \<Longrightarrow> cache_inv (cache_Put now c k v)"
proof (cases "map_of (ic_cache c) k")
  case None
  assume c: "cache_inv c"
  define c1 where "c1 = (if ic_capacity c \<le> int (length (ic_cache c)) then evictOldest c else c)"
  have c1: "cache_inv c1" using c evictOldest_inv(1) by (simp add: c1_def)
  have "contents c1 k = None"
    using None evictOldest_inv(3) [OF c, of k] by (simp add: c1_def contents_def split: if_splits)
  then have "k \<notin> set (ic_lru c1)" using cache_inv_dom [OF c1] by (simp add: contents_def)
  then show ?thesis using c1 None
    by (auto simp: cache_Put_def Let_def c1_def [symmetric] cache_inv_def distinct_update)
next
  case (Some e)
  assume c: "cache_inv c"
  then have "k \<in> set (ic_lru c)" using Some by (simp add: cache_inv_dom)
  with moveToFront_inv [OF c] Some show ?thesis by (simp add: cache_Put_def Let_def)
qed

lemma cache_Remove_inv: "cache_inv c \<Longrightarrow> cache_inv (cache_Remove c k)"
  by (auto simp: cache_Remove_def cache_inv_def removeFromLRU_remove1 distinct_delete
    split: option.splits)

lemma contents_Get: "contents (snd (cache_Get now c k)) = contents c" "fst (cache_Get now c k) = contents c k"
  by (auto simp: cache_Get_def contents_def moveToFront_def Let_def split: option.splits)

lemma contents_Put:
  assumes "cache_inv c"
  shows "contents (cache_Put now c k v) = (\<lambda>k'. if k' = k then Some v
     else if contents c k = None \<and> ic_capacity c \<le> int (length (ic_lru c)) \<and> ic_lru c \<noteq> [] \<and> k' = hd (ic_lru c)
     then None else contents c k')"
proof (cases "map_of (ic_cache c) k")
  case None
  define c1 where "c1 = (if ic_capacity c \<le> int (length (ic_cache c)) then evictOldest c else c)"
  have "contents (cache_Put now c k v) = (contents c1)(k \<mapsto> v)"
    using None by (auto simp: cache_Put_def Let_def c1_def [symmetric] contents_def)
  moreover have "contents c1 k' = (if ic_capacity c \<le> int (length (ic_lru c)) \<and> ic_lru c \<noteq> [] \<and> k' = hd (ic_lru c)
      then None else contents c k')" for k'
    using evictOldest_inv(3) [OF assms] by (simp add: c1_def cache_inv_length [OF assms])
  ultimately show ?thesis using None by (auto simp: contents_def)
next
  case (Some e)
  then show ?thesis by (auto simp: cache_Put_def Let_def contents_def moveToFront_def)
qed

lemma contents_Remove: "contents (cache_Remove c k) k' = (if k' = k then None else contents c k')"
  by (auto simp: cache_Remove_def contents_def delete_conv split: option.splits)

interpretation index_cache: memo_cache cache_inv contents "cache_Get now" "cache_Put now" cache_Remove for now
  by unfold_locales
    (auto simp: contents_Get contents_Put contents_Remove cache_Get_inv cache_Put_inv cache_Remove_inv
      split: if_splits)

section \<open>Properties\<close>

lemma filter_neq_distinct: "distinct ks \<Longrightarrow> filter (\<lambda>k'. k' \<noteq> k) ks = remove1 k ks"
  by (induction ks) (auto simp: filter_id_conv)

lemma filter_eq_distinct: "distinct ks \<Longrightarrow> filter (\<lambda>k'. k' = k) ks = (if k \<in> set ks then [k] else [])"
  by (induction ks) (auto simp: filter_empty_conv)

lemma lru_view_filters:
  assumes "cache_inv c"
  shows "filter (\<lambda>(k', _). k' \<noteq> k) (lru_view c) = map (\<lambda>k'. (k', the (contents c k'))) (remove1 k (ic_lru c))"
    and "filter (\<lambda>(k', _). k' = k) (lru_view c) = (if k \<in> set (ic_lru c) then [(k, the (contents c k))] else [])"
  using assms filter_neq_distinct [of "ic_lru c" k] filter_eq_distinct [of "ic_lru c" k]
  by (simp_all add: lru_view_def filter_map o_def cache_inv_def)

lemma lru_Get:
  "cache_inv c \<Longrightarrow> ic_lru (snd (cache_Get now c k)) = (if k \<in> set (ic_lru c) then remove1 k (ic_lru c) @ [k] else ic_lru c)"
  using cache_inv_dom [of c k]
  by (auto simp: cache_Get_def moveToFront_def removeFromLRU_remove1 Let_def split: option.splits)

lemma lru_Put:
  "cache_inv c \<Longrightarrow> ic_lru (cache_Put now c k v) = (if k \<in> set (ic_lru c) then remove1 k (ic_lru c) @ [k]
     else (if ic_capacity c \<le> int (length (ic_lru c)) then tl (ic_lru c) else ic_lru c) @ [k])"
  using cache_inv_dom [of c k] evictOldest_inv(2) [of c]
  by (auto simp: cache_Put_def moveToFront_def removeFromLRU_remove1 Let_def cache_inv_length split: option.splits)

lemma lru_view_keys: "fst ` set (lru_view c) = set (ic_lru c)"
  by (force simp: lru_view_def)

text \<open>C25: the cache is an LRU cache. With the entries listed in order of last use, \<open>Get\<close> returns the
  entry's indices and moves it to the most recent end, and \<open>Put\<close> replaces and moves an existing entry,
  or evicts exactly the least recently used one when the cache is full and appends the new one.\<close>

theorem cache_refines_lru:
  assumes "cache_inv c"
  shows "fst (cache_Get now c k) = map_of (lru_view c) k
    \<and> lru_view (snd (cache_Get now c k)) = lru_get k (lru_view c)
    \<and> lru_view (cache_Put now c k v) = lru_put (ic_capacity c) k v (lru_view c)"
proof (intro conjI)
  have dom: "k' \<in> set (ic_lru c) \<longleftrightarrow> contents c k' \<noteq> None" for k'
    using cache_inv_dom [OF assms] by (simp add: contents_def)
  have dl: "distinct (ic_lru c)" using assms by (simp add: cache_inv_def)
  have "map_of (lru_view c) k = (if k \<in> set (ic_lru c) then Some (the (contents c k)) else None)"
    by (simp add: lru_view_def map_of_map_restrict restrict_map_def)
  then show "fst (cache_Get now c k) = map_of (lru_view c) k"
    using dom [of k] by (auto simp: contents_Get)
  show "lru_view (snd (cache_Get now c k)) = lru_get k (lru_view c)"
    using dl unfolding lru_get_def lru_view_filters [OF assms]
    by (simp add: lru_view_def lru_Get [OF assms] contents_Get remove1_idem)
  have put: "lru_view (cache_Put now c k v) =
      map (\<lambda>k'. (k', the (contents (cache_Put now c k v) k'))) (ic_lru (cache_Put now c k v))"
    by (simp add: lru_view_def)
  show "lru_view (cache_Put now c k v) = lru_put (ic_capacity c) k v (lru_view c)"
  proof (cases "k \<in> set (ic_lru c)")
    case True
    then obtain w where "contents c k = Some w" using dom by auto
    then show ?thesis using True dl lru_view_filters(1) [OF assms, of k]
      by (simp add: put lru_put_def lru_view_keys lru_Put [OF assms] contents_Put [OF assms])
  next
    case False
    then show ?thesis using dl dom [of k]
      by (cases "ic_lru c") (auto simp: put lru_put_def lru_view_keys lru_Put [OF assms] contents_Put [OF assms],
        auto simp: lru_view_def)
  qed
qed

theorem cache_refines_lru_witness:
  "map fst (lru_view (cache_Put 9 \<lparr>ic_capacity = 2, ic_cache = [(''a'', \<lparr>ce_indices = [1], ce_timestamp = 0, ce_hits = 0\<rparr>),
       (''b'', \<lparr>ce_indices = [2], ce_timestamp = 0, ce_hits = 0\<rparr>)], ic_lru = [''b'', ''a'']\<rparr> ''c'' [3])) = [''a'', ''c'']"
proof -
  let ?c = "\<lparr>ic_capacity = 2, ic_cache = [(''a'', \<lparr>ce_indices = [1], ce_timestamp = 0, ce_hits = 0\<rparr>),
       (''b'', \<lparr>ce_indices = [2], ce_timestamp = 0, ce_hits = 0\<rparr>)], ic_lru = [''b'', ''a'']\<rparr>"
  have inv: "cache_inv ?c" by (auto simp: cache_inv_def)
  from cache_refines_lru [OF inv, of 9 "''c''" "[3]"]
  show ?thesis by (simp add: lru_put_def lru_view_def)
qed

text \<open>The cache never outgrows its capacity (one entry for capacity 0), and its recency list and its
  map have the same keys, each once, after any \<open>Get\<close>, \<open>Put\<close>, \<open>Remove\<close> or \<open>Clear\<close>.\<close>

theorem cache_bounded:
  assumes "cache_inv c" and "int (length (ic_cache c)) \<le> max 1 (ic_capacity c)"
    and "c' \<in> {snd (cache_Get now c k), cache_Put now c k v, cache_Remove c k, cache_Clear c}"
  shows "cache_inv c' \<and> fst (cache_Stats c') \<le> max 1 (snd (cache_Stats c'))"
proof -
  have cap: "ic_capacity (snd (cache_Get now c k)) = ic_capacity c" "ic_capacity (cache_Put now c k v) = ic_capacity c"
    "ic_capacity (cache_Remove c k) = ic_capacity c" "ic_capacity (cache_Clear c) = ic_capacity c"
    using evictOldest_inv(4) [OF assms(1)]
    by (auto simp: cache_Get_def cache_Put_def cache_Remove_def cache_Clear_def moveToFront_def Let_def split: option.splits)
  have "cache_inv (cache_Clear c)" by (simp add: cache_Clear_def cache_inv_def)
  then have inv: "cache_inv c'"
    using assms(1,3) cache_Get_inv cache_Put_inv cache_Remove_inv by blast
  have len: "length (ic_cache c) = length (ic_lru c)" by (rule cache_inv_length [OF assms(1)])
  have "int (length (ic_lru c')) \<le> max 1 (ic_capacity c)"
    using assms len
    by (auto simp: lru_Get lru_Put cache_Remove_def cache_Clear_def removeFromLRU_remove1 length_remove1
      split: option.splits)
  then show ?thesis using inv assms(3) cap by (auto simp: cache_Stats_def cache_inv_length)
qed

theorem cache_bounded_witness:
  "fst (cache_Stats (cache_Put 9 \<lparr>ic_capacity = 1, ic_cache = [(''a'', \<lparr>ce_indices = [1], ce_timestamp = 0, ce_hits = 0\<rparr>)],
      ic_lru = [''a'']\<rparr> ''c'' [3])) \<le> max 1 (snd (cache_Stats (cache_Put 9 \<lparr>ic_capacity = 1,
      ic_cache = [(''a'', \<lparr>ce_indices = [1], ce_timestamp = 0, ce_hits = 0\<rparr>)], ic_lru = [''a'']\<rparr> ''c'' [3])))"
proof -
  let ?c = "\<lparr>ic_capacity = 1, ic_cache = [(''a'', \<lparr>ce_indices = [1], ce_timestamp = 0, ce_hits = 0\<rparr>)], ic_lru = [''a'']\<rparr>"
  have "cache_inv ?c" "int (length (ic_cache ?c)) \<le> max 1 (ic_capacity ?c)" by (simp_all add: cache_inv_def)
  from cache_bounded [OF this, of "cache_Put 9 ?c ''c'' [3]" 9 "''c''" "[3]"] show ?thesis by simp
qed

text \<open>The partial function a coherent cache agrees with.\<close>

lemma coherent_alt:
  "coherent murmur s \<longleftrightarrow> cache_inv (wc_cache s) \<and> contents (wc_cache s) \<subseteq>\<^sub>m
     (\<lambda>key. case getHashIndices murmur (bytes_of_string key) (cbf_m (wc_filter s)) (cbf_k (wc_filter s)) of
        Inl _ \<Rightarrow> None | Inr v \<Rightarrow> Some v)"
  (is "_ \<longleftrightarrow> _ \<and> _ \<subseteq>\<^sub>m ?f")
proof -
  have "?f key = Some v \<longleftrightarrow>
      getHashIndices murmur (bytes_of_string key) (cbf_m (wc_filter s)) (cbf_k (wc_filter s)) = Inr v" for key v
    by (auto split: sum.splits)
  moreover have "contents (wc_cache s) \<subseteq>\<^sub>m ?f \<longleftrightarrow> (\<forall>key v. contents (wc_cache s) key = Some v \<longrightarrow> ?f key = Some v)"
    unfolding map_le_def by (simp add: Ball_def dom_def) (metis (lifting))
  ultimately show ?thesis by (simp add: coherent_def)
qed

lemma cached_indices_eq:
  assumes "coherent murmur s"
  shows "\<exists>c. coherent murmur (s\<lparr>wc_cache := c\<rparr>) \<and> cached_indices murmur now s item =
     go_bind (getHashIndices murmur item (cbf_m (wc_filter s)) (cbf_k (wc_filter s))) (\<lambda>v. Inr (v, c))"
proof -
  let ?f = "\<lambda>key. case getHashIndices murmur (bytes_of_string key) (cbf_m (wc_filter s)) (cbf_k (wc_filter s)) of
        Inl _ \<Rightarrow> None | Inr v \<Rightarrow> Some v"
  let ?key = "string_of_bytes item" and ?h = "getHashIndices murmur item (cbf_m (wc_filter s)) (cbf_k (wc_filter s))"
  obtain r c where g: "cache_Get now (wc_cache s) ?key = (r, c)" by (cases "cache_Get now (wc_cache s) ?key")
  have a: "cache_inv c" "contents c \<subseteq>\<^sub>m ?f" "r = None \<or> r = ?f ?key"
    using index_cache.agree_get [of "wc_cache s" ?f now ?key] assms g by (auto simp: coherent_alt)
  have coh: "coherent murmur (s\<lparr>wc_cache := d\<rparr>)" if "cache_inv d" "contents d \<subseteq>\<^sub>m ?f" for d
    using that by (simp add: coherent_alt)
  show ?thesis
  proof (cases r)
    case (Some v)
    with a(3) have "?h = Inr v" by (simp split: sum.splits)
    with Some g coh a show ?thesis by (intro exI [of _ c]) (simp add: cached_indices_def)
  next
    case None
    show ?thesis
    proof (cases ?h)
      case (Inl p)
      with None g coh a show ?thesis by (intro exI [of _ c]) (simp add: cached_indices_def)
    next
      case (Inr v)
      then have "?f ?key = Some v" by simp
      from index_cache.agree_put [OF a(1,2) this] None Inr g coh show ?thesis
        by (intro exI [of _ "cache_Put now c ?key v"]) (simp add: cached_indices_def)
    qed
  qed
qed

lemma cached_Add_sim:
  assumes "coherent murmur s"
  shows "case WithCache_Add murmur now s x of
        Inl p \<Rightarrow> Add murmur (wc_filter s) x = Inl p
      | Inr (err, s') \<Rightarrow> Add murmur (wc_filter s) x = Inr (err, wc_filter s') \<and> coherent murmur s'"
proof -
  let ?h = "getHashIndices murmur x (cbf_m (wc_filter s)) (cbf_k (wc_filter s))"
  obtain c where c: "coherent murmur (s\<lparr>wc_cache := c\<rparr>)"
      "cached_indices murmur now s x = go_bind ?h (\<lambda>v. Inr (v, c))"
    using cached_indices_eq [OF assms] by metis
  have coh: "coherent murmur \<lparr>wc_filter = (wc_filter s)\<lparr>counters := cs\<rparr>, wc_cache = c\<rparr>" for cs
    using c(1) by (simp add: coherent_def)
  show ?thesis
  proof (cases ?h)
    case (Inr v)
    then show ?thesis
      by (cases "add_loop (counters (wc_filter s)) v") (auto simp: WithCache_Add_def Add_def c(2) coh)
  qed (simp add: WithCache_Add_def Add_def c(2))
qed

lemma cached_Contains_sim:
  assumes "coherent murmur s"
  shows "case WithCache_Contains murmur now s x of
        Inl p \<Rightarrow> Contains murmur (wc_filter s) x = Inl p
      | Inr (b, s') \<Rightarrow> Contains murmur (wc_filter s) x = Inr b \<and> wc_filter s' = wc_filter s \<and> coherent murmur s'"
proof -
  let ?h = "getHashIndices murmur x (cbf_m (wc_filter s)) (cbf_k (wc_filter s))"
  obtain c where c: "coherent murmur (s\<lparr>wc_cache := c\<rparr>)"
      "cached_indices murmur now s x = go_bind ?h (\<lambda>v. Inr (v, c))"
    using cached_indices_eq [OF assms] by metis
  show ?thesis
  proof (cases ?h)
    case (Inr v)
    then show ?thesis
      by (cases "contains_loop (counters (wc_filter s)) v") (auto simp: WithCache_Contains_def Contains_def c)
  qed (simp add: WithCache_Contains_def Contains_def c(2))
qed

lemma cached_Remove_sim:
  assumes "coherent murmur s"
  shows "case WithCache_Remove murmur s x of
        Inl p \<Rightarrow> Remove murmur (wc_filter s) x = Inl p
      | Inr s' \<Rightarrow> Remove murmur (wc_filter s) x = Inr (wc_filter s') \<and> coherent murmur s'"
proof -
  let ?c = "cache_Remove (wc_cache s) (string_of_bytes x)"
  have "cache_inv ?c" using assms by (simp add: coherent_def cache_Remove_inv)
  then have coh: "coherent murmur \<lparr>wc_filter = f, wc_cache = ?c\<rparr>"
    if "cbf_m f = cbf_m (wc_filter s)" "cbf_k f = cbf_k (wc_filter s)" for f
    using assms that by (simp add: coherent_def contents_Remove)
  have "cbf_m f = cbf_m (wc_filter s) \<and> cbf_k f = cbf_k (wc_filter s)" if "Remove murmur (wc_filter s) x = Inr f" for f
    using that by (auto simp: Remove_def dest!: go_bind_eq_InrD)
  then show ?thesis
    by (cases "Remove murmur (wc_filter s) x") (auto simp: WithCache_Remove_def coh)
qed

lemma cached_ops_filter:
  assumes "coherent murmur s"
  shows "filter_add murmur (wc_filter s) x = map_prod id wc_filter (cached_add murmur now s x)"
    and "coherent murmur (snd (cached_add murmur now s x))"
    and "filter_remove murmur (wc_filter s) x = wc_filter (cached_remove murmur s x)"
    and "coherent murmur (cached_remove murmur s x)"
    and "fst (filter_contains murmur (wc_filter s) x) = fst (cached_contains murmur now s x)"
    and "wc_filter (snd (cached_contains murmur now s x)) = wc_filter s"
    and "coherent murmur (snd (cached_contains murmur now s x))"
  using assms cached_Add_sim [OF assms, where now = now and x = x] cached_Contains_sim [OF assms, where now = now and x = x] cached_Remove_sim [OF assms, where x = x]
  by (auto simp: filter_add_def cached_add_def filter_remove_def cached_remove_def filter_contains_def
    cached_contains_def split: sum.splits)

interpretation cached_cbf: membership_filter "\<lambda>s M. coherent murmur s \<and> covers murmur (wc_filter s) M"
  "cached_add murmur now" "cached_remove murmur" "cached_contains murmur now" for murmur now
proof unfold_locales
  fix s M x s'
  assume h: "coherent murmur s \<and> covers murmur (wc_filter s) M"
  note f = cached_ops_filter [OF conjunct1 [OF h], where x = x]
  show "coherent murmur s' \<and> covers murmur (wc_filter s') (add_mset x M)" if "cached_add murmur now s x = (True, s')"
    using that h f(1) [of now] f(2) [of now] cbf.add_ok [of murmur "wc_filter s" M x "wc_filter s'"] by auto
  show "coherent murmur s' \<and> covers murmur (wc_filter s') M" if "cached_add murmur now s x = (False, s')"
    using that h f(1) [of now] f(2) [of now] cbf.add_rejected [of murmur "wc_filter s" M x "wc_filter s'"] by auto
  show "coherent murmur (cached_remove murmur s x) \<and> covers murmur (wc_filter (cached_remove murmur s x)) (M - {#x#})"
    if "x \<in># M" using that h f(3,4) cbf.rem_held [of murmur "wc_filter s" M x] by auto
  show "coherent murmur (snd (cached_contains murmur now s x)) \<and>
      covers murmur (wc_filter (snd (cached_contains murmur now s x))) M" using h f(6) [of now] f(7) [of now] by auto
  show "fst (cached_contains murmur now s x)" if "x \<in># M"
    using that h f(5) [of now] cbf.con_held [of murmur "wc_filter s" M x] by auto
qed

text \<open>C24: the cached filter is the plain filter. As long as every cached index list is what the hashing
  computes, which every operation keeps, \<open>Add\<close>, \<open>Contains\<close> and \<open>Remove\<close> of the cached filter return what
  those of the plain filter return, panics and errors included, and leave the same counters.\<close>

theorem cached_filter_sim:
  assumes "coherent murmur s"
  shows "(case WithCache_Add murmur now s x of
        Inl p \<Rightarrow> Add murmur (wc_filter s) x = Inl p
      | Inr (err, s') \<Rightarrow> Add murmur (wc_filter s) x = Inr (err, wc_filter s') \<and> coherent murmur s')
    \<and> (case WithCache_Contains murmur now s x of
        Inl p \<Rightarrow> Contains murmur (wc_filter s) x = Inl p
      | Inr (b, s') \<Rightarrow> Contains murmur (wc_filter s) x = Inr b \<and> wc_filter s' = wc_filter s \<and> coherent murmur s')
    \<and> (case WithCache_Remove murmur s x of
        Inl p \<Rightarrow> Remove murmur (wc_filter s) x = Inl p
      | Inr s' \<Rightarrow> Remove murmur (wc_filter s) x = Inr (wc_filter s') \<and> coherent murmur s')"
  using cached_Add_sim [OF assms] cached_Contains_sim [OF assms] cached_Remove_sim [OF assms] by blast

theorem cached_filter_sim_witness:
  "case WithCache_Contains (\<lambda>_. 3) 7 \<lparr>wc_filter = \<lparr>cbf_m = 4, cbf_k = 2, counters = [1, 0, 0, 1]\<rparr>,
       wc_cache = \<lparr>ic_capacity = 2, ic_cache = [], ic_lru = []\<rparr>\<rparr> [1] of
     Inl p \<Rightarrow> Contains (\<lambda>_. 3) \<lparr>cbf_m = 4, cbf_k = 2, counters = [1, 0, 0, 1]\<rparr> [1] = Inl p
   | Inr (b, s') \<Rightarrow> Contains (\<lambda>_. 3) \<lparr>cbf_m = 4, cbf_k = 2, counters = [1, 0, 0, 1]\<rparr> [1] = Inr b"
proof -
  let ?s = "\<lparr>wc_filter = \<lparr>cbf_m = 4, cbf_k = 2, counters = [1, 0, 0, 1]\<rparr>,
       wc_cache = \<lparr>ic_capacity = 2, ic_cache = [], ic_lru = []\<rparr>\<rparr>"
  have "coherent (\<lambda>_. 3) ?s" by (simp add: coherent_def cache_inv_def contents_def)
  from cached_filter_sim [OF this, where now = 7 and x = "[1]"] show ?thesis by (auto split: sum.splits)
qed

end
