(* ===== verification/Bloom_Compress.thy ===== *)
theory Bloom_Compress
  imports Complex_Main Bloom_Counting
begin

text \<open>
  \<open>src/pkg/bloom/compression.go\<close>: compressed serialization. The DEFLATE codec is a pair of
  parameters: \<open>deflate level data\<close> is the gzip stream a writer of that level produces for the
  bytes written to it, \<open>gunzip\<close> reads a stream to its end or fails on its header or body. Writes go to
  a \<open>bytes.Buffer\<close>, which never fails. The ratios, \<open>float64\<close> in the code, are exact rationals.
\<close>

section \<open>Data\<close>

datatype gz_error = GzHeader | GzBody

datatype compress_error =
    CreateWriter
  | CreateReader gz_error
  | DecompressData gz_error
  | BloomError bloom_error
  | ReadMagic
  | InvalidFormat
  | UnexpectedEOF

text \<open>The documented behaviour of the codec that the code relies on: reading back what was written,
  and that an empty input has no gzip header.\<close>

definition gzip_roundtrip :: "(int \<Rightarrow> bytes \<Rightarrow> bytes) \<Rightarrow> (bytes \<Rightarrow> gz_error + bytes) \<Rightarrow> bool" where
  "gzip_roundtrip deflate gunzip \<longleftrightarrow>
     gunzip [] = Inl GzHeader \<and> (\<forall>level data. gunzip (deflate level data) = Inr data)"

definition BestSpeed :: int where "BestSpeed = 1"
definition BestCompression :: int where "BestCompression = 9"

text \<open>\<open>gzip.NewWriterLevel\<close> refuses a level outside \<open>HuffmanOnly\<close> (-2) to \<open>BestCompression\<close>.\<close>

definition writer_level_ok :: "int \<Rightarrow> bool" where
  "writer_level_ok level \<longleftrightarrow> - 2 \<le> level \<and> level \<le> BestCompression"

section \<open>Filters\<close>

definition CompressSerialize ::
  "(int \<Rightarrow> bytes \<Rightarrow> bytes) \<Rightarrow> CountingBloomFilter \<Rightarrow> compress_error + bytes" where
  "CompressSerialize deflate cbf =
     (let data = Serialize cbf in
      if \<not> writer_level_ok BestSpeed then Inl CreateWriter
      else Inr (deflate BestSpeed (be32 (uint32_of_int (int (length data))) @ data)))"

definition DecompressDeserialize ::
  "(bytes \<Rightarrow> gz_error + bytes) \<Rightarrow> bytes \<Rightarrow> compress_error + CountingBloomFilter" where
  "DecompressDeserialize gunzip compressedData = (case gunzip compressedData of
      Inl GzHeader \<Rightarrow> Inl (CreateReader GzHeader)
    | Inl GzBody \<Rightarrow> Inl (DecompressData GzBody)
    | Inr decompressed \<Rightarrow> (case Deserialize decompressed of
        Inl e \<Rightarrow> Inl (BloomError e)
      | Inr cbf \<Rightarrow> Inr cbf))"

definition CompressSerializeZstd ::
  "(int \<Rightarrow> bytes \<Rightarrow> bytes) \<Rightarrow> CountingBloomFilter \<Rightarrow> compress_error + bytes" where
  "CompressSerializeZstd deflate cbf = CompressSerialize deflate cbf"

definition CompressionRatio ::
  "(int \<Rightarrow> bytes \<Rightarrow> bytes) \<Rightarrow> CountingBloomFilter \<Rightarrow> compress_error + (int \<times> int \<times> rat)" where
  "CompressionRatio deflate cbf =
     (let original = int (length (Serialize cbf)) in
      case CompressSerialize deflate cbf of
        Inl e \<Rightarrow> Inl e
      | Inr compressedData \<Rightarrow>
          let compressed = int (length compressedData)
          in Inr (original, compressed, of_int compressed / of_int original))"

record storage_stats =
  original_size :: int
  compressed_size :: int
  compression_ratio :: rat
  space_saved :: int

definition OptimizeForStorage ::
  "(int \<Rightarrow> bytes \<Rightarrow> bytes) \<Rightarrow> CountingBloomFilter \<Rightarrow> compress_error + (bytes \<times> storage_stats)" where
  "OptimizeForStorage deflate cbf =
     (let original = int (length (Serialize cbf)) in
      case CompressSerialize deflate cbf of
        Inl e \<Rightarrow> Inl e
      | Inr data \<Rightarrow>
          let compressed = int (length data)
          in Inr (data, \<lparr>original_size = original, compressed_size = compressed,
               compression_ratio = 1 - of_int compressed / of_int original,
               space_saved = original - compressed\<rparr>))"

section \<open>Snapshots\<close>

text \<open>The metadata map: its entries in the order the iteration visits them, each value as \<open>%v\<close> prints it.\<close>

type_synonym metadata = "(string \<times> string) list"

record SnapshotCompressor =
  sc_level :: int

definition NewSnapshotCompressor :: "int \<Rightarrow> SnapshotCompressor" where
  "NewSnapshotCompressor level =
     \<lparr>sc_level = (if level < 1 then BestSpeed else if 9 < level then BestCompression else level)\<rparr>"

definition serializeMetadata :: "metadata \<Rightarrow> bytes" where
  "serializeMetadata md =
     concat (map (\<lambda>(k, v). bytes_of_string k @ bytes_of_string '':'' @ bytes_of_string v @ [10]) md)"

definition deserializeMetadata :: "bytes \<Rightarrow> metadata" where
  "deserializeMetadata data = []"

definition sc_Compress ::
  "(int \<Rightarrow> bytes \<Rightarrow> bytes) \<Rightarrow> SnapshotCompressor \<Rightarrow> bytes \<Rightarrow> metadata \<Rightarrow> compress_error + bytes" where
  "sc_Compress deflate sc data md =
     (let metadataBytes = serializeMetadata md;
          header = bytes_of_string ''DBFS'' @ [word_of_int (sc_level sc)]
            @ be32 (uint32_of_int (int (length metadataBytes))) @ metadataBytes
      in if \<not> writer_level_ok (sc_level sc) then Inl CreateWriter
         else Inr (header @ deflate (sc_level sc) data))"

text \<open>
  \<open>bytes.Reader\<close>: \<open>Read\<close> into a buffer of \<open>n\<close> bytes fails only at the end of the input and otherwise
  fills what it can, the rest of the (zeroed) buffer stays zero; \<open>binary.Read\<close> needs all \<open>n\<close> bytes.
\<close>

definition reader_Read :: "nat \<Rightarrow> bytes \<Rightarrow> (bytes \<times> bytes) option" where
  "reader_Read n r = (if r = [] then None
     else Some (take n r @ replicate (n - length r) 0, drop n r))"

definition reader_ReadFull :: "nat \<Rightarrow> bytes \<Rightarrow> (bytes \<times> bytes) option" where
  "reader_ReadFull n r = (if length r < n then None else Some (take n r, drop n r))"

definition sc_Decompress ::
  "(bytes \<Rightarrow> gz_error + bytes) \<Rightarrow> SnapshotCompressor \<Rightarrow> bytes \<Rightarrow> compress_error + (bytes \<times> metadata)" where
  "sc_Decompress gunzip sc compressedData = (case reader_Read 4 compressedData of
      None \<Rightarrow> Inl ReadMagic
    | Some (magic, r1) \<Rightarrow>
        if string_of_bytes magic \<noteq> ''DBFS'' then Inl InvalidFormat
        else (case reader_ReadFull 1 r1 of
          None \<Rightarrow> Inl UnexpectedEOF
        | Some (level, r2) \<Rightarrow> (case reader_ReadFull 4 r2 of
            None \<Rightarrow> Inl UnexpectedEOF
          | Some (sz, r3) \<Rightarrow> (case reader_Read (unat (read32 sz)) r3 of
              None \<Rightarrow> Inl UnexpectedEOF
            | Some (metadataBytes, r4) \<Rightarrow>
                let md = deserializeMetadata metadataBytes in
                (case gunzip r4 of
                  Inl e \<Rightarrow> Inl (CreateReader e)
                | Inr data \<Rightarrow> Inr (data, md))))))"

text \<open>A codec that satisfies the hypothesis: it stores the bytes behind a one-byte header.\<close>

definition stored_deflate :: "int \<Rightarrow> bytes \<Rightarrow> bytes" where
  "stored_deflate level data = 31 # data"

definition stored_gunzip :: "bytes \<Rightarrow> gz_error + bytes" where
  "stored_gunzip z = (case z of [] \<Rightarrow> Inl GzHeader | h # data \<Rightarrow> if h = 31 then Inr data else Inl GzHeader)"

section \<open>Properties\<close>

lemma CompressSerialize_eq:
  "CompressSerialize deflate cbf =
     Inr (deflate 1 (be32 (uint32_of_int (int (length (Serialize cbf)))) @ Serialize cbf))"
  by (simp add: CompressSerialize_def writer_level_ok_def BestSpeed_def BestCompression_def Let_def)

lemma uint_uint32_of_int_mod: "uint (uint32_of_int x) = x mod 2 ^ 32"
  by (simp add: uint32_of_int_def uint_word_of_int)

lemma deflate_nonempty: "gzip_roundtrip deflate gunzip \<Longrightarrow> deflate level data \<noteq> []"
  by (metis gzip_roundtrip_def sum.distinct(1))

text \<open>The compressed form of a filter cannot be read back. \<open>CompressSerialize\<close> puts the size in front
  of the serialized filter inside the stream and \<open>DecompressDeserialize\<close> does not take it off, so for
  every filter, whatever its size, the round trip ends in \<open>ErrInvalidData\<close>.\<close>

theorem compressed_roundtrip_fails:
  assumes "gzip_roundtrip deflate gunzip"
  shows "\<exists>z. CompressSerialize deflate cbf = Inr z
    \<and> DecompressDeserialize gunzip z = Inl (BloomError ErrInvalidData)"
proof -
  let ?n = "length (counters cbf)"
  let ?d = "be32 (uint32_of_int (int (length (Serialize cbf)))) @ Serialize cbf"
  have len: "length ?d = ?n + 16" by (simp add: Serialize_length)
  have m: "uint (read32 (take 4 ?d)) = (int ?n + 12) mod 2 ^ 32"
    by (simp only: take_append length_be32 diff_self_eq_0 take_0 append_Nil2 take_all_iff [THEN iffD2] le_refl
      read32_be32 uint_uint32_of_int_mod Serialize_length of_nat_add of_nat_numeral)
  have "int ?n + 16 \<noteq> 8 + (int ?n + 12) mod 2 ^ 32 + 4"
  proof
    assume "int ?n + 16 = 8 + (int ?n + 12) mod 2 ^ 32 + 4"
    with div_mult_mod_eq [of "int ?n + 12" "2 ^ 32"]
    have "(int ?n + 12) div 2 ^ 32 * 2 ^ 32 = 8" by linarith
    then have "(2 ^ 32 :: int) dvd 8" by (metis dvd_triv_right)
    then show False by (simp add: zdvd_not_zless)
  qed
  then have "int (length ?d) \<noteq> 8 + uint (read32 (take 4 ?d)) + 4" unfolding m len by simp
  then have "Deserialize ?d = Inl ErrInvalidData" by (rule Deserialize_bad_length)
  moreover have "gunzip (deflate 1 ?d) = Inr ?d" using assms by (simp add: gzip_roundtrip_def)
  ultimately show ?thesis by (simp add: CompressSerialize_eq DecompressDeserialize_def)
qed

lemma stored_roundtrip: "gzip_roundtrip stored_deflate stored_gunzip"
  by (simp add: gzip_roundtrip_def stored_deflate_def stored_gunzip_def)

theorem compressed_roundtrip_fails_witness:
  "\<exists>z. CompressSerialize stored_deflate \<lparr>cbf_m = 2, cbf_k = 1, counters = [3, 0]\<rparr> = Inr z
    \<and> DecompressDeserialize stored_gunzip z = Inl (BloomError ErrInvalidData)"
  by (rule compressed_roundtrip_fails [OF stored_roundtrip])

text \<open>The snapshot compressor keeps the data and loses the metadata: whatever data and metadata (of
  less than 4 GiB) a compressor made by the constructor writes, any compressor reads back the same data
  and an empty metadata map.\<close>

theorem snapshot_roundtrip:
  assumes "gzip_roundtrip deflate gunzip" and "int (length (serializeMetadata md)) < 2 ^ 32"
  shows "\<exists>z. sc_Compress deflate (NewSnapshotCompressor level) data md = Inr z
    \<and> sc_Decompress gunzip sc z = Inr (data, [])"
proof -
  let ?sc = "NewSnapshotCompressor level" and ?mb = "serializeMetadata md"
  let ?gz = "deflate (sc_level ?sc) data"
  have lvl: "writer_level_ok (sc_level ?sc)"
    by (auto simp: writer_level_ok_def NewSnapshotCompressor_def BestSpeed_def BestCompression_def)
  have magic: "length (bytes_of_string ''DBFS'') = 4" by simp
  have "uint (uint32_of_int (int (length ?mb))) = int (length ?mb)"
    using assms(2) by (simp add: uint_uint32_of_int_mod)
  then have "int (unat (uint32_of_int (int (length ?mb)))) = int (length ?mb)" by simp
  then have sz: "unat (uint32_of_int (int (length ?mb))) = length ?mb" by linarith
  have "gunzip ?gz = Inr data" using assms(1) by (simp add: gzip_roundtrip_def)
  then have "sc_Decompress gunzip sc (bytes_of_string ''DBFS'' @ word_of_int (sc_level ?sc) #
      be32 (uint32_of_int (int (length ?mb))) @ ?mb @ ?gz) = Inr (data, [])"
    using deflate_nonempty [OF assms(1), of "sc_level ?sc" data]
    by (simp add: sc_Decompress_def reader_Read_def reader_ReadFull_def sz deserializeMetadata_def Let_def
      del: length_greater_0_conv)
  then show ?thesis using lvl by (simp add: sc_Compress_def Let_def)
qed

theorem snapshot_roundtrip_witness:
  "\<exists>z. sc_Compress stored_deflate (NewSnapshotCompressor 0) [1, 2] [(''index'', ''7'')] = Inr z
    \<and> sc_Decompress stored_gunzip (NewSnapshotCompressor 9) z = Inr ([1, 2], [])"
  by (rule snapshot_roundtrip [OF stored_roundtrip]) (simp add: serializeMetadata_def)

end
