(* ===== verification/Go_Strings.thy ===== *)
theory Go_Strings
  imports Go_Prelude
begin

text \<open>
  The parts of Go's \<open>strings\<close>, \<open>strconv\<close> and \<open>fmt\<close> packages the program uses, on byte strings:
  prefixes, suffixes and substrings, decimal printing and scanning, trimming and splitting. White
  space is the ASCII one.
\<close>

section \<open>Definitions\<close>

definition HasPrefix :: "string \<Rightarrow> string \<Rightarrow> bool" where
  "HasPrefix s p \<longleftrightarrow> take (length p) s = p"

definition HasSuffix :: "string \<Rightarrow> string \<Rightarrow> bool" where
  "HasSuffix s p \<longleftrightarrow> length p \<le> length s \<and> drop (length s - length p) s = p"

text \<open>\<open>strings.Index\<close>: the first position of a substring, -1 if there is none.\<close>

fun find_sub :: "nat \<Rightarrow> string \<Rightarrow> string \<Rightarrow> nat option" where
  "find_sub i [] sub = (if sub = [] then Some i else None)"
| "find_sub i (c # cs) sub = (if HasPrefix (c # cs) sub then Some i else find_sub (Suc i) cs sub)"

definition str_Index :: "string \<Rightarrow> string \<Rightarrow> int" where
  "str_Index s sub = (case find_sub 0 s sub of None \<Rightarrow> - 1 | Some i \<Rightarrow> int i)"

definition str_Contains :: "string \<Rightarrow> string \<Rightarrow> bool" where
  "str_Contains s sub \<longleftrightarrow> find_sub 0 s sub \<noteq> None"

text \<open>\<open>strings.LastIndexByte\<close>.\<close>

fun last_index_from :: "nat \<Rightarrow> nat option \<Rightarrow> string \<Rightarrow> char \<Rightarrow> nat option" where
  "last_index_from i r [] c = r"
| "last_index_from i r (x # xs) c = last_index_from (Suc i) (if x = c then Some i else r) xs c"

definition LastIndexByte :: "string \<Rightarrow> char \<Rightarrow> int" where
  "LastIndexByte s c = (case last_index_from 0 None s c of None \<Rightarrow> - 1 | Some i \<Rightarrow> int i)"

definition is_space :: "char \<Rightarrow> bool" where
  "is_space c \<longleftrightarrow> of_char c \<in> {9, 10, 11, 12, 13, 32 :: nat}"

definition TrimSpace :: "string \<Rightarrow> string" where
  "TrimSpace s = rev (dropWhile is_space (rev (dropWhile is_space s)))"

text \<open>\<open>strings.Split\<close> on a one-byte separator.\<close>

fun split_on :: "char \<Rightarrow> string \<Rightarrow> string list" where
  "split_on sep [] = [[]]"
| "split_on sep (c # cs) = (if c = sep then [] # split_on sep cs
     else (case split_on sep cs of [] \<Rightarrow> [[c]] | w # ws \<Rightarrow> (c # w) # ws))"

definition to_lower_char :: "char \<Rightarrow> char" where
  "to_lower_char c = (let n = of_char c :: nat in if 65 \<le> n \<and> n \<le> 90 then char_of (n + 32) else c)"

definition ToLower :: "string \<Rightarrow> string" where
  "ToLower = map to_lower_char"

text \<open>Decimal printing: \<open>%d\<close> of a natural number, and \<open>%0wd\<close>.\<close>

definition digit :: "nat \<Rightarrow> char" where
  "digit d = char_of (48 + d)"

fun dec :: "nat \<Rightarrow> string" where
  "dec n = (if n < 10 then [digit n] else dec (n div 10) @ [digit (n mod 10)])"

declare dec.simps [simp del]

definition dec_int :: "int \<Rightarrow> string" where
  "dec_int i = (if i < 0 then CHR ''-'' # dec (nat (- i)) else dec (nat i))"

definition dec_padded :: "nat \<Rightarrow> nat \<Rightarrow> string" where
  "dec_padded w n = (let s = dec n in replicate (w - length s) (CHR ''0'') @ s)"

text \<open>Decimal scanning.\<close>

definition is_digit :: "char \<Rightarrow> bool" where
  "is_digit c \<longleftrightarrow> 48 \<le> (of_char c :: nat) \<and> (of_char c :: nat) \<le> 57"

definition digits_value :: "string \<Rightarrow> nat" where
  "digits_value s = foldl (\<lambda>v c. v * 10 + (of_char c - 48)) 0 s"

text \<open>\<open>fmt.Sscanf(s, "%<w>d", &x)\<close> for an unsigned \<open>x\<close> that is 0 before: blanks are skipped (a newline is
  an error), at most \<open>w\<close> digits are read, and \<open>x\<close> stays 0 if there is none or the value does not fit.\<close>

definition is_blank :: "char \<Rightarrow> bool" where
  "is_blank c \<longleftrightarrow> is_space c \<and> of_char c \<noteq> (10 :: nat)"

definition scan_uint :: "nat option \<Rightarrow> nat \<Rightarrow> string \<Rightarrow> nat" where
  "scan_uint w bits s =
     (let t = dropWhile is_blank s;
          ds = takeWhile is_digit (case w of None \<Rightarrow> t | Some n \<Rightarrow> take n t);
          v = digits_value ds
      in if v < 2 ^ bits then v else 0)"

section \<open>Prefixes and suffixes\<close>

lemma HasPrefix_append [simp]: "HasPrefix (p @ s) p"
  by (simp add: HasPrefix_def)

lemma HasPrefix_iff: "HasPrefix s p \<longleftrightarrow> (\<exists>t. s = p @ t)"
  by (metis HasPrefix_def append_eq_conv_conj)

lemma HasSuffix_append [simp]: "HasSuffix (s @ p) p"
  by (simp add: HasSuffix_def)

lemma HasSuffix_iff: "HasSuffix s p \<longleftrightarrow> (\<exists>t. s = t @ p)"
  by (metis HasSuffix_def HasSuffix_append append_take_drop_id)

section \<open>Decimal numbers\<close>

lemma of_char_digit: "d < 10 \<Longrightarrow> (of_char (digit d) :: nat) = 48 + d"
  by (simp add: digit_def)

lemma digit_char: "digit 0 = CHR ''0''" "digit 1 = CHR ''1''"  "digit 2 = CHR ''2''" "digit 3 = CHR ''3''"
  "digit 4 = CHR ''4''" "digit 5 = CHR ''5''" "digit 6 = CHR ''6''"  "digit 7 = CHR ''7''"
  "digit 8 = CHR ''8''" "digit 9 = CHR ''9''" "digit (Suc 0) = CHR ''1''"
  by code_simp+

lemma is_digit_digit [simp]: "d < 10 \<Longrightarrow> is_digit (digit d)"
  by (simp add: is_digit_def of_char_digit)

lemma digits_value_append1: "digits_value (s @ [c]) = digits_value s * 10 + (of_char c - 48)"
  by (simp add: digits_value_def)

lemma digits_value_Nil [simp]: "digits_value [] = 0"
  by (simp add: digits_value_def)

lemma dec_digits: "list_all is_digit (dec n)"
  by (induction n rule: dec.induct) (subst dec.simps, simp)

lemma dec_nonempty [simp]: "dec n \<noteq> []"
  by (subst dec.simps) simp

lemma digits_value_dec [simp]: "digits_value (dec n) = n"
proof (induction n rule: dec.induct)
  case (1 n)
  show ?case
  proof (cases "n < 10")
    case True
    then show ?thesis by (subst dec.simps) (simp add: digits_value_def of_char_digit)
  next
    case False
    then show ?thesis using 1
      by (subst dec.simps) (simp add: digits_value_append1 of_char_digit)
  qed
qed

lemma dec_inj [simp]: "dec a = dec b \<longleftrightarrow> a = b"
  by (metis digits_value_dec)

lemma length_dec: "n < 10 ^ w \<Longrightarrow> 0 < w \<Longrightarrow> length (dec n) \<le> w"
proof (induction n arbitrary: w rule: dec.induct)
  case (1 n)
  show ?case
  proof (cases "n < 10")
    case True
    then show ?thesis using 1(3) by (subst dec.simps) simp
  next
    case False
    then obtain v where v: "w = Suc v" "0 < v" using 1(2,3) by (cases w; cases "w - 1") auto
    then have "n div 10 < 10 ^ v" using 1(2) by (simp add: less_mult_imp_div_less mult.commute)
    from 1(1) [OF False this v(2)] v show ?thesis using False by (subst dec.simps) simp
  qed
qed

lemma digits_value_zeros: "digits_value (replicate k (CHR ''0'') @ s) = digits_value s"
proof -
  have "foldl (\<lambda>v c. v * 10 + (of_char c - 48)) (0 :: nat) (replicate k (CHR ''0'')) = 0"
    by (induction k) simp_all
  then show ?thesis by (simp add: digits_value_def)
qed

lemma digits_value_padded [simp]: "digits_value (dec_padded w n) = n"
  by (simp add: dec_padded_def Let_def digits_value_zeros)

lemma dec_padded_inj [simp]: "dec_padded w a = dec_padded w b \<longleftrightarrow> a = b"
  by (metis digits_value_padded)

lemma dec_padded_digits: "list_all is_digit (dec_padded w n)"
  using dec_digits [of n] by (auto simp: dec_padded_def Let_def list_all_iff is_digit_def)

lemma length_dec_padded: "n < 10 ^ w \<Longrightarrow> 0 < w \<Longrightarrow> length (dec_padded w n) = w"
  using length_dec [of n w] by (simp add: dec_padded_def Let_def)

lemma digit_not_blank: "is_digit c \<Longrightarrow> \<not> is_blank c"
  by (auto simp: is_digit_def is_blank_def is_space_def)

text \<open>Scanning with width \<open>w\<close> reads back a number printed with width \<open>w\<close>, whatever follows it.\<close>

lemma scan_padded:
  assumes "n < 10 ^ w" and "0 < w" and "n < 2 ^ bits"
  shows "scan_uint (Some w) bits (dec_padded w n @ rest) = n"
proof -
  let ?p = "dec_padded w n"
  have len: "length ?p = w" using assms by (simp add: length_dec_padded)
  with \<open>0 < w\<close> obtain c cs where c: "?p = c # cs" by (cases ?p) auto
  with dec_padded_digits [of w n] have "\<not> is_blank c" by (simp add: digit_not_blank)
  then have "dropWhile is_blank (?p @ rest) = ?p @ rest" by (simp add: c)
  moreover have "takeWhile is_digit ?p = ?p"
    using dec_padded_digits [of w n] by (simp add: list_all_iff)
  ultimately show ?thesis using len assms(3)
    by (simp add: scan_uint_def Let_def del: takeWhile_eq_all_conv)
qed

end
