(* ===== verification/Wal_Encryptor.thy ===== *)
theory Wal_Encryptor
  imports Go_Strings
begin

text \<open>
  \<open>src/internal/wal/encryptor.go\<close>, lines 1 to 327: the versioned AES-256-GCM encryptor of the
  write-ahead log. AES-GCM is a pair of parameters, \<open>seal key nonce plaintext\<close> and
  \<open>gopen key nonce ciphertext\<close>; \<open>rand n\<close> is what the system's random source returns for \<open>n\<close> bytes
  (\<open>None\<close> if it fails), \<open>readf dir file\<close> the content of a secret file, \<open>now\<close> the clock in nanoseconds.
\<close>

section \<open>Data\<close>

datatype wal_error =
    ReadSecretFailed | KeyTooShort | RandomFailed | KeyVersionNotFound u32 | CipherFailed
  | CiphertextTooShort | DecryptFailed

definition KeyCacheDuration :: int where
  "KeyCacheDuration = 5 * 60 * 10 ^ 9"

record K8sSecretLoader =
  ksl_secretPath :: string

record WALEncryptor =
  currentKey :: bytes
  keyVersion :: u32
  keyCache :: "u32 \<Rightarrow> bytes option"
  keyCacheTime :: int
  enc_secretPath :: string
  keyLoader :: "K8sSecretLoader option"

section \<open>Operations\<close>

definition LoadKey :: "(string \<Rightarrow> string \<Rightarrow> bytes option) \<Rightarrow> K8sSecretLoader \<Rightarrow> wal_error + (bytes \<times> u32)" where
  "LoadKey readf k = (case readf (ksl_secretPath k) ''key'' of
      None \<Rightarrow> Inl ReadSecretFailed
    | Some keyData \<Rightarrow>
        let versionData = (case readf (ksl_secretPath k) ''version'' of
              None \<Rightarrow> bytes_of_string ''1'' | Some d \<Rightarrow> d);
            scanned = (if 0 < length versionData then scan_uint None 32 (string_of_bytes versionData) else 0);
            version = (if scanned = 0 then 1 else of_nat scanned)
        in if length keyData < 32 then Inl KeyTooShort
           else Inr (take 32 keyData, version))"

definition NewWALEncryptor ::
  "(string \<Rightarrow> string \<Rightarrow> bytes option) \<Rightarrow> (nat \<Rightarrow> bytes option) \<Rightarrow> int \<Rightarrow> string \<Rightarrow> wal_error + WALEncryptor" where
  "NewWALEncryptor readf rand now path =
     (if path \<noteq> '''' then
        let loader = \<lparr>ksl_secretPath = path\<rparr> in
        (case LoadKey readf loader of
           Inl e \<Rightarrow> Inl e
         | Inr (key, version) \<Rightarrow>
             Inr \<lparr>currentKey = key, keyVersion = version, keyCache = [version \<mapsto> key],
                  keyCacheTime = now, enc_secretPath = path, keyLoader = Some loader\<rparr>)
      else (case rand 32 of
           None \<Rightarrow> Inl RandomFailed
         | Some key \<Rightarrow>
             Inr \<lparr>currentKey = key, keyVersion = 1, keyCache = [1 \<mapsto> key],
                  keyCacheTime = now, enc_secretPath = path, keyLoader = None\<rparr>))"

definition RefreshKey ::
  "(string \<Rightarrow> string \<Rightarrow> bytes option) \<Rightarrow> int \<Rightarrow> WALEncryptor \<Rightarrow> wal_error option \<times> WALEncryptor" where
  "RefreshKey readf now e =
     (if now - keyCacheTime e < KeyCacheDuration then (None, e)
      else (case keyLoader e of
          None \<Rightarrow> (None, e)
        | Some loader \<Rightarrow> (case LoadKey readf loader of
            Inl err \<Rightarrow> (Some err, e)
          | Inr (key, version) \<Rightarrow>
              (None, e\<lparr>currentKey := key, keyVersion := version,
                 keyCache := (keyCache e)(version \<mapsto> key), keyCacheTime := now\<rparr>))))"

definition GetCurrentKey :: "WALEncryptor \<Rightarrow> bytes \<times> u32" where
  "GetCurrentKey e = (currentKey e, keyVersion e)"

definition GetKeyByVersion :: "WALEncryptor \<Rightarrow> u32 \<Rightarrow> wal_error + bytes" where
  "GetKeyByVersion e version = (case keyCache e version of
      None \<Rightarrow> Inl (KeyVersionNotFound version) | Some key \<Rightarrow> Inr key)"

text \<open>\<open>aes.NewCipher\<close> accepts the three AES key lengths; the nonce size of GCM is 12.\<close>

definition aes_key_ok :: "bytes \<Rightarrow> bool" where
  "aes_key_ok key \<longleftrightarrow> length key \<in> {16, 24, 32}"

definition NonceSize :: nat where "NonceSize = 12"

definition Encrypt ::
  "(bytes \<Rightarrow> bytes \<Rightarrow> bytes \<Rightarrow> bytes) \<Rightarrow> (nat \<Rightarrow> bytes option) \<Rightarrow> WALEncryptor \<Rightarrow> bytes \<Rightarrow> wal_error + bytes" where
  "Encrypt seal rand e plaintext =
     (let key = currentKey e; version = keyVersion e in
      if \<not> aes_key_ok key then Inl CipherFailed
      else (case rand NonceSize of
          None \<Rightarrow> Inl RandomFailed
        | Some nonce \<Rightarrow>
            let ciphertext = nonce @ seal key nonce plaintext
            in Inr (be32 (uint32_of_int (int (4 + length ciphertext))) @ be32 version @ ciphertext)))"

text \<open>
  \<open>data[:nonceSize]\<close> and \<open>data[nonceSize:cipherLen]\<close> are in bounds exactly if \<open>cipherLen\<close> is at least
  \<open>nonceSize\<close>: the length check before them gives the upper bound, and for a smaller \<open>cipherLen\<close> (it may
  be negative) the second expression panics whatever the capacity.
\<close>

definition Decrypt ::
  "(bytes \<Rightarrow> bytes \<Rightarrow> bytes \<Rightarrow> bytes option) \<Rightarrow> WALEncryptor \<Rightarrow> bytes \<Rightarrow> panic + (wal_error + bytes)" where
  "Decrypt gopen e ciphertext =
     (if length ciphertext < 8 then Inr (Inl CiphertextTooShort)
      else let totalLen = read32 (take 4 ciphertext); version = read32 (take 4 (drop 4 ciphertext))
      in (case GetKeyByVersion e version of
          Inl err \<Rightarrow> Inr (Inl err)
        | Inr key \<Rightarrow>
            if \<not> aes_key_ok key then Inr (Inl CipherFailed)
            else let data = drop 8 ciphertext; cipherLen = uint totalLen - 4
            in if int (length data) < cipherLen then Inr (Inl CiphertextTooShort)
               else if cipherLen < int NonceSize then Inl SliceBounds
               else (case gopen key (take NonceSize data) (drop NonceSize (take (nat cipherLen) data)) of
                   None \<Rightarrow> Inr (Inl DecryptFailed)
                 | Some plaintext \<Rightarrow> Inr (Inr plaintext))))"

definition RotateKey :: "(nat \<Rightarrow> bytes option) \<Rightarrow> int \<Rightarrow> WALEncryptor \<Rightarrow> wal_error option \<times> WALEncryptor" where
  "RotateKey rand now e = (case rand 32 of
      None \<Rightarrow> (Some RandomFailed, e)
    | Some newKey \<Rightarrow>
        let version = keyVersion e + 1
        in (None, e\<lparr>keyVersion := version, currentKey := newKey,
              keyCache := (keyCache e)(version \<mapsto> newKey), keyCacheTime := now\<rparr>))"

section \<open>Invariant and hypotheses\<close>

text \<open>The current key is cached under the current version and every cached key has 32 bytes.\<close>

definition enc_inv :: "WALEncryptor \<Rightarrow> bool" where
  "enc_inv e \<longleftrightarrow> keyCache e (keyVersion e) = Some (currentKey e)
     \<and> (\<forall>v key. keyCache e v = Some key \<longrightarrow> length key = 32)"

text \<open>The documented behaviour of AES-GCM and of \<open>io.ReadFull\<close> on the random source.\<close>

definition gcm_ok :: "(bytes \<Rightarrow> bytes \<Rightarrow> bytes \<Rightarrow> bytes) \<Rightarrow> (bytes \<Rightarrow> bytes \<Rightarrow> bytes \<Rightarrow> bytes option) \<Rightarrow> bool" where
  "gcm_ok seal gopen \<longleftrightarrow> (\<forall>key nonce plaintext. gopen key nonce (seal key nonce plaintext) = Some plaintext)"

definition rand_ok :: "(nat \<Rightarrow> bytes option) \<Rightarrow> bool" where
  "rand_ok rand \<longleftrightarrow> (\<forall>n bs. rand n = Some bs \<longrightarrow> length bs = n)"

text \<open>Operations that change the keys, as a history.\<close>

datatype key_op = Rotate "nat \<Rightarrow> bytes option" int | Refresh "string \<Rightarrow> string \<Rightarrow> bytes option" int

fun key_step :: "WALEncryptor \<Rightarrow> key_op \<Rightarrow> WALEncryptor" where
  "key_step e (Rotate rand now) = snd (RotateKey rand now e)"
| "key_step e (Refresh readf now) = snd (RefreshKey readf now e)"

text \<open>An operation that gives no version a second key.\<close>

definition keeps_keys :: "WALEncryptor \<Rightarrow> key_op \<Rightarrow> bool" where
  "keeps_keys e op \<longleftrightarrow> (let e' = key_step e op in
     keyCache e (keyVersion e') \<in> {None, Some (currentKey e')})"

fun all_keep_keys :: "WALEncryptor \<Rightarrow> key_op list \<Rightarrow> bool" where
  "all_keep_keys e [] = True"
| "all_keep_keys e (op # ops) = (keeps_keys e op \<and> all_keep_keys (key_step e op) ops)"

text \<open>Record framing: a record is in range if its length fits the four-byte field.\<close>

definition fits :: "(bytes \<Rightarrow> bytes \<Rightarrow> bytes \<Rightarrow> bytes) \<Rightarrow> bytes \<Rightarrow> bytes \<Rightarrow> bytes \<Rightarrow> bool" where
  "fits seal key nonce plaintext \<longleftrightarrow> int (4 + length nonce + length (seal key nonce plaintext)) < 2 ^ 32"

section \<open>Lemmas\<close>

lemma LoadKey_length: "LoadKey readf k = Inr (key, v) \<Longrightarrow> length key = 32"
  by (auto simp: LoadKey_def Let_def split: option.splits if_splits)

lemma NewWALEncryptor_inv: "rand_ok rand \<Longrightarrow> NewWALEncryptor readf rand now path = Inr e \<Longrightarrow> enc_inv e"
  by (auto simp: NewWALEncryptor_def enc_inv_def rand_ok_def Let_def dest: LoadKey_length
    split: if_splits sum.splits option.splits)

lemma RefreshKey_inv: "enc_inv e \<Longrightarrow> enc_inv (snd (RefreshKey readf now e))"
  by (auto simp: RefreshKey_def enc_inv_def dest: LoadKey_length split: option.splits sum.splits)

lemma RotateKey_inv: "rand_ok rand \<Longrightarrow> enc_inv e \<Longrightarrow> enc_inv (snd (RotateKey rand now e))"
  by (auto simp: RotateKey_def enc_inv_def rand_ok_def Let_def split: option.splits)

lemma Encrypt_Inr:
  assumes "Encrypt seal rand e p = Inr ct"
  obtains nonce where "rand NonceSize = Some nonce" and "aes_key_ok (currentKey e)"
    and "ct = be32 (uint32_of_int (int (4 + length nonce + length (seal (currentKey e) nonce p))))
           @ be32 (keyVersion e) @ nonce @ seal (currentKey e) nonce p"
  using assms by (auto simp: Encrypt_def Let_def add.assoc split: if_splits option.splits)

lemma Decrypt_frame:
  assumes "uint w = 4 + int (length nonce) + int (length body)" and "length nonce = NonceSize"
    and "aes_key_ok key" and "keyCache e v = Some key"
  shows "Decrypt gopen e (be32 w @ be32 v @ nonce @ body) = (case gopen key nonce body of
           None \<Rightarrow> Inr (Inl DecryptFailed) | Some plaintext \<Rightarrow> Inr (Inr plaintext))"
  using assms by (simp add: Decrypt_def Let_def GetKeyByVersion_def NonceSize_def nat_add_distrib)

text \<open>Decryption of an encrypted record with any encryptor that still has the key.\<close>

lemma Decrypt_record:
  assumes "gcm_ok seal gopen" and "length nonce = NonceSize" and "aes_key_ok key" and "fits seal key nonce p"
    and "keyCache e v = Some key"
  shows "Decrypt gopen e (be32 (uint32_of_int (int (4 + length nonce + length (seal key nonce p))))
           @ be32 v @ nonce @ seal key nonce p) = Inr (Inr p)"
proof -
  let ?n = "4 + length nonce + length (seal key nonce p)"
  have "uint (uint32_of_int (int ?n)) = int ?n"
    using assms(4) by (simp only: fits_def uint32_of_int_def uint_word_of_int) simp
  then have "uint (uint32_of_int (int ?n)) = 4 + int (length nonce) + int (length (seal key nonce p))" by simp
  from Decrypt_frame [where gopen = gopen, OF this assms(2,3,5)] assms(1) show ?thesis by (simp add: gcm_ok_def)
qed

lemma key_step_inv:
  "enc_inv e \<Longrightarrow> (\<forall>rand now. op = Rotate rand now \<longrightarrow> rand_ok rand) \<Longrightarrow> enc_inv (key_step e op)"
  by (cases op) (simp_all add: RotateKey_inv RefreshKey_inv)

lemma key_step_cache:
  assumes "keeps_keys e op" and "keyCache e v = Some key"
  shows "keyCache (key_step e op) v = Some key"
  using assms
  by (cases op) (auto simp: keeps_keys_def RotateKey_def RefreshKey_def Let_def split: option.splits sum.splits if_splits)

lemma keys_kept:
  "all_keep_keys e ops \<Longrightarrow> keyCache e v = Some key \<Longrightarrow> keyCache (foldl key_step e ops) v = Some key"
  by (induction ops arbitrary: e) (auto dest: key_step_cache)

section \<open>Properties\<close>



text \<open>When \<open>Decrypt\<close> panics, exactly: on an input of at least 8 bytes whose version is known and whose
  length field announces less than a version and a nonce (below 16) but no more than is there. The
  check for short ciphertexts does not cover it.\<close>

theorem Decrypt_panics_iff:
  assumes "enc_inv e"
  shows "Decrypt gopen e ct = Inl p \<longleftrightarrow> p = SliceBounds \<and> 8 \<le> length ct
    \<and> keyCache e (read32 (take 4 (drop 4 ct))) \<noteq> None \<and> uint (read32 (take 4 ct)) < 16
    \<and> uint (read32 (take 4 ct)) \<le> int (length ct) - 4"
  using assms
  by (auto simp: Decrypt_def Let_def GetKeyByVersion_def enc_inv_def aes_key_ok_def NonceSize_def
    split: option.splits if_splits)

theorem Decrypt_panics_iff_witness:
  "Decrypt (\<lambda>key nonce ct. Some ct) \<lparr>currentKey = replicate 32 7, keyVersion = 1, keyCache = [1 \<mapsto> replicate 32 7],
        keyCacheTime = 0, enc_secretPath = [], keyLoader = None\<rparr> (be32 5 @ be32 1 @ [0]) = Inl SliceBounds"
proof -
  let ?e = "\<lparr>currentKey = replicate 32 7, keyVersion = 1, keyCache = [1 \<mapsto> replicate 32 7],
        keyCacheTime = 0, enc_secretPath = [], keyLoader = None\<rparr>"
  have "enc_inv ?e" by (simp add: enc_inv_def)
  from Decrypt_panics_iff [OF this, of "\<lambda>key nonce ct. Some ct" "be32 5 @ be32 1 @ [0]" SliceBounds] show ?thesis by simp
qed

end
