(* ===== verification/Go_Files.thy ===== *)
theory Go_Files
  imports Go_Strings "HOL-Library.Char_ord" "HOL-Library.List_Lexorder"
begin

text \<open>
  One directory of the operating system's file system, as the packages that keep files see it: an
  association list from names to files. \<open>os.ReadDir\<close> returns the entries sorted by name, so the order
  of the list itself is never observed. Which system calls fail in a given call is an argument
  \<open>fails\<close> of the operations.
\<close>

section \<open>Definitions\<close>

record disk_file =
  fl_data :: bytes
  fl_mtime :: int
  fl_isdir :: bool

type_synonym dir = "(string \<times> disk_file) list"

datatype os_op =
    OpMkdir | OpReadDir | OpStat string | OpOpen string | OpCreate string | OpClose string
  | OpRemove string | OpWrite string | OpRead string | OpRename string string | OpSync string

definition dir_put :: "string \<Rightarrow> disk_file \<Rightarrow> dir \<Rightarrow> dir" where
  "dir_put name f d = (name, f) # filter (\<lambda>e. fst e \<noteq> name) d"

definition dir_remove :: "string \<Rightarrow> dir \<Rightarrow> dir" where
  "dir_remove name d = filter (\<lambda>e. fst e \<noteq> name) d"

definition ReadDir :: "dir \<Rightarrow> dir" where
  "ReadDir d = sort_key fst d"

definition plain_file :: "bytes \<Rightarrow> int \<Rightarrow> disk_file" where
  "plain_file data t = \<lparr>fl_data = data, fl_mtime = t, fl_isdir = False\<rparr>"

text \<open>\<open>os.WriteFile\<close>: a failing open leaves the directory, a failing write a truncated file with the
  first \<open>short\<close> bytes.\<close>

definition WriteFile :: "(os_op \<Rightarrow> bool) \<Rightarrow> nat \<Rightarrow> int \<Rightarrow> string \<Rightarrow> bytes \<Rightarrow> dir \<Rightarrow> os_op option \<times> dir" where
  "WriteFile fail short now name data d =
     (if fail (OpCreate name) then (Some (OpCreate name), d)
      else if fail (OpWrite name) then (Some (OpWrite name), dir_put name (plain_file (take short data) now) d)
      else (if fail (OpClose name) then Some (OpClose name) else None, dir_put name (plain_file data now) d))"

text \<open>The environment of a call: the clock, the system calls that fail, and how much a failing write wrote.\<close>

record disk_env =
  de_now :: int
  de_fails :: "os_op \<Rightarrow> bool"
  de_short :: nat

text \<open>\<open>os.Rename\<close> that succeeds: it replaces an existing file.\<close>

definition os_Rename :: "string \<Rightarrow> string \<Rightarrow> dir \<Rightarrow> dir" where
  "os_Rename old new d = (case map_of d old of None \<Rightarrow> d | Some f \<Rightarrow> dir_put new f (dir_remove old d))"

text \<open>
  The exchange sort written out in several places: \<open>for i, for j = i+1.., if files[i] > files[j] swap\<close>.
  \<open>exchange_pass key x ys\<close> is the inner loop with \<open>x\<close> at position \<open>i\<close> and \<open>ys\<close> behind it.
\<close>

fun exchange_pass :: "('a \<Rightarrow> 'b :: linorder) \<Rightarrow> 'a \<Rightarrow> 'a list \<Rightarrow> 'a \<times> 'a list" where
  "exchange_pass key x [] = (x, [])"
| "exchange_pass key x (y # ys) =
     (if key y < key x then (let (m, zs) = exchange_pass key y ys in (m, x # zs))
      else (let (m, zs) = exchange_pass key x ys in (m, y # zs)))"

lemma exchange_pass_length [simp]: "length (snd (exchange_pass key x ys)) = length ys"
  by (induction key x ys rule: exchange_pass.induct) (auto simp: split_def Let_def)

function exchange_sort :: "('a \<Rightarrow> 'b :: linorder) \<Rightarrow> 'a list \<Rightarrow> 'a list" where
  "exchange_sort key [] = []"
| "exchange_sort key (x # xs) = (let (m, zs) = exchange_pass key x xs in m # exchange_sort key zs)"
  by pat_completeness auto
termination
proof (relation "measure (\<lambda>(key, xs). length xs)")
  fix key :: "'a \<Rightarrow> 'b" and x xs p m zs
  assume "p = exchange_pass key x xs" and "(m, zs) = p"
  then have "exchange_pass key x xs = (m, zs)" by simp
  then have "zs = snd (exchange_pass key x xs)" by simp
  then show "((key, zs), (key, x # xs)) \<in> measure (\<lambda>(key, xs). length xs)" by simp
qed simp

section \<open>The sort\<close>

lemma exchange_pass_Cons:
  assumes "exchange_pass key x (y # ys) = (m, zs)"
  obtains (swap) zs' where "key y < key x" "exchange_pass key y ys = (m, zs')" "zs = x # zs'"
  | (keep) zs' where "key x \<le> key y" "exchange_pass key x ys = (m, zs')" "zs = y # zs'"
proof (cases "key y < key x")
  case True
  with assms have "exchange_pass key y ys = (m, tl zs)" "zs = x # tl zs"
    by (auto simp: Let_def split: prod.splits)
  with True show ?thesis by (rule swap)
next
  case False
  with assms have "exchange_pass key x ys = (m, tl zs)" "zs = y # tl zs"
    by (auto simp: Let_def split: prod.splits)
  with False show ?thesis by (intro keep) simp_all
qed

lemma exchange_pass_mset: "exchange_pass key x ys = (m, zs) \<Longrightarrow> add_mset m (mset zs) = add_mset x (mset ys)"
proof (induction ys arbitrary: x m zs)
  case (Cons y ys)
  from Cons.prems show ?case
  proof (cases rule: exchange_pass_Cons)
    case (swap zs')
    from Cons.IH [OF swap(2)] swap(3) show ?thesis by (metis add_mset_commute mset.simps(2))
  next
    case (keep zs')
    from Cons.IH [OF keep(2)] keep(3) show ?thesis by (metis add_mset_commute mset.simps(2))
  qed
qed simp

lemma exchange_pass_min: "exchange_pass key x ys = (m, zs) \<Longrightarrow> key m \<le> key x \<and> (\<forall>z \<in> set zs. key m \<le> key z)"
proof (induction ys arbitrary: x m zs)
  case (Cons y ys)
  from Cons.prems show ?case
  proof (cases rule: exchange_pass_Cons)
    case (swap zs')
    from Cons.IH [OF swap(2)] swap(1,3) show ?thesis by auto
  next
    case (keep zs')
    from Cons.IH [OF keep(2)] keep(1,3) show ?thesis by auto
  qed
qed simp

lemma exchange_sort_mset [simp]: "mset (exchange_sort key xs) = mset xs"
proof (induction key xs rule: exchange_sort.induct)
  case (2 key x xs)
  obtain m zs where p: "exchange_pass key x xs = (m, zs)" by force
  with 2 exchange_pass_mset [OF p] show ?case by simp
qed simp

lemma exchange_sort_sorted: "sorted (map key (exchange_sort key xs))"
proof (induction key xs rule: exchange_sort.induct)
  case (2 key x xs)
  obtain m zs where p: "exchange_pass key x xs = (m, zs)" by force
  moreover have "set (exchange_sort key zs) = set zs" by (metis exchange_sort_mset set_mset_mset)
  ultimately show ?case using 2 exchange_pass_min [OF p] by simp
qed simp

text \<open>With distinct keys the result is the sorted list.\<close>

lemma exchange_sort_unique:
  assumes "mset xs = mset ys" and "inj_on key (set ys)" and "sorted (map key ys)"
  shows "exchange_sort key xs = ys"
proof -
  have "mset ys = mset (exchange_sort key xs)" using assms by simp
  then have "sort_key key ys = exchange_sort key xs"
    using assms(2) exchange_sort_sorted by (rule sort_key_inj_key_eq)
  moreover have "sort_key key ys = ys" using assms by (intro sort_key_inj_key_eq) simp_all
  ultimately show ?thesis by simp
qed

section \<open>Directories\<close>

lemma map_of_dir_put [simp]: "map_of (dir_put name f d) n = (if n = name then Some f else map_of d n)"
proof -
  have "map_of (filter (\<lambda>e. fst e \<noteq> name) d) n = map_of d n" if "n \<noteq> name"
    using that by (induction d) auto
  then show ?thesis by (simp add: dir_put_def)
qed

lemma map_of_dir_remove [simp]: "map_of (dir_remove name d) n = (if n = name then None else map_of d n)"
proof -
  have "map_of (filter (\<lambda>e. fst e \<noteq> name) d) n = (if n = name then None else map_of d n)"
    by (induction d) auto
  then show ?thesis by (simp add: dir_remove_def)
qed

lemma distinct_map_filter_fst: "distinct (map fst d) \<Longrightarrow> distinct (map fst (filter P d))"
  by (rule distinct_map_filter)

lemma distinct_dir_put [simp]: "distinct (map fst d) \<Longrightarrow> distinct (map fst (dir_put name f d))"
  by (auto simp: dir_put_def distinct_map_filter_fst)

lemma distinct_dir_remove [simp]: "distinct (map fst d) \<Longrightarrow> distinct (map fst (dir_remove name d))"
  by (simp add: dir_remove_def distinct_map_filter_fst)

lemma mset_ReadDir [simp]: "mset (ReadDir d) = mset d"
  by (simp add: ReadDir_def)

end
