(* ===== verification/Wal_Files.thy ===== *)
theory Wal_Files
  imports Wal_Encryptor Go_Files
begin

text \<open>
  \<open>src/internal/wal/encryptor.go\<close>, lines 100 to 143 and 329 to 701: the rolling WAL writer and the
  reader, over a directory. Every public method holds the mutex for its whole body. An environment
  carries what a call meets outside the program: the clock, the system calls that fail and how many
  bytes reach the disk when a write fails, and the random source.
\<close>

section \<open>Data\<close>

definition DefaultMaxFileSize :: int where "DefaultMaxFileSize = 100 * 1024 * 1024"
definition DefaultRollingInterval :: int where "DefaultRollingInterval = 5 * 60 * 10 ^ 9"
definition DefaultMaxFiles :: int where "DefaultMaxFiles = 10"
definition FileExtension :: string where "FileExtension = ''.wal.enc''"

datatype file_error = EncryptError wal_error | OsError os_op | FileClosed | FileInvalid

record wal_env =
  now_of :: int
  fails :: "os_op \<Rightarrow> bool"
  short_write :: nat
  rand_of :: "nat \<Rightarrow> bytes option"

text \<open>The open file of a writer: its name and whether the handle is still open.\<close>

record WALWriter =
  ww_currentFile :: "(string \<times> bool) option"
  ww_currentName :: string
  ww_currentSize :: int
  ww_currentTime :: int
  ww_encryptor :: WALEncryptor
  ww_maxFileSize :: int
  ww_rollingInterval :: int
  ww_maxFiles :: int
  ww_currentIndex :: u64

record walFileInfo =
  wf_name :: string
  wf_index :: u64
  wf_modTime :: int
  wf_size :: int

record WALReader =
  wr_encryptor :: WALEncryptor
  wr_files :: "(string \<times> bool) list"

section \<open>Listing\<close>

definition is_wal :: "string \<times> disk_file \<Rightarrow> bool" where
  "is_wal e \<longleftrightarrow> \<not> fl_isdir (snd e) \<and> HasSuffix (fst e) FileExtension"

definition wal_info :: "string \<times> disk_file \<Rightarrow> walFileInfo" where
  "wal_info e = \<lparr>wf_name = fst e, wf_index = of_nat (scan_uint (Some 6) 64 (fst e)),
     wf_modTime = fl_mtime (snd e), wf_size = int (length (fl_data (snd e)))\<rparr>"

definition getWALFiles :: "wal_env \<Rightarrow> dir \<Rightarrow> file_error + walFileInfo list" where
  "getWALFiles env d =
     (if fails env OpReadDir then Inl (OsError OpReadDir)
      else Inr (exchange_sort wf_index (map wal_info (filter is_wal (ReadDir d)))))"

section \<open>The writer\<close>

definition wal_name :: "nat \<Rightarrow> string" where
  "wal_name i = dec_padded 6 i @ FileExtension"

definition openCurrentFile :: "wal_env \<Rightarrow> WALWriter \<Rightarrow> dir \<Rightarrow> file_error option \<times> WALWriter \<times> dir" where
  "openCurrentFile env w d =
     (let filename = wal_name (unat (ww_currentIndex w)) in
      case (if fails env (OpStat filename) then None else map_of d filename) of
        Some info \<Rightarrow>
          if fails env (OpOpen filename) \<or> fl_isdir info then (Some (OsError (OpOpen filename)), w, d)
          else (None, w\<lparr>ww_currentFile := Some (filename, True), ww_currentName := filename,
                 ww_currentSize := int (length (fl_data info)), ww_currentTime := fl_mtime info\<rparr>, d)
      | None \<Rightarrow>
          if fails env (OpCreate filename) \<or> (\<exists>f \<in> set_option (map_of d filename). fl_isdir f)
          then (Some (OsError (OpCreate filename)), w, d)
          else (None, w\<lparr>ww_currentFile := Some (filename, True), ww_currentName := filename,
                 ww_currentSize := 0, ww_currentTime := now_of env\<rparr>,
                dir_put filename (plain_file [] (now_of env)) d))"

text \<open>\<open>os.File.Close\<close>: an error on a handle already closed; a failing close still closes the handle.\<close>

definition close_file :: "wal_env \<Rightarrow> string \<times> bool \<Rightarrow> file_error option \<times> (string \<times> bool)" where
  "close_file env h = (case h of (name, is_open) \<Rightarrow>
     if \<not> is_open then (Some FileClosed, h)
     else (if fails env (OpClose name) then Some (OsError (OpClose name)) else None, (name, False)))"

fun cleanup_loop :: "wal_env \<Rightarrow> int \<Rightarrow> walFileInfo list \<Rightarrow> dir \<Rightarrow> panic + (file_error option \<times> dir)" where
  "cleanup_loop env maxFiles [] d = (if maxFiles < 0 then Inl IndexOutOfRange else Inr (None, d))"
| "cleanup_loop env maxFiles (oldest # files) d =
     (if maxFiles < int (length (oldest # files)) then
        (if fails env (OpRemove (wf_name oldest)) then Inr (Some (OsError (OpRemove (wf_name oldest))), d)
         else cleanup_loop env maxFiles files (dir_remove (wf_name oldest) d))
      else Inr (None, d))"

definition cleanupOldFiles :: "wal_env \<Rightarrow> WALWriter \<Rightarrow> dir \<Rightarrow> panic + (file_error option \<times> dir)" where
  "cleanupOldFiles env w d = (case getWALFiles env d of
      Inl err \<Rightarrow> Inr (Some err, d)
    | Inr files \<Rightarrow> cleanup_loop env (ww_maxFiles w) files d)"

definition doRollFile :: "wal_env \<Rightarrow> WALWriter \<Rightarrow> dir \<Rightarrow> panic + (file_error option \<times> WALWriter \<times> dir)" where
  "doRollFile env w d =
     (let (cerr, h) = (case ww_currentFile w of
            None \<Rightarrow> (None, None)
          | Some f \<Rightarrow> (let (e, f') = close_file env f in (e, Some f')));
          w1 = w\<lparr>ww_currentFile := h\<rparr>
      in case cerr of
          Some err \<Rightarrow> Inr (Some err, w1, d)
        | None \<Rightarrow>
            let w2 = w1\<lparr>ww_currentIndex := ww_currentIndex w1 + 1\<rparr> in
            (case openCurrentFile env w2 d of
               (Some err, w3, d1) \<Rightarrow> Inr (Some err, w3, d1)
             | (None, w3, d1) \<Rightarrow>
                 go_bind (cleanupOldFiles env w3 d1) (\<lambda>(err, d2). Inr (err, w3, d2))))"

text \<open>
  \<open>os.File.Write\<close> through the handle: the bytes go to the file of that name, or nowhere if it has been
  unlinked; a failing write puts the first \<open>short_write\<close> bytes on disk and returns an error.
\<close>

definition append_file :: "int \<Rightarrow> string \<Rightarrow> bytes \<Rightarrow> dir \<Rightarrow> dir" where
  "append_file now name bs d = (case map_of d name of
      None \<Rightarrow> d
    | Some f \<Rightarrow> dir_put name (f\<lparr>fl_data := fl_data f @ bs, fl_mtime := now\<rparr>) d)"

definition file_write :: "wal_env \<Rightarrow> (string \<times> bool) option \<Rightarrow> bytes \<Rightarrow> dir \<Rightarrow> (file_error + nat) \<times> dir" where
  "file_write env h bs d = (case h of
      None \<Rightarrow> (Inl FileInvalid, d)
    | Some (name, is_open) \<Rightarrow>
        if \<not> is_open then (Inl FileClosed, d)
        else if fails env (OpWrite name)
        then (Inl (OsError (OpWrite name)), append_file (now_of env) name (take (short_write env) bs) d)
        else (Inr (length bs), append_file (now_of env) name bs d))"

definition wal_Write ::
  "(bytes \<Rightarrow> bytes \<Rightarrow> bytes \<Rightarrow> bytes) \<Rightarrow> wal_env \<Rightarrow> WALWriter \<Rightarrow> dir \<Rightarrow> bytes
    \<Rightarrow> panic + (file_error option \<times> WALWriter \<times> dir)" where
  "wal_Write seal env w d data = (case Encrypt seal (rand_of env) (ww_encryptor w) data of
      Inl err \<Rightarrow> Inr (Some (EncryptError err), w, d)
    | Inr encrypted \<Rightarrow>
        let needRoll = (ww_maxFileSize w < ww_currentSize w + int (length encrypted)
              \<or> ww_rollingInterval w < now_of env - ww_currentTime w)
        in go_bind (if needRoll then doRollFile env w d else Inr (None, w, d)) (\<lambda>(err, w1, d1).
          case err of
            Some e \<Rightarrow> Inr (Some e, w1, d1)
          | None \<Rightarrow> (case file_write env (ww_currentFile w1) encrypted d1 of
                (Inl e, d2) \<Rightarrow> Inr (Some e, w1, d2)
              | (Inr n, d2) \<Rightarrow> Inr (None, w1\<lparr>ww_currentSize := ww_currentSize w1 + int n\<rparr>, d2))))"

definition wal_Close :: "wal_env \<Rightarrow> WALWriter \<Rightarrow> file_error option \<times> WALWriter" where
  "wal_Close env w = (case ww_currentFile w of
      None \<Rightarrow> (None, w)
    | Some f \<Rightarrow> (let (err, f') = close_file env f in (err, w\<lparr>ww_currentFile := Some f'\<rparr>)))"

definition NewWALWriterWithConfig ::
  "wal_env \<Rightarrow> dir \<Rightarrow> WALEncryptor \<Rightarrow> int \<Rightarrow> int \<Rightarrow> int \<Rightarrow> (file_error + WALWriter) \<times> dir" where
  "NewWALWriterWithConfig env d encryptor maxFileSize rollingInterval maxFiles =
     (if fails env OpMkdir then (Inl (OsError OpMkdir), d)
      else (case getWALFiles env d of
          Inl err \<Rightarrow> (Inl err, d)
        | Inr files \<Rightarrow>
            let w = \<lparr>ww_currentFile = None, ww_currentName = '''', ww_currentSize = 0, ww_currentTime = 0,
                  ww_encryptor = encryptor, ww_maxFileSize = maxFileSize,
                  ww_rollingInterval = rollingInterval, ww_maxFiles = maxFiles,
                  ww_currentIndex = (if files \<noteq> [] then wf_index (last files) + 1 else 1)\<rparr>
            in (case openCurrentFile env w d of
                (Some err, w1, d1) \<Rightarrow> (Inl err, d1)
              | (None, w1, d1) \<Rightarrow> (Inr w1, d1))))"

definition NewWALWriter :: "wal_env \<Rightarrow> dir \<Rightarrow> WALEncryptor \<Rightarrow> (file_error + WALWriter) \<times> dir" where
  "NewWALWriter env d encryptor =
     NewWALWriterWithConfig env d encryptor DefaultMaxFileSize DefaultRollingInterval DefaultMaxFiles"

section \<open>The reader\<close>

definition NewWALReader :: "WALEncryptor \<Rightarrow> WALReader" where
  "NewWALReader encryptor = \<lparr>wr_encryptor = encryptor, wr_files = []\<rparr>"

text \<open>The loop of \<open>readFile\<close> on the bytes from \<open>offset\<close> on.\<close>

function read_records ::
  "(bytes \<Rightarrow> bytes \<Rightarrow> bytes \<Rightarrow> bytes option) \<Rightarrow> WALEncryptor \<Rightarrow> bytes \<Rightarrow> panic + bytes list" where
  "read_records gopen e data =
     (if data = [] then Inr []
      else if length data < 4 then Inr []
      else let recordLen = 4 + unat (read32 (take 4 data))
      in if length data < recordLen then Inr []
         else (case Decrypt gopen e (take recordLen data) of
             Inl p \<Rightarrow> Inl p
           | Inr (Inl err) \<Rightarrow> Inr []
           | Inr (Inr plaintext) \<Rightarrow>
               go_bind (read_records gopen e (drop recordLen data)) (\<lambda>rest. Inr (plaintext # rest))))"
  by pat_completeness auto
termination
  by (relation "measure (\<lambda>(gopen, e, data). length data)") auto

declare read_records.simps [simp del]

definition readFile ::
  "(bytes \<Rightarrow> bytes \<Rightarrow> bytes \<Rightarrow> bytes option) \<Rightarrow> wal_env \<Rightarrow> WALEncryptor \<Rightarrow> dir \<Rightarrow> string
    \<Rightarrow> panic + (file_error + bytes list)" where
  "readFile gopen env e d filename =
     (case (if fails env (OpRead filename) then None else map_of d filename) of
        None \<Rightarrow> Inr (Inl (OsError (OpRead filename)))
      | Some f \<Rightarrow> go_bind (read_records gopen e (fl_data f)) (\<lambda>rs. Inr (Inr rs)))"

fun read_files ::
  "(bytes \<Rightarrow> bytes \<Rightarrow> bytes \<Rightarrow> bytes option) \<Rightarrow> wal_env \<Rightarrow> WALEncryptor \<Rightarrow> dir \<Rightarrow> walFileInfo list
    \<Rightarrow> panic + (file_error + bytes list)" where
  "read_files gopen env e d [] = Inr (Inr [])"
| "read_files gopen env e d (f # fs) =
     go_bind (readFile gopen env e d (wf_name f)) (\<lambda>r. case r of
         Inl err \<Rightarrow> Inr (Inl err)
       | Inr data \<Rightarrow> go_bind (read_files gopen env e d fs) (\<lambda>r'. case r' of
             Inl err \<Rightarrow> Inr (Inl err) | Inr rest \<Rightarrow> Inr (Inr (data @ rest))))"

definition ReadAll ::
  "(bytes \<Rightarrow> bytes \<Rightarrow> bytes \<Rightarrow> bytes option) \<Rightarrow> wal_env \<Rightarrow> WALReader \<Rightarrow> dir \<Rightarrow> panic + (file_error + bytes list)" where
  "ReadAll gopen env r d = (case getWALFiles env d of
      Inl err \<Rightarrow> Inr (Inl err)
    | Inr files \<Rightarrow> read_files gopen env (wr_encryptor r) d files)"

fun close_all :: "wal_env \<Rightarrow> (string \<times> bool) list \<Rightarrow> file_error option" where
  "close_all env [] = None"
| "close_all env (f # fs) = (case fst (close_file env f) of Some e \<Rightarrow> Some e | None \<Rightarrow> close_all env fs)"

definition reader_Close :: "wal_env \<Rightarrow> WALReader \<Rightarrow> file_error option" where
  "reader_Close env r = close_all env (wr_files r)"

section \<open>Specification\<close>

text \<open>A frame: bytes whose length field is right and that decrypt to a plaintext.\<close>

definition frame :: "(bytes \<Rightarrow> bytes \<Rightarrow> bytes \<Rightarrow> bytes option) \<Rightarrow> WALEncryptor \<Rightarrow> bytes \<Rightarrow> bytes \<Rightarrow> bool" where
  "frame gopen e r p \<longleftrightarrow> 8 \<le> length r \<and> length r = 4 + unat (read32 (take 4 r)) \<and> Decrypt gopen e r = Inr (Inr p)"

text \<open>A file content that is a sequence of frames for the given plaintexts.\<close>

inductive framed :: "(bytes \<Rightarrow> bytes \<Rightarrow> bytes \<Rightarrow> bytes option) \<Rightarrow> WALEncryptor \<Rightarrow> bytes \<Rightarrow> bytes list \<Rightarrow> bool"
  for gopen e where
  framed_Nil: "framed gopen e [] []"
| framed_Cons: "frame gopen e r p \<Longrightarrow> framed gopen e data ps \<Longrightarrow> framed gopen e (r @ data) (p # ps)"

text \<open>
  The log as its clients see it is a sequence of segments, one per file, from index \<open>lo\<close> to \<open>hi\<close>: the
  plaintexts of segment \<open>i\<close> are \<open>S i\<close>. The directory implements it if its WAL files are exactly the
  files of those indices, each a sequence of frames, and the writer has the last one open.
\<close>

definition wal_dir :: "(bytes \<Rightarrow> bytes \<Rightarrow> bytes \<Rightarrow> bytes option) \<Rightarrow> WALEncryptor \<Rightarrow> dir
    \<Rightarrow> nat \<Rightarrow> nat \<Rightarrow> (nat \<Rightarrow> bytes list) \<Rightarrow> bool" where
  "wal_dir gopen e d lo hi S \<longleftrightarrow> lo \<le> hi \<and> hi < 10 ^ 6 \<and> distinct (map fst d)
     \<and> (\<exists>F. mset (filter is_wal d) = mset (map (\<lambda>i. (wal_name i, F i)) [lo ..< Suc hi])
          \<and> (\<forall>i \<in> {lo .. hi}. framed gopen e (fl_data (F i)) (S i)))"

definition wal_inv :: "(bytes \<Rightarrow> bytes \<Rightarrow> bytes \<Rightarrow> bytes option) \<Rightarrow> WALWriter \<Rightarrow> dir
    \<Rightarrow> nat \<Rightarrow> nat \<Rightarrow> (nat \<Rightarrow> bytes list) \<Rightarrow> bool" where
  "wal_inv gopen w d lo hi S \<longleftrightarrow> wal_dir gopen (ww_encryptor w) d lo hi S
     \<and> unat (ww_currentIndex w) = hi \<and> ww_currentFile w = Some (wal_name hi, True)"

definition log_of :: "nat \<Rightarrow> nat \<Rightarrow> (nat \<Rightarrow> bytes list) \<Rightarrow> bytes list" where
  "log_of lo hi S = concat (map S [lo ..< Suc hi])"

text \<open>A history of writes that all succeed.\<close>

fun wal_run ::
  "(bytes \<Rightarrow> bytes \<Rightarrow> bytes \<Rightarrow> bytes) \<Rightarrow> WALWriter \<Rightarrow> dir \<Rightarrow> (wal_env \<times> bytes) list \<Rightarrow> (WALWriter \<times> dir) option" where
  "wal_run seal w d [] = Some (w, d)"
| "wal_run seal w d ((env, p) # ws) = (case wal_Write seal env w d p of
      Inr (None, w', d') \<Rightarrow> wal_run seal w' d' ws | _ \<Rightarrow> None)"

text \<open>The random source works and the record fits its length field.\<close>

definition write_ok :: "(bytes \<Rightarrow> bytes \<Rightarrow> bytes \<Rightarrow> bytes) \<Rightarrow> WALEncryptor \<Rightarrow> wal_env \<times> bytes \<Rightarrow> bool" where
  "write_ok seal e x \<longleftrightarrow> rand_ok (rand_of (fst x))
     \<and> fits seal (currentKey e) (the (rand_of (fst x) NonceSize)) (snd x)"

text \<open>An environment without failures and an encryptor with one key, for concrete runs.\<close>

definition demo_env :: wal_env where
  "demo_env = \<lparr>now_of = 0, fails = \<lambda>_. False, short_write = 0, rand_of = \<lambda>n. Some (replicate n 4)\<rparr>"

definition demo_encryptor :: WALEncryptor where
  "demo_encryptor = \<lparr>currentKey = replicate 32 7, keyVersion = 1, keyCache = [1 \<mapsto> replicate 32 7],
     keyCacheTime = 0, enc_secretPath = [], keyLoader = None\<rparr>"

section \<open>Frames\<close>

lemma read_records_Nil [simp]: "read_records gopen e [] = Inr []"
  by (simp add: read_records.simps)

lemma read_records_frame:
  assumes "frame gopen e r p"
  shows "read_records gopen e (r @ data) = go_bind (read_records gopen e data) (\<lambda>rest. Inr (p # rest))"
proof -
  have len: "8 \<le> length r" "length r = 4 + unat (read32 (take 4 r))" using assms by (auto simp: frame_def)
  then have "take 4 (r @ data) = take 4 r" "r \<noteq> []" by auto
  with len assms show ?thesis by (subst read_records.simps) (simp add: frame_def Let_def)
qed

lemma framed_read: "framed gopen e data ps \<Longrightarrow> read_records gopen e data = Inr ps"
  by (induction rule: framed.induct) (simp_all add: read_records_frame)

text \<open>An incomplete frame at the end is ignored.\<close>

lemma read_records_partial:
  assumes "frame gopen e r p" and "k < length r"
  shows "read_records gopen e (take k r) = Inr []"
proof (cases "k < 4")
  case False
  then have "take 4 (take k r) = take 4 r" by (simp add: min_def)
  then show ?thesis using assms False by (subst read_records.simps) (simp add: frame_def Let_def)
next
  case True
  then have "length (take k r) < 4" by simp
  then show ?thesis by (simp add: read_records.simps [of gopen e "take k r"])
qed

lemma framed_read_partial:
  assumes "framed gopen e data ps" and "frame gopen e r p" and "k < length r"
  shows "read_records gopen e (data @ take k r) = Inr ps"
  using assms by (induction rule: framed.induct) (simp_all add: read_records_frame read_records_partial)

lemma framed_snoc:
  assumes "framed gopen e data ps" and "frame gopen e r p"
  shows "framed gopen e (data @ r) (ps @ [p])"
  using assms
proof (induction rule: framed.induct)
  case framed_Nil
  then show ?case using framed.framed_Cons [OF _ framed.framed_Nil] by simp
next
  case (framed_Cons r' p' data ps)
  then show ?case by (simp add: framed.framed_Cons)
qed

lemma Encrypt_frame:
  assumes "gcm_ok seal gopen" and "rand_ok rand" and "enc_inv e"
    and "Encrypt seal rand e p = Inr r" and "fits seal (currentKey e) (the (rand NonceSize)) p"
  shows "frame gopen e r p"
proof -
  from assms(4) obtain nonce where n: "rand NonceSize = Some nonce" "aes_key_ok (currentKey e)"
    "r = be32 (uint32_of_int (int (4 + length nonce + length (seal (currentKey e) nonce p))))
           @ be32 (keyVersion e) @ nonce @ seal (currentKey e) nonce p" by (rule Encrypt_Inr)
  let ?n = "4 + length nonce + length (seal (currentKey e) nonce p)"
  have "length nonce = NonceSize" using assms(2) n(1) by (simp add: rand_ok_def)
  then have "Decrypt gopen e r = Inr (Inr p)"
    using Decrypt_record [OF assms(1)] n assms(3,5) by (simp add: enc_inv_def)
  moreover have "uint (uint32_of_int (int ?n)) = int ?n"
    using assms(5) n(1) by (simp only: fits_def uint32_of_int_def uint_word_of_int option.sel) simp
  then have "int (unat (uint32_of_int (int ?n))) = int ?n" by simp
  then have "unat (uint32_of_int (int ?n)) = ?n" by linarith
  ultimately show ?thesis using n(3) by (simp add: frame_def)
qed

section \<open>Names and listings\<close>

lemma wal_name_inj [simp]: "wal_name i = wal_name j \<longleftrightarrow> i = j"
  by (simp add: wal_name_def)

lemma wal_name_suffix [simp]: "HasSuffix (wal_name i) FileExtension"
  by (simp add: wal_name_def)

lemma wal_name_scan: "i < 10 ^ 6 \<Longrightarrow> scan_uint (Some 6) 64 (wal_name i) = i"
  unfolding wal_name_def by (rule scan_padded) simp_all

lemma wal_info_index: "i < 10 ^ 6 \<Longrightarrow> unat (wf_index (wal_info (wal_name i, f))) = i"
  by (simp add: wal_info_def wal_name_scan unat_of_nat)

lemma is_wal_name: "is_wal (wal_name i, f) \<longleftrightarrow> \<not> fl_isdir f"
  by (simp add: is_wal_def)

lemma getWALFiles_eq:
  assumes "mset (filter is_wal d) = mset (map (\<lambda>i. (wal_name i, F i)) [lo ..< Suc hi])"
    and "hi < 10 ^ 6" and "\<not> fails env OpReadDir"
  shows "getWALFiles env d = Inr (map (\<lambda>i. wal_info (wal_name i, F i)) [lo ..< Suc hi])"
proof -
  let ?fs = "map (\<lambda>i. wal_info (wal_name i, F i)) [lo ..< Suc hi]"
  have "mset (map wal_info (filter is_wal (ReadDir d))) = mset ?fs"
  proof -
    have "mset (map wal_info (filter is_wal (ReadDir d))) = image_mset wal_info (mset (filter is_wal d))" by simp
    also have "\<dots> = mset ?fs" unfolding assms(1) mset_map [symmetric] map_map o_def ..
    finally show ?thesis .
  qed
  moreover have ord: "wf_index (wal_info (wal_name i, F i)) \<le> wf_index (wal_info (wal_name j, F j)) \<longleftrightarrow> i \<le> j"
    if "i < Suc hi" "j < Suc hi" for i j
    using that assms(2) by (simp add: word_le_nat_alt wal_info_index)
  have "sorted (map wf_index ?fs)"
    by (auto simp: sorted_iff_nth_mono ord o_def simp del: upt_Suc)
  moreover have "inj_on wf_index (set ?fs)"
  proof (rule inj_onI)
    fix a b
    assume "a \<in> set ?fs" "b \<in> set ?fs" "wf_index a = wf_index b"
    then obtain i j where "a = wal_info (wal_name i, F i)" "b = wal_info (wal_name j, F j)" "i < Suc hi" "j < Suc hi"
      by (auto simp del: upt_Suc)
    with ord [of i j] ord [of j i] \<open>wf_index a = wf_index b\<close> show "a = b" by simp
  qed
  ultimately have "exchange_sort wf_index (map wal_info (filter is_wal (ReadDir d))) = ?fs"
    by (intro exchange_sort_unique)
  then show ?thesis using assms(3) by (simp add: getWALFiles_def)
qed

section \<open>The directory as a sequence of segments\<close>

lemma wal_dir_member:
  assumes "wal_dir gopen e d lo hi S" and "lo \<le> i" and "i \<le> hi"
  obtains f where "map_of d (wal_name i) = Some f" "\<not> fl_isdir f" "framed gopen e (fl_data f) (S i)"
proof -
  from assms(1) obtain F where F: "mset (filter is_wal d) = mset (map (\<lambda>i. (wal_name i, F i)) [lo ..< Suc hi])"
    "\<forall>i \<in> {lo .. hi}. framed gopen e (fl_data (F i)) (S i)" by (auto simp: wal_dir_def)
  from assms(2,3) have "(wal_name i, F i) \<in> set (map (\<lambda>i. (wal_name i, F i)) [lo ..< Suc hi])"
    by (simp del: upt_Suc)
  then have "(wal_name i, F i) \<in> set (filter is_wal d)" by (metis F(1) set_mset_mset)
  then have "map_of d (wal_name i) = Some (F i)" "\<not> fl_isdir (F i)"
    using assms(1) by (auto simp: wal_dir_def is_wal_name)
  then show ?thesis using that F(2) assms(2,3) by simp
qed

lemma wal_dir_not_member:
  assumes "wal_dir gopen e d lo hi S" and "i < lo \<or> hi < i"
  shows "map_of d (wal_name i) = None \<or> (\<exists>f. map_of d (wal_name i) = Some f \<and> fl_isdir f)"
proof (rule ccontr)
  assume "\<not> ?thesis"
  then obtain f where "map_of d (wal_name i) = Some f" "\<not> fl_isdir f" by auto
  then have "(wal_name i, f) \<in> set (filter is_wal d)" by (simp add: map_of_SomeD is_wal_name)
  moreover from assms(1) obtain F where "mset (filter is_wal d) = mset (map (\<lambda>i. (wal_name i, F i)) [lo ..< Suc hi])"
    by (auto simp: wal_dir_def)
  ultimately have "(wal_name i, f) \<in> set (map (\<lambda>i. (wal_name i, F i)) [lo ..< Suc hi])" by (metis set_mset_mset)
  with assms(2) show False by (auto simp del: upt_Suc)
qed

lemma filter_wal_names:
  "mset (filter is_wal d) = mset (map (\<lambda>i. (wal_name i, F i)) is) \<Longrightarrow>
   mset (filter is_wal (filter (\<lambda>e. fst e \<noteq> wal_name k) d)) = mset (map (\<lambda>i. (wal_name i, F i)) (filter (\<lambda>i. i \<noteq> k) is))"
proof -
  assume m: "mset (filter is_wal d) = mset (map (\<lambda>i. (wal_name i, F i)) is)"
  have "mset (filter is_wal (filter (\<lambda>e. fst e \<noteq> wal_name k) d)) = mset (filter (\<lambda>e. fst e \<noteq> wal_name k) (filter is_wal d))"
    by (simp add: conj_commute)
  also have "\<dots> = filter_mset (\<lambda>e. fst e \<noteq> wal_name k) (mset (map (\<lambda>i. (wal_name i, F i)) is))"
    by (simp only: mset_filter m [symmetric])
  also have "\<dots> = mset (filter (\<lambda>e. fst e \<noteq> wal_name k) (map (\<lambda>i. (wal_name i, F i)) is))" by simp
  also have "\<dots> = mset (map (\<lambda>i. (wal_name i, F i)) (filter (\<lambda>i. i \<noteq> k) is))"
    by (simp only: filter_map o_def fst_conv wal_name_inj)
  finally show ?thesis .
qed

lemma upt_filter_neq:
  "lo \<le> hi \<Longrightarrow> filter (\<lambda>i. i \<noteq> hi) [lo ..< Suc hi] = [lo ..< hi]"
  "lo \<le> hi \<Longrightarrow> filter (\<lambda>i. i \<noteq> lo) [lo ..< Suc hi] = [Suc lo ..< Suc hi]"
  "hi < k \<Longrightarrow> filter (\<lambda>i. i \<noteq> k) [lo ..< Suc hi] = [lo ..< Suc hi]"
proof -
  show "filter (\<lambda>i. i \<noteq> hi) [lo ..< Suc hi] = [lo ..< hi]" if "lo \<le> hi"
    using that by (simp add: filter_id_conv)
  show "filter (\<lambda>i. i \<noteq> lo) [lo ..< Suc hi] = [Suc lo ..< Suc hi]" if "lo \<le> hi"
    using that by (simp add: upt_conv_Cons filter_id_conv del: upt_Suc)
  show "filter (\<lambda>i. i \<noteq> k) [lo ..< Suc hi] = [lo ..< Suc hi]" if "hi < k"
    using that by (auto simp: filter_id_conv simp del: upt_Suc)
qed

lemma wal_dirI:
  "lo \<le> hi \<Longrightarrow> hi < 10 ^ 6 \<Longrightarrow> distinct (map fst d) \<Longrightarrow>
   mset (filter is_wal d) = mset (map (\<lambda>i. (wal_name i, F i)) [lo ..< Suc hi]) \<Longrightarrow>
   \<forall>i \<in> {lo .. hi}. framed gopen e (fl_data (F i)) (S i) \<Longrightarrow> wal_dir gopen e d lo hi S"
  unfolding wal_dir_def by blast

lemma map_wal_upd:
  "lo \<le> hi \<Longrightarrow> map (\<lambda>i. (wal_name i, (F(hi := f)) i)) [lo ..< Suc hi] = map (\<lambda>i. (wal_name i, F i)) [lo ..< hi] @ [(wal_name hi, f)]"
  by simp

lemma mset_put_last:
  assumes "mset (filter is_wal d) = mset (map (\<lambda>i. (wal_name i, F i)) [lo ..< Suc hi])" and "lo \<le> hi" and "\<not> fl_isdir f"
  shows "mset (filter is_wal (dir_put (wal_name hi) f d)) = mset (map (\<lambda>i. (wal_name i, (F(hi := f)) i)) [lo ..< Suc hi])"
proof -
  have "mset (filter is_wal (dir_put (wal_name hi) f d)) = add_mset (wal_name hi, f) (mset (map (\<lambda>i. (wal_name i, F i)) [lo ..< hi]))"
    using filter_wal_names [OF assms(1), of hi] assms(2,3) by (simp add: dir_put_def is_wal_name upt_filter_neq)
  then show ?thesis unfolding map_wal_upd [OF assms(2)] by (simp del: mset_map)
qed

lemma wal_dir_append:
  assumes "wal_dir gopen e d lo hi S" and "frame gopen e r p"
  shows "wal_dir gopen e (append_file now (wal_name hi) r d) lo hi (S(hi := S hi @ [p]))"
proof -
  from assms(1) obtain F where b: "lo \<le> hi" "hi < 10 ^ 6" "distinct (map fst d)"
    and F: "mset (filter is_wal d) = mset (map (\<lambda>i. (wal_name i, F i)) [lo ..< Suc hi])"
    "\<forall>i \<in> {lo .. hi}. framed gopen e (fl_data (F i)) (S i)" by (auto simp: wal_dir_def)
  from assms(1) b(1) obtain f where f: "map_of d (wal_name hi) = Some f" "\<not> fl_isdir f" "framed gopen e (fl_data f) (S hi)"
    by (rule wal_dir_member) simp
  let ?f = "f\<lparr>fl_data := fl_data f @ r, fl_mtime := now\<rparr>" and ?F = "F(hi := f\<lparr>fl_data := fl_data f @ r, fl_mtime := now\<rparr>)"
  have "mset (filter is_wal (append_file now (wal_name hi) r d)) = mset (map (\<lambda>i. (wal_name i, ?F i)) [lo ..< Suc hi])"
    using mset_put_last [OF F(1) b(1), of ?f] f(2) by (simp only: append_file_def f(1) option.case disk_file.select_convs disk_file.update_convs) simp
  moreover have "\<forall>i \<in> {lo .. hi}. framed gopen e (fl_data (?F i)) ((S(hi := S hi @ [p])) i)"
    using F(2) framed_snoc [OF f(3) assms(2)] by simp
  moreover have "distinct (map fst (append_file now (wal_name hi) r d))" using b(3) by (simp add: append_file_def f(1))
  ultimately show ?thesis using b by (intro wal_dirI [where F = ?F])
qed

lemma wal_dir_create:
  assumes "wal_dir gopen e d lo hi S" and "Suc hi < 10 ^ 6"
  shows "wal_dir gopen e (dir_put (wal_name (Suc hi)) (plain_file [] t) d) lo (Suc hi) (S(Suc hi := []))"
proof -
  from assms(1) obtain F where b: "lo \<le> hi" "distinct (map fst d)"
    and F: "mset (filter is_wal d) = mset (map (\<lambda>i. (wal_name i, F i)) [lo ..< Suc hi])"
    "\<forall>i \<in> {lo .. hi}. framed gopen e (fl_data (F i)) (S i)" by (auto simp: wal_dir_def)
  let ?F = "F(Suc hi := plain_file [] t)"
  have "mset (filter is_wal (dir_put (wal_name (Suc hi)) (plain_file [] t) d)) =
      add_mset (wal_name (Suc hi), plain_file [] t) (mset (map (\<lambda>i. (wal_name i, F i)) [lo ..< Suc hi]))"
    using filter_wal_names [OF F(1), of "Suc hi"]
    by (simp add: dir_put_def is_wal_name plain_file_def upt_filter_neq del: upt_Suc)
  also have "\<dots> = mset (map (\<lambda>i. (wal_name i, ?F i)) [lo ..< Suc (Suc hi)])"
    unfolding map_wal_upd [OF le_SucI [OF b(1)]] by (simp del: mset_map upt_Suc)
  finally have "mset (filter is_wal (dir_put (wal_name (Suc hi)) (plain_file [] t) d)) =
      mset (map (\<lambda>i. (wal_name i, ?F i)) [lo ..< Suc (Suc hi)])" .
  moreover have "\<forall>i \<in> {lo .. Suc hi}. framed gopen e (fl_data (?F i)) ((S(Suc hi := [])) i)"
    using F(2) by (simp add: plain_file_def framed_Nil)
  moreover have "distinct (map fst (dir_put (wal_name (Suc hi)) (plain_file [] t) d))" using b(2) by simp
  ultimately show ?thesis using b assms(2) le_SucI by (intro wal_dirI [where F = ?F])
qed

lemma wal_dir_remove:
  assumes "wal_dir gopen e d lo hi S" and "lo < hi"
  shows "wal_dir gopen e (dir_remove (wal_name lo) d) (Suc lo) hi S"
proof -
  from assms(1) obtain F where b: "hi < 10 ^ 6" "distinct (map fst d)"
    and F: "mset (filter is_wal d) = mset (map (\<lambda>i. (wal_name i, F i)) [lo ..< Suc hi])"
    "\<forall>i \<in> {lo .. hi}. framed gopen e (fl_data (F i)) (S i)" by (auto simp: wal_dir_def)
  have "mset (filter is_wal (dir_remove (wal_name lo) d)) = mset (map (\<lambda>i. (wal_name i, F i)) [Suc lo ..< Suc hi])"
    unfolding dir_remove_def filter_wal_names [OF F(1), of lo] using assms(2) by (simp only: upt_filter_neq(2) less_imp_le)
  then show ?thesis unfolding wal_dir_def using b F(2) assms(2) by (auto simp del: upt_Suc)
qed

section \<open>Operations on the log\<close>

lemma read_files_reads:
  assumes "\<forall>n. \<not> fails env (OpRead n)" and "map wf_name fs = map wal_name is"
    and "\<forall>i \<in> set is. map_of d (wal_name i) = Some (F i) \<and> read_records gopen e (fl_data (F i)) = Inr (S i)"
  shows "read_files gopen env e d fs = Inr (Inr (concat (map S is)))"
  using assms(2,3)
proof (induction "is" arbitrary: fs)
  case (Cons i "is")
  then obtain f fs' where fs: "fs = f # fs'" "wf_name f = wal_name i" "map wf_name fs' = map wal_name is"
    by (cases fs) auto
  have "readFile gopen env e d (wal_name i) = Inr (Inr (S i))"
    using assms(1) Cons.prems(2) by (simp add: readFile_def)
  with Cons.IH [OF fs(3)] Cons.prems(2) fs show ?case by simp
qed simp

lemma ReadAll_reads:
  assumes "mset (filter is_wal d) = mset (map (\<lambda>i. (wal_name i, F i)) [lo ..< Suc hi])" and "hi < 10 ^ 6"
    and "distinct (map fst d)" and "\<forall>i \<in> {lo .. hi}. read_records gopen e (fl_data (F i)) = Inr (S i)"
    and "\<forall>op. \<not> fails env op"
  shows "ReadAll gopen env (NewWALReader e) d = Inr (Inr (log_of lo hi S))"
proof -
  have "getWALFiles env d = Inr (map (\<lambda>i. wal_info (wal_name i, F i)) [lo ..< Suc hi])"
    using getWALFiles_eq [OF assms(1,2)] assms(5) by simp
  moreover have "map_of d (wal_name i) = Some (F i)" if "i \<in> set [lo ..< Suc hi]" for i
  proof -
    have "(wal_name i, F i) \<in> set (map (\<lambda>i. (wal_name i, F i)) [lo ..< Suc hi])" using that by (simp del: upt_Suc)
    then have "(wal_name i, F i) \<in> set (filter is_wal d)" by (metis assms(1) set_mset_mset)
    with assms(3) show ?thesis by simp
  qed
  then have "read_files gopen env e d (map (\<lambda>i. wal_info (wal_name i, F i)) [lo ..< Suc hi]) = Inr (Inr (log_of lo hi S))"
    unfolding log_of_def using assms(4,5)
    by (intro read_files_reads [where F = F]) (auto simp: wal_info_def o_def simp del: upt_Suc)
  ultimately show ?thesis by (simp add: ReadAll_def NewWALReader_def)
qed

lemma ReadAll_log:
  assumes "wal_dir gopen e d lo hi S" and "\<forall>op. \<not> fails env op"
  shows "ReadAll gopen env (NewWALReader e) d = Inr (Inr (log_of lo hi S))"
proof -
  from assms(1) obtain F where F: "mset (filter is_wal d) = mset (map (\<lambda>i. (wal_name i, F i)) [lo ..< Suc hi])" "hi < 10 ^ 6"
    "distinct (map fst d)" "\<forall>i \<in> {lo .. hi}. framed gopen e (fl_data (F i)) (S i)"
    by (auto simp: wal_dir_def)
  then show ?thesis using assms(2) framed_read by (intro ReadAll_reads [where F = F]) auto
qed

lemma cleanup_loop_log:
  assumes "wal_dir gopen e d lo hi S" and "map wf_name fs = map wal_name [lo ..< Suc hi]" and "1 \<le> maxFiles"
    and "cleanup_loop env maxFiles fs d = Inr (None, d')"
  shows "wal_dir gopen e d' (max lo (Suc hi - nat maxFiles)) hi S"
  using assms
proof (induction "Suc hi - lo" arbitrary: lo fs d)
  case 0
  then show ?case by (simp add: wal_dir_def)
next
  case (Suc n)
  from Suc.prems(1) have le: "lo \<le> hi" by (simp add: wal_dir_def)
  then have "map wf_name fs = wal_name lo # map wal_name [Suc lo ..< Suc hi]"
    using Suc.prems(2) by (simp add: upt_conv_Cons del: upt_Suc)
  then obtain f fs' where fs: "fs = f # fs'" "wf_name f = wal_name lo" "map wf_name fs' = map wal_name [Suc lo ..< Suc hi]"
    by (cases fs) auto
  have len: "length fs = Suc hi - lo" using arg_cong [OF Suc.prems(2), of length] by (simp del: upt_Suc)
  show ?case
  proof (cases "maxFiles < int (length fs)")
    case True
    then have lt: "lo < hi" using Suc.prems(3) len le by linarith
    from True Suc.prems(4) have "cleanup_loop env maxFiles fs' (dir_remove (wal_name lo) d) = Inr (None, d')"
      by (simp add: fs split: if_splits)
    with Suc.hyps(1) [OF _ wal_dir_remove [OF Suc.prems(1) lt] fs(3) Suc.prems(3)] Suc.hyps(2)
    have "wal_dir gopen e d' (max (Suc lo) (Suc hi - nat maxFiles)) hi S" by simp
    moreover have "Suc lo \<le> Suc hi - nat maxFiles" using True len lt by linarith
    ultimately show ?thesis by (simp add: max_def)
  next
    case False
    then have "d' = d" using Suc.prems(4) fs by simp
    moreover have "Suc hi - nat maxFiles \<le> lo" using False len by linarith
    ultimately show ?thesis using Suc.prems(1) by (simp add: max_def)
  qed
qed

lemma doRollFile_log:
  assumes "wal_inv gopen w d lo hi S" and "Suc hi < 10 ^ 6" and "1 \<le> ww_maxFiles w"
    and "doRollFile env w d = Inr (None, w', d')"
  shows "wal_inv gopen w' d' (max lo (Suc (Suc hi) - nat (ww_maxFiles w))) (Suc hi) (S(Suc hi := []))
    \<and> ww_encryptor w' = ww_encryptor w \<and> ww_maxFiles w' = ww_maxFiles w"
proof -
  from assms(1) have wd: "wal_dir gopen (ww_encryptor w) d lo hi S" and ix: "unat (ww_currentIndex w) = hi"
    and h: "ww_currentFile w = Some (wal_name hi, True)" by (auto simp: wal_inv_def)
  let ?w2 = "w\<lparr>ww_currentFile := Some (wal_name hi, False), ww_currentIndex := ww_currentIndex w + 1\<rparr>"
  have ix2: "unat (ww_currentIndex w + 1) = Suc hi"
    using ix assms(2) by (simp add: unat_word_ariths)
  from assms(4) h obtain w3 d1 where o: "openCurrentFile env ?w2 d = (None, w3, d1)"
    and c: "cleanupOldFiles env w3 d1 = Inr (None, d')" and w': "w' = w3"
    by (auto simp: doRollFile_def close_file_def Let_def split: if_splits prod.splits option.splits dest!: go_bind_eq_InrD)
  from wal_dir_not_member [OF wd, of "Suc hi"] o have
    d1: "d1 = dir_put (wal_name (Suc hi)) (plain_file [] (now_of env)) d"
    and w3: "w3 = ?w2\<lparr>ww_currentFile := Some (wal_name (Suc hi), True), ww_currentName := wal_name (Suc hi),
                 ww_currentSize := 0, ww_currentTime := now_of env\<rparr>"
    by (auto simp: openCurrentFile_def ix2 Let_def split: if_splits option.splits)
  have wd1: "wal_dir gopen (ww_encryptor w) d1 lo (Suc hi) (S(Suc hi := []))"
    unfolding d1 by (rule wal_dir_create [OF wd assms(2)])
  then obtain F where F: "mset (filter is_wal d1) = mset (map (\<lambda>i. (wal_name i, F i)) [lo ..< Suc (Suc hi)])"
    by (auto simp: wal_dir_def)
  from c have nf: "\<not> fails env OpReadDir" by (auto simp: cleanupOldFiles_def getWALFiles_def split: if_splits)
  from c have "cleanup_loop env (ww_maxFiles w) (map (\<lambda>i. wal_info (wal_name i, F i)) [lo ..< Suc (Suc hi)]) d1 = Inr (None, d')"
    using getWALFiles_eq [OF F assms(2) nf] by (simp add: cleanupOldFiles_def w3)
  then have "wal_dir gopen (ww_encryptor w) d' (max lo (Suc (Suc hi) - nat (ww_maxFiles w))) (Suc hi) (S(Suc hi := []))"
    by (rule cleanup_loop_log [OF wd1 _ assms(3), rotated]) (simp add: wal_info_def o_def del: upt_Suc)
  then show ?thesis by (simp add: wal_inv_def w' w3 ix2)
qed

lemma log_of_snoc: "lo \<le> hi \<Longrightarrow> log_of lo hi (S(hi := S hi @ [p])) = log_of lo hi S @ [p]"
  by (simp add: log_of_def)

lemma log_of_drop:
  assumes "lo \<le> lo'" and "lo' \<le> Suc hi"
  shows "\<exists>k. log_of lo' (Suc hi) (S(Suc hi := [p])) = drop k (log_of lo hi S @ [p]) \<and> (lo' = lo \<longrightarrow> k = 0)"
proof -
  have "[lo ..< Suc hi] = [lo ..< lo'] @ [lo' ..< Suc hi]"
    using assms upt_add_eq_append [of lo lo' "Suc hi - lo'"] by simp
  then have "log_of lo hi S = concat (map S [lo ..< lo']) @ concat (map S [lo' ..< Suc hi])"
    unfolding log_of_def by (simp del: upt_Suc)
  moreover have "log_of lo' (Suc hi) (S(Suc hi := [p])) = concat (map S [lo' ..< Suc hi]) @ [p]"
  proof -
    have "map (S(Suc hi := [p])) [lo' ..< Suc hi] = map S [lo' ..< Suc hi]" by simp
    then show ?thesis using assms(2) unfolding log_of_def by (simp add: upt_Suc_append [of lo' "Suc hi"] del: upt_Suc map_eq_conv)
  qed
  ultimately show ?thesis
    by (intro exI [of _ "length (concat (map S [lo ..< lo']))"]) simp
qed

lemma wal_Write_success:
  assumes "wal_Write seal env w d p = Inr (None, w', d')"
  obtains r w1 d1 where "Encrypt seal (rand_of env) (ww_encryptor w) p = Inr r"
    and "(w1 = w \<and> d1 = d) \<or> doRollFile env w d = Inr (None, w1, d1)"
    and "file_write env (ww_currentFile w1) r d1 = (Inr (length r), d')"
    and "w' = w1\<lparr>ww_currentSize := ww_currentSize w1 + int (length r)\<rparr>"
proof -
  from assms obtain r where r: "Encrypt seal (rand_of env) (ww_encryptor w) p = Inr r"
    by (auto simp: wal_Write_def split: sum.splits)
  let ?roll = "if ww_maxFileSize w < ww_currentSize w + int (length r) \<or> ww_rollingInterval w < now_of env - ww_currentTime w
    then doRollFile env w d else Inr (None, w, d)"
  from assms r obtain err w1 d1 where a: "?roll = Inr (err, w1, d1)"
    and b: "(case err of Some e \<Rightarrow> Inr (Some e, w1, d1)
          | None \<Rightarrow> (case file_write env (ww_currentFile w1) r d1 of
                (Inl e, d2) \<Rightarrow> Inr (Some e, w1, d2)
              | (Inr n, d2) \<Rightarrow> Inr (None, w1\<lparr>ww_currentSize := ww_currentSize w1 + int n\<rparr>, d2))) = (Inr (None, w', d') :: panic + _)"
    by (auto simp: wal_Write_def Let_def simp del: if_split dest!: go_bind_eq_InrD)
  from b have "err = None" by (auto split: option.splits)
  with b obtain n where n: "file_write env (ww_currentFile w1) r d1 = (Inr n, d')"
    "w' = w1\<lparr>ww_currentSize := ww_currentSize w1 + int n\<rparr>" by (auto split: prod.splits sum.splits)
  then have "n = length r" by (auto simp: file_write_def split: option.splits prod.splits if_splits)
  moreover from a \<open>err = None\<close> have "(w1 = w \<and> d1 = d) \<or> doRollFile env w d = Inr (None, w1, d1)"
    by (auto split: if_splits)
  ultimately show ?thesis using that r n by blast
qed

lemma drop_drop_append: "drop k (drop j xs @ ys) = drop (k + min j (length xs)) (xs @ ys)"
proof -
  have "drop j xs @ ys = drop (min j (length xs)) (xs @ ys)" by (simp add: min_def)
  then show ?thesis by (simp only: drop_drop)
qed

lemma wal_Write_log:
  assumes "gcm_ok seal gopen" and "enc_inv (ww_encryptor w)" and "write_ok seal (ww_encryptor w) (env, p)"
    and "wal_inv gopen w d lo hi S" and "Suc hi < 10 ^ 6" and "1 \<le> ww_maxFiles w"
    and "wal_Write seal env w d p = Inr (None, w', d')"
  shows "\<exists>lo' hi' S' k. wal_inv gopen w' d' lo' hi' S' \<and> hi' \<le> Suc hi \<and> lo \<le> lo'
    \<and> log_of lo' hi' S' = drop k (log_of lo hi S @ [p])
    \<and> (int (Suc (Suc hi)) - ww_maxFiles w \<le> int lo \<longrightarrow> k = 0 \<and> lo' = lo)
    \<and> ww_encryptor w' = ww_encryptor w \<and> ww_maxFiles w' = ww_maxFiles w"
proof -
  obtain r w1 d1 where r: "Encrypt seal (rand_of env) (ww_encryptor w) p = Inr r"
    and roll: "(w1 = w \<and> d1 = d) \<or> doRollFile env w d = Inr (None, w1, d1)"
    and fw: "file_write env (ww_currentFile w1) r d1 = (Inr (length r), d')"
    and w': "w' = w1\<lparr>ww_currentSize := ww_currentSize w1 + int (length r)\<rparr>"
    using assms(7) by (rule wal_Write_success)
  have fr: "frame gopen (ww_encryptor w) r p"
    using Encrypt_frame [OF assms(1) _ assms(2) r] assms(3) by (simp add: write_ok_def)
  have app: "wal_inv gopen w' d' a b (T(b := T b @ [p]))"
    if "wal_inv gopen w1 d1 a b T" "ww_encryptor w1 = ww_encryptor w" for a b T
  proof -
    from that fw have "d' = append_file (now_of env) (wal_name b) r d1"
      by (auto simp: wal_inv_def file_write_def split: if_splits)
    with that fr wal_dir_append [of gopen "ww_encryptor w1" d1 a b T r p] show ?thesis
      by (simp add: wal_inv_def w')
  qed
  from assms(4) have le: "lo \<le> hi" by (simp add: wal_inv_def wal_dir_def)
  from roll show ?thesis
  proof
    assume "w1 = w \<and> d1 = d"
    then show ?thesis using app [of lo hi S] assms(4) w' log_of_snoc [OF le, of S p]
      by (intro exI [of _ lo] exI [of _ hi] exI [of _ "S(hi := S hi @ [p])"] exI [of _ 0]) simp
  next
    let ?lo = "max lo (Suc (Suc hi) - nat (ww_maxFiles w))"
    assume "doRollFile env w d = Inr (None, w1, d1)"
    from doRollFile_log [OF assms(4-6) this]
    have inv: "wal_inv gopen w1 d1 ?lo (Suc hi) (S(Suc hi := []))" and eq: "ww_encryptor w1 = ww_encryptor w" "ww_maxFiles w1 = ww_maxFiles w"
      by auto
    have "?lo \<le> Suc hi" using le assms(6) by linarith
    then obtain k where "log_of ?lo (Suc hi) (S(Suc hi := [p])) = drop k (log_of lo hi S @ [p])" "?lo = lo \<longrightarrow> k = 0"
      using log_of_drop [of lo ?lo hi S p] by auto
    moreover have "?lo = lo" if "int (Suc (Suc hi)) - ww_maxFiles w \<le> int lo" using that by linarith
    ultimately show ?thesis using app [OF inv eq(1)] w' eq
      by (intro exI [of _ ?lo] exI [of _ "Suc hi"] exI [of _ "S(Suc hi := [p])"] exI [of _ k]) simp
  qed
qed

lemma wal_run_log:
  assumes "gcm_ok seal gopen" and "enc_inv (ww_encryptor w)" and "\<forall>x \<in> set ws. write_ok seal (ww_encryptor w) x"
    and "wal_inv gopen w d lo hi S" and "hi + length ws < 10 ^ 6" and "1 \<le> ww_maxFiles w"
    and "wal_run seal w d ws = Some (w', d')"
  shows "\<exists>lo' hi' S' k. wal_inv gopen w' d' lo' hi' S' \<and> ww_encryptor w' = ww_encryptor w
    \<and> log_of lo' hi' S' = drop k (log_of lo hi S @ map snd ws)
    \<and> (int (Suc (hi + length ws)) - ww_maxFiles w \<le> int lo \<longrightarrow> k = 0)"
  using assms
proof (induction ws arbitrary: w d lo hi S)
  case Nil
  then show ?case by (intro exI [of _ lo] exI [of _ hi] exI [of _ S] exI [of _ 0]) simp
next
  case (Cons x ws)
  obtain env p where x: "x = (env, p)" by force
  from Cons.prems(7) x obtain w1 d1 where s: "wal_Write seal env w d p = Inr (None, w1, d1)" and run: "wal_run seal w1 d1 ws = Some (w', d')"
    by (auto split: sum.splits option.splits prod.splits)
  from Cons.prems(3,5) x have ok: "write_ok seal (ww_encryptor w) (env, p)" "Suc hi < 10 ^ 6" by auto
  from wal_Write_log [OF Cons.prems(1,2) ok(1) Cons.prems(4) ok(2) Cons.prems(6) s]
  obtain lo1 hi1 S1 k1 where 1: "wal_inv gopen w1 d1 lo1 hi1 S1" "hi1 \<le> Suc hi" "lo \<le> lo1"
    "log_of lo1 hi1 S1 = drop k1 (log_of lo hi S @ [p])"
    "int (Suc (Suc hi)) - ww_maxFiles w \<le> int lo \<longrightarrow> k1 = 0 \<and> lo1 = lo"
    "ww_encryptor w1 = ww_encryptor w" "ww_maxFiles w1 = ww_maxFiles w" by auto
  have "hi1 + length ws < 10 ^ 6" using 1(2) Cons.prems(5) by simp
  from Cons.IH [OF Cons.prems(1) _ _ 1(1) this _ run] Cons.prems(2,3,6) 1(6,7)
  obtain lo' hi' S' k where 2: "wal_inv gopen w' d' lo' hi' S'" "ww_encryptor w' = ww_encryptor w"
    "log_of lo' hi' S' = drop k (log_of lo1 hi1 S1 @ map snd ws)"
    "int (Suc (hi1 + length ws)) - ww_maxFiles w \<le> int lo1 \<longrightarrow> k = 0" by auto
  have "drop k (drop k1 (log_of lo hi S @ [p]) @ map snd ws)
      = drop (k + min k1 (length (log_of lo hi S @ [p]))) (log_of lo hi S @ map snd (x # ws))"
    unfolding drop_drop_append by (simp add: x)
  moreover have "k + min k1 (length (log_of lo hi S @ [p])) = 0" if "int (Suc (hi + length (x # ws))) - ww_maxFiles w \<le> int lo"
  proof -
    from that have "k1 = 0 \<and> lo1 = lo" using 1(5) by auto
    moreover from this that 1(2) have "k = 0" using 2(4) by auto
    ultimately show ?thesis by simp
  qed
  ultimately show ?case using 2(1-3) 1(4) by metis
qed

section \<open>Properties\<close>

lemma NewWALWriter_fresh:
  assumes "NewWALWriterWithConfig env [] e maxFileSize rollingInterval maxFiles = (Inr w, d)"
  shows "wal_inv gopen w d 1 1 (\<lambda>_. []) \<and> ww_encryptor w = e \<and> ww_maxFiles w = maxFiles"
proof -
  have d: "d = [(wal_name 1, plain_file [] (now_of env))]" and w: "unat (ww_currentIndex w) = 1"
    "ww_currentFile w = Some (wal_name 1, True)" "ww_encryptor w = e" "ww_maxFiles w = maxFiles"
    using assms
    by (auto simp: NewWALWriterWithConfig_def getWALFiles_def ReadDir_def openCurrentFile_def dir_put_def Let_def split: if_splits)
  have "wal_dir gopen e d 1 1 (\<lambda>_. [])"
    unfolding d by (rule wal_dirI [where F = "\<lambda>_. plain_file [] (now_of env)"])
      (simp_all add: is_wal_name plain_file_def framed_Nil)
  then show ?thesis by (simp add: wal_inv_def w)
qed

lemma wal_run_reads:
  assumes "gcm_ok seal gopen" and "enc_inv (ww_encryptor w)" and "\<forall>x \<in> set ws. write_ok seal (ww_encryptor w) x"
    and "wal_inv gopen w d lo hi S" and "hi + length ws < 10 ^ 6" and "1 \<le> ww_maxFiles w"
    and "wal_run seal w d ws = Some (w', d')" and "\<forall>op. \<not> fails env' op"
  shows "\<exists>k. ReadAll gopen env' (NewWALReader (ww_encryptor w)) d' = Inr (Inr (drop k (log_of lo hi S @ map snd ws)))
    \<and> (int (Suc (hi + length ws)) - ww_maxFiles w \<le> int lo \<longrightarrow> k = 0)"
proof -
  from wal_run_log [OF assms(1-7)] obtain lo' hi' S' k where r: "wal_inv gopen w' d' lo' hi' S'"
    "ww_encryptor w' = ww_encryptor w" "log_of lo' hi' S' = drop k (log_of lo hi S @ map snd ws)"
    "int (Suc (hi + length ws)) - ww_maxFiles w \<le> int lo \<longrightarrow> k = 0" by blast
  then have "ReadAll gopen env' (NewWALReader (ww_encryptor w)) d' = Inr (Inr (log_of lo' hi' S'))"
    using ReadAll_log [of gopen "ww_encryptor w" d' lo' hi' S' env'] assms(8) by (simp add: wal_inv_def)
  with r(3,4) show ?thesis by auto
qed





text \<open>A writer whose handle is closed never recovers. Rolling closes the current file before it opens the
  next one, and if that open fails once the old handle stays in place, closed: from then on every
  \<open>Write\<close>, with whatever environment and data, returns an error and writes nothing.\<close>

theorem wal_writer_stuck:
  assumes "ww_currentFile w = Some (name, False)"
  shows "\<exists>err w'. wal_Write seal env w d data = Inr (Some err, w', d) \<and> ww_currentFile w' = Some (name, False)"
  using assms
  by (cases "Encrypt seal (rand_of env) (ww_encryptor w) data")
    (simp_all add: wal_Write_def doRollFile_def close_file_def file_write_def Let_def)

theorem wal_writer_stuck_witness:
  "\<exists>w err d. doRollFile (demo_env\<lparr>fails := \<lambda>op. op = OpCreate (wal_name 2)\<rparr>)
       (projr (fst (NewWALWriterWithConfig demo_env [] demo_encryptor 1000 100 3))) [] = Inr (Some err, w, d)
     \<and> (\<exists>err w'. wal_Write (\<lambda>key nonce p. p) demo_env w d [1] = Inr (Some err, w', d))"
proof -
  let ?w0 = "projr (fst (NewWALWriterWithConfig demo_env [] demo_encryptor 1000 100 3))"
  obtain w err d where r: "doRollFile (demo_env\<lparr>fails := \<lambda>op. op = OpCreate (wal_name 2)\<rparr>) ?w0 [] = Inr (Some err, w, d)"
    and h: "ww_currentFile w = Some (wal_name 1, False)"
    by (simp add: NewWALWriterWithConfig_def getWALFiles_def ReadDir_def openCurrentFile_def Let_def demo_env_def
      doRollFile_def close_file_def)
  from wal_writer_stuck [OF h, of "\<lambda>key nonce p. p" demo_env d "[1]"] r show ?thesis by blast
qed

text \<open>From index one million on, the six digits the scan reads no longer give the index back.\<close>

lemma wal_index_misread: "scan_uint (Some 6) 64 (wal_name 1000000) = 100000"
proof -
  have "dec_padded 6 1000000 = ''1000000''" by (simp add: dec_padded_def dec.simps digit_char)
  then show ?thesis
    by (simp add: wal_name_def FileExtension_def scan_uint_def is_digit_def is_blank_def is_space_def
      digits_value_def Let_def)
qed

end
