(* ===== verification/Wal_Async.thy ===== *)
theory Wal_Async
  imports Wal_Files
begin

text \<open>
  \<open>src/internal/wal/async_wal.go\<close>: the buffering writers on top of the WAL writer. The asynchronous one
  is used by several goroutines, so its critical sections are the steps of a relation: appending to
  the buffer, taking the buffer, and the flush of a batch taken earlier. A callback is its identity;
  what it was called with is recorded.
\<close>

section \<open>Data\<close>

record WalEntry =
  we_Data :: bytes
  we_Timestamp :: int
  we_Callback :: "nat option"

record AsyncWALWriter =
  aw_writer :: WALWriter
  aw_dir :: dir
  aw_buffer :: "WalEntry list"
  aw_flushCh :: bool
  aw_stopped :: bool
  aw_flushDone :: bool
  aw_maxBatchSize :: int
  aw_maxFlushTime :: int
  aw_totalWrites :: int
  aw_totalFlushes :: int
  aw_avgBatchSize :: int
  aw_lastFlushTime :: int
  aw_called :: "(nat \<times> file_error option) list"

datatype async_error = AsyncEncryptor wal_error | AsyncWriter file_error

section \<open>Operations\<close>

definition NewAsyncWALWriter ::
  "(string \<Rightarrow> string \<Rightarrow> bytes option) \<Rightarrow> wal_env \<Rightarrow> dir \<Rightarrow> string \<Rightarrow> int \<Rightarrow> int
    \<Rightarrow> panic + (async_error + AsyncWALWriter)" where
  "NewAsyncWALWriter readf env d path maxBatchSize maxFlushTime =
     (case NewWALEncryptor readf (rand_of env) (now_of env) path of
        Inl err \<Rightarrow> Inr (Inl (AsyncEncryptor err))
      | Inr encryptor \<Rightarrow> (case NewWALWriter env d encryptor of
          (Inl err, d1) \<Rightarrow> Inr (Inl (AsyncWriter err))
        | (Inr writer, d1) \<Rightarrow>
            if maxBatchSize < 0 then Inl MakeSliceLen
            else Inr (Inr \<lparr>aw_writer = writer, aw_dir = d1, aw_buffer = [], aw_flushCh = False, aw_stopped = False,
              aw_flushDone = False, aw_maxBatchSize = maxBatchSize, aw_maxFlushTime = maxFlushTime,
              aw_totalWrites = 0, aw_totalFlushes = 0, aw_avgBatchSize = 0, aw_lastFlushTime = 0, aw_called = []\<rparr>)))"

text \<open>\<open>WriteAsync\<close>: the entry is appended; when the batch is full the one-element flush channel is filled
  (if it is full already the send is skipped). It never returns an error.\<close>

definition WriteAsync :: "int \<Rightarrow> AsyncWALWriter \<Rightarrow> bytes \<Rightarrow> nat option \<Rightarrow> AsyncWALWriter" where
  "WriteAsync now a data callback =
     (let entry = \<lparr>we_Data = data, we_Timestamp = now, we_Callback = callback\<rparr>;
          buf = aw_buffer a @ [entry];
          shouldFlush = (aw_maxBatchSize a \<le> int (length buf))
      in a\<lparr>aw_buffer := buf, aw_totalWrites := aw_totalWrites a + 1,
           aw_flushCh := aw_flushCh a \<or> shouldFlush\<rparr>)"

definition async_Write ::
  "(bytes \<Rightarrow> bytes \<Rightarrow> bytes \<Rightarrow> bytes) \<Rightarrow> wal_env \<Rightarrow> AsyncWALWriter \<Rightarrow> bytes \<Rightarrow> panic + (file_error option \<times> AsyncWALWriter)" where
  "async_Write seal env a data =
     go_bind (wal_Write seal env (aw_writer a) (aw_dir a) data) (\<lambda>(err, w, d).
       Inr (err, a\<lparr>aw_writer := w, aw_dir := d\<rparr>))"

definition doFlush ::
  "(bytes \<Rightarrow> bytes \<Rightarrow> bytes \<Rightarrow> bytes) \<Rightarrow> wal_env \<Rightarrow> AsyncWALWriter \<Rightarrow> WalEntry list
    \<Rightarrow> panic + (file_error option \<times> AsyncWALWriter)" where
  "doFlush seal env a entries =
     (if entries = [] then Inr (None, a)
      else let batchData = concat (map we_Data entries) in
      go_bind (if 0 < length batchData then async_Write seal env a batchData else Inr (None, a)) (\<lambda>(lastErr, a1).
        let a2 = a1\<lparr>aw_totalFlushes := aw_totalFlushes a1 + 1, aw_avgBatchSize := int (length entries),
              aw_lastFlushTime := now_of env\<rparr>
        in Inr (lastErr, a2\<lparr>aw_called := aw_called a2
              @ map (\<lambda>c. (c, lastErr)) (List.map_filter we_Callback entries)\<rparr>)))"

text \<open>The locked part of \<open>Flush\<close> and of \<open>doFlushFromBuffer\<close>: the buffer is copied and cleared.\<close>

definition take_buffer :: "AsyncWALWriter \<Rightarrow> WalEntry list \<times> AsyncWALWriter" where
  "take_buffer a = (aw_buffer a, a\<lparr>aw_buffer := []\<rparr>)"

definition async_Flush ::
  "(bytes \<Rightarrow> bytes \<Rightarrow> bytes \<Rightarrow> bytes) \<Rightarrow> wal_env \<Rightarrow> AsyncWALWriter \<Rightarrow> panic + (file_error option \<times> AsyncWALWriter)" where
  "async_Flush seal env a =
     (if aw_buffer a = [] then Inr (None, a)
      else let (entries, a1) = take_buffer a in doFlush seal env a1 entries)"

definition doFlushFromBuffer ::
  "(bytes \<Rightarrow> bytes \<Rightarrow> bytes \<Rightarrow> bytes) \<Rightarrow> wal_env \<Rightarrow> AsyncWALWriter \<Rightarrow> panic + AsyncWALWriter" where
  "doFlushFromBuffer seal env a =
     (if aw_buffer a = [] then Inr a
      else let (entries, a1) = take_buffer a in
           go_bind (doFlush seal env a1 entries) (\<lambda>(err, a2). Inr a2))"

text \<open>One turn of \<open>flushLoop\<close> for each case of its \<open>select\<close>.\<close>

datatype loop_event = FlushRequested | TimerFired | StopRequested

definition flushLoop_turn ::
  "(bytes \<Rightarrow> bytes \<Rightarrow> bytes \<Rightarrow> bytes) \<Rightarrow> wal_env \<Rightarrow> loop_event \<Rightarrow> AsyncWALWriter \<Rightarrow> panic + AsyncWALWriter" where
  "flushLoop_turn seal env ev a = (case ev of
      FlushRequested \<Rightarrow> doFlushFromBuffer seal env (a\<lparr>aw_flushCh := False\<rparr>)
    | TimerFired \<Rightarrow> doFlushFromBuffer seal env a
    | StopRequested \<Rightarrow> go_bind (doFlushFromBuffer seal env a) (\<lambda>a1. Inr (a1\<lparr>aw_flushDone := True\<rparr>)))"

text \<open>\<open>Close\<close>: stop the loop, wait for its last turn, close the file. Closing twice panics on the channel.\<close>

definition async_Close ::
  "(bytes \<Rightarrow> bytes \<Rightarrow> bytes \<Rightarrow> bytes) \<Rightarrow> wal_env \<Rightarrow> AsyncWALWriter \<Rightarrow> panic + (file_error option \<times> AsyncWALWriter)" where
  "async_Close seal env a =
     (if aw_stopped a then Inl CloseOfClosedChannel
      else go_bind (flushLoop_turn seal env StopRequested (a\<lparr>aw_stopped := True\<rparr>)) (\<lambda>a1.
           let (err, w) = wal_Close env (aw_writer a1) in Inr (err, a1\<lparr>aw_writer := w\<rparr>)))"

definition async_Stats :: "AsyncWALWriter \<Rightarrow> int \<times> int \<times> int \<times> int" where
  "async_Stats a = (aw_totalWrites a, aw_totalFlushes a, aw_avgBatchSize a, aw_lastFlushTime a)"

section \<open>The synchronous batching writer\<close>

record SyncWALWriter =
  sw_writer :: WALWriter
  sw_dir :: dir
  sw_buffer :: "bytes list"
  sw_maxSize :: int

definition NewSyncWALWriter :: "WALWriter \<Rightarrow> dir \<Rightarrow> int \<Rightarrow> panic + SyncWALWriter" where
  "NewSyncWALWriter base d maxBatchSize =
     (if maxBatchSize < 0 then Inl MakeSliceLen
      else Inr \<lparr>sw_writer = base, sw_dir = d, sw_buffer = [], sw_maxSize = maxBatchSize\<rparr>)"

fun sync_write_all ::
  "(bytes \<Rightarrow> bytes \<Rightarrow> bytes \<Rightarrow> bytes) \<Rightarrow> wal_env \<Rightarrow> WALWriter \<Rightarrow> dir \<Rightarrow> bytes list
    \<Rightarrow> panic + (file_error option \<times> WALWriter \<times> dir)" where
  "sync_write_all seal env w d [] = Inr (None, w, d)"
| "sync_write_all seal env w d (x # xs) =
     go_bind (wal_Write seal env w d x) (\<lambda>(err, w1, d1).
       case err of Some e \<Rightarrow> Inr (Some e, w1, d1) | None \<Rightarrow> sync_write_all seal env w1 d1 xs)"

definition sync_Flush ::
  "(bytes \<Rightarrow> bytes \<Rightarrow> bytes \<Rightarrow> bytes) \<Rightarrow> wal_env \<Rightarrow> SyncWALWriter \<Rightarrow> panic + (file_error option \<times> SyncWALWriter)" where
  "sync_Flush seal env s =
     (if sw_buffer s = [] then Inr (None, s)
      else let data = sw_buffer s; s1 = s\<lparr>sw_buffer := []\<rparr> in
           go_bind (sync_write_all seal env (sw_writer s1) (sw_dir s1) data) (\<lambda>(err, w, d).
             Inr (err, s1\<lparr>sw_writer := w, sw_dir := d\<rparr>)))"

definition sync_Write ::
  "(bytes \<Rightarrow> bytes \<Rightarrow> bytes \<Rightarrow> bytes) \<Rightarrow> wal_env \<Rightarrow> SyncWALWriter \<Rightarrow> bytes \<Rightarrow> panic + (file_error option \<times> SyncWALWriter)" where
  "sync_Write seal env s data =
     (let s1 = s\<lparr>sw_buffer := sw_buffer s @ [data]\<rparr>
      in if sw_maxSize s1 \<le> int (length (sw_buffer s1)) then sync_Flush seal env s1 else Inr (None, s1))"

section \<open>Interleavings\<close>

text \<open>
  A configuration: the writer, the batches that goroutines have taken and not flushed yet, and two
  histories, the entries accepted by \<open>WriteAsync\<close> and the ones flushed with the outcome of their write.
\<close>

record async_conf =
  ac_state :: AsyncWALWriter
  ac_inflight :: "WalEntry list list"
  ac_accepted :: "WalEntry list"
  ac_flushed :: "(WalEntry \<times> file_error option) list"

inductive async_step :: "(bytes \<Rightarrow> bytes \<Rightarrow> bytes \<Rightarrow> bytes) \<Rightarrow> async_conf \<Rightarrow> async_conf \<Rightarrow> bool"
  for seal where
  step_write: "async_step seal c (c\<lparr>ac_state := WriteAsync now (ac_state c) data cb,
      ac_accepted := ac_accepted c @ [\<lparr>we_Data = data, we_Timestamp = now, we_Callback = cb\<rparr>]\<rparr>)"
| step_take: "aw_buffer (ac_state c) \<noteq> [] \<Longrightarrow> take_buffer (ac_state c) = (entries, a) \<Longrightarrow>
    async_step seal c (c\<lparr>ac_state := a, ac_inflight := entries # ac_inflight c\<rparr>)"
| step_flush: "ac_inflight c = bs @ entries # bs' \<Longrightarrow> doFlush seal env (ac_state c) entries = Inr (err, a) \<Longrightarrow>
    async_step seal c (c\<lparr>ac_state := a, ac_inflight := bs @ bs',
      ac_flushed := ac_flushed c @ map (\<lambda>x. (x, err)) entries\<rparr>)"
| step_sync: "async_Write seal env (ac_state c) data = Inr (err, a) \<Longrightarrow>
    async_step seal c (c\<lparr>ac_state := a\<rparr>)"

definition initial_conf :: "AsyncWALWriter \<Rightarrow> async_conf" where
  "initial_conf a = \<lparr>ac_state = a, ac_inflight = [], ac_accepted = [], ac_flushed = []\<rparr>"

inductive async_reach :: "(bytes \<Rightarrow> bytes \<Rightarrow> bytes \<Rightarrow> bytes) \<Rightarrow> AsyncWALWriter \<Rightarrow> async_conf \<Rightarrow> bool"
  for seal a where
  reach_init: "async_reach seal a (initial_conf a)"
| reach_step: "async_reach seal a c \<Longrightarrow> async_step seal c c' \<Longrightarrow> async_reach seal a c'"

text \<open>Every accepted entry is in exactly one place, and the callbacks made are those of the flushed entries.\<close>

definition conserved :: "async_conf \<Rightarrow> bool" where
  "conserved c \<longleftrightarrow>
     mset (ac_accepted c) = mset (aw_buffer (ac_state c)) + mset (concat (ac_inflight c)) + mset (map fst (ac_flushed c))
   \<and> aw_called (ac_state c) = List.map_filter (\<lambda>(x, err). map_option (\<lambda>cb. (cb, err)) (we_Callback x)) (ac_flushed c)
   \<and> aw_totalWrites (ac_state c) = int (length (ac_accepted c))"

definition demo_async :: AsyncWALWriter where
  "demo_async = \<lparr>aw_writer = projr (fst (NewWALWriter demo_env [] demo_encryptor)),
     aw_dir = snd (NewWALWriter demo_env [] demo_encryptor), aw_buffer = [], aw_flushCh = False, aw_stopped = False,
     aw_flushDone = False, aw_maxBatchSize = 10, aw_maxFlushTime = 100, aw_totalWrites = 0, aw_totalFlushes = 0,
     aw_avgBatchSize = 0, aw_lastFlushTime = 0, aw_called = []\<rparr>"

section \<open>Lemmas\<close>

lemma map_filter_append: "List.map_filter f (xs @ ys) = List.map_filter f xs @ List.map_filter f ys"
  by (simp add: List.map_filter_def)

lemma called_of_batch:
  "List.map_filter (\<lambda>(x, err). map_option (\<lambda>cb. (cb, err)) (we_Callback x)) (map (\<lambda>x. (x, err)) entries)
     = map (\<lambda>c. (c, err)) (List.map_filter we_Callback entries)"
  by (induction entries) (auto simp: List.map_filter_def)

lemma async_Write_frame:
  "async_Write seal env a data = Inr (err, a') \<Longrightarrow> aw_buffer a' = aw_buffer a \<and> aw_called a' = aw_called a
     \<and> aw_totalWrites a' = aw_totalWrites a"
  by (auto simp: async_Write_def dest!: go_bind_eq_InrD)

lemma doFlush_effect:
  assumes "doFlush seal env a entries = Inr (err, a')"
  shows "aw_buffer a' = aw_buffer a \<and> aw_totalWrites a' = aw_totalWrites a
    \<and> aw_called a' = aw_called a @ map (\<lambda>c. (c, err)) (List.map_filter we_Callback entries)"
proof (cases "entries = []")
  case True
  then show ?thesis using assms by (simp add: doFlush_def List.map_filter_def)
next
  case False
  with assms obtain a1 where
    w: "(if 0 < length (concat (map we_Data entries)) then async_Write seal env a (concat (map we_Data entries)) else Inr (None, a)) = Inr (err, a1)"
    and a': "a' = a1\<lparr>aw_totalFlushes := aw_totalFlushes a1 + 1, aw_avgBatchSize := int (length entries),
              aw_lastFlushTime := now_of env, aw_called := aw_called a1 @ map (\<lambda>c. (c, err)) (List.map_filter we_Callback entries)\<rparr>"
    by (auto simp: doFlush_def Let_def simp del: if_split dest!: go_bind_eq_InrD)
  from w have "aw_buffer a1 = aw_buffer a \<and> aw_called a1 = aw_called a \<and> aw_totalWrites a1 = aw_totalWrites a"
    by (auto split: if_splits dest: async_Write_frame)
  with a' show ?thesis by simp
qed

lemma conserved_step:
  assumes "conserved c" and "async_step seal c c'"
  shows "conserved c'"
  using assms(2)
proof (cases rule: async_step.cases)
  case (step_write now data cb)
  then show ?thesis using assms(1) by (simp add: conserved_def WriteAsync_def Let_def)
next
  case (step_take entries a)
  then show ?thesis using assms(1) by (auto simp: conserved_def take_buffer_def)
next
  case (step_flush bs entries bs' env err a)
  then show ?thesis using assms(1) doFlush_effect [OF step_flush(3)]
    by (simp add: conserved_def map_filter_append called_of_batch o_def)
next
  case (step_sync env data err a)
  then show ?thesis using assms(1) async_Write_frame [OF step_sync(2)] by (simp add: conserved_def)
qed

section \<open>Properties\<close>



text \<open>\<open>Close\<close> drains the buffer: when it returns, every entry that was buffered has been flushed, its
  callback called, and the loop has ended. An entry accepted by \<open>WriteAsync\<close> afterwards stays in a
  buffer that nothing flushes any more, although no error is reported.\<close>

lemma async_Close_drains:
  assumes "async_Close seal env a = Inr (err, a')"
  shows "aw_buffer a' = [] \<and> aw_flushDone a' \<and> aw_stopped a'
    \<and> map fst (aw_called a') = map fst (aw_called a) @ List.map_filter we_Callback (aw_buffer a)"
proof -
  let ?a0 = "a\<lparr>aw_stopped := True\<rparr>"
  obtain a1 w where a1: "doFlushFromBuffer seal env ?a0 = Inr a1" and a': "a' = a1\<lparr>aw_flushDone := True, aw_writer := w\<rparr>"
    using assms by (auto simp: async_Close_def flushLoop_turn_def Let_def split: if_splits prod.splits dest!: go_bind_eq_InrD)
  have "aw_buffer a1 = [] \<and> aw_stopped a1
    \<and> map fst (aw_called a1) = map fst (aw_called a) @ List.map_filter we_Callback (aw_buffer a)"
  proof (cases "aw_buffer a = []")
    case True
    with a1 show ?thesis by (auto simp: doFlushFromBuffer_def List.map_filter_def)
  next
    case False
    with a1 obtain e where f: "doFlush seal env (?a0\<lparr>aw_buffer := []\<rparr>) (aw_buffer a) = Inr (e, a1)"
      by (auto simp: doFlushFromBuffer_def take_buffer_def dest!: go_bind_eq_InrD)
    have "aw_stopped a1"
      using f False by (auto simp: doFlush_def async_Write_def Let_def split: if_splits dest!: go_bind_eq_InrD)
    with doFlush_effect [OF f] show ?thesis by (simp add: o_def)
  qed
  with a' show ?thesis by simp
qed

text \<open>A synchronous flush either writes every buffered record, in order and each as its own record, or stops
  at the first error; in both cases the buffer is empty afterwards, so the records behind the failed
  one are dropped.\<close>

lemma sync_write_all_ok:
  "sync_write_all seal env w d xs = Inr (None, w', d') \<Longrightarrow> wal_run seal w d (map (Pair env) xs) = Some (w', d')"
proof (induction xs arbitrary: w d)
  case (Cons x xs)
  from Cons.prems obtain err w1 d1 where s: "wal_Write seal env w d x = Inr (err, w1, d1)"
    and r: "(case err of Some e \<Rightarrow> Inr (Some e, w1, d1) | None \<Rightarrow> sync_write_all seal env w1 d1 xs) = Inr (None, w', d')"
    by (auto dest!: go_bind_eq_InrD)
  from r have "err = None" by (auto split: option.splits)
  with s r Cons.IH show ?case by simp
qed simp

lemma sync_Flush_empties:
  "sync_Flush seal env s = Inr (err, s') \<Longrightarrow> sw_buffer s' = []
     \<and> (err = None \<longrightarrow> wal_run seal (sw_writer s) (sw_dir s) (map (Pair env) (sw_buffer s)) = Some (sw_writer s', sw_dir s'))"
  by (auto simp: sync_Flush_def Let_def split: if_splits dest!: go_bind_eq_InrD sync_write_all_ok)

end
