(* ===== verification/Raft_Log.thy ===== *)
theory Raft_Log
  imports Go_Strings
begin

text \<open>
  \<open>src/internal/raft/log.go\<close> and the data of \<open>fsm.go\<close> and \<open>snapshot.go\<close> that travels as JSON.
  \<open>encoding/json\<close> is a record of parameters, one encoder and one decoder per type (\<open>None\<close> is an
  error), with its documented behaviour in \<open>json_ok\<close>. HashiCorp's \<open>raft\<close> is the parameter
  \<open>raft_apply data timeout\<close>: the error of the future, or the index the entry was committed at. Times are
  nanoseconds since 1970.
\<close>

section \<open>Data\<close>

datatype LogType = LogCommand | LogNoop

record LogEntry =
  le_Index :: u64
  le_Term :: u64
  le_Type :: LogType
  le_Data :: bytes
  le_Timestamp :: int

record Command =
  cmd_Type :: string
  cmd_Item :: bytes
  cmd_Timestamp :: int

record FSMCommand =
  fc_Type :: string
  fc_Item :: bytes
  fc_Timestamp :: int
  fc_Index :: u64
  fc_Term :: u64

text \<open>The values of a \<open>map[string]interface{}\<close>; a printed time or duration is its value.\<close>

datatype state_val = SvString string | SvInt int | SvInt64 int | SvUint u64 | SvBool bool | SvTime int | SvDuration int

record SnapshotData =
  sd_BloomFilter :: bytes
  sd_Metadata :: "(string \<times> state_val) list"
  sd_Timestamp :: int
  sd_Index :: u64
  sd_Term :: u64

record json_codec =
  marshal_Command :: "Command \<Rightarrow> bytes option"
  unmarshal_Command :: "bytes \<Rightarrow> Command option"
  marshal_FSMCommand :: "FSMCommand \<Rightarrow> bytes option"
  unmarshal_FSMCommand :: "bytes \<Rightarrow> FSMCommand option"
  marshal_SnapshotData :: "SnapshotData \<Rightarrow> bytes option"
  unmarshal_SnapshotData :: "bytes \<Rightarrow> SnapshotData option"

text \<open>The zero value of \<open>time.Time\<close> (year 1), and the times RFC 3339 can print (years 0 to 9999).\<close>

definition zero_time :: int where
  "zero_time = - 62135596800 * 10 ^ 9"

definition time_ok :: "int \<Rightarrow> bool" where
  "time_ok t \<longleftrightarrow> - 62167219200 * 10 ^ 9 \<le> t \<and> t < 253402300800 * 10 ^ 9"

definition ascii :: "string \<Rightarrow> bool" where
  "ascii s \<longleftrightarrow> list_all (\<lambda>c. (of_char c :: nat) < 128) s"

text \<open>
  What the code relies on: commands with ASCII types and printable times, and snapshots with printable
  times, can be encoded and decode to the same values (the metadata of a snapshot may change its
  types); a number is no time, so an encoded \<open>FSMCommand\<close> is no \<open>Command\<close>; an encoded struct starts with
  a brace; and no JSON text starts with a control character below 9.
\<close>

definition json_ok :: "json_codec \<Rightarrow> bool" where
  "json_ok J \<longleftrightarrow>
     (\<forall>c. ascii (cmd_Type c) \<and> time_ok (cmd_Timestamp c) \<longrightarrow>
        (\<exists>d. marshal_Command J c = Some d \<and> unmarshal_Command J d = Some c))
   \<and> (\<forall>c. ascii (fc_Type c) \<longrightarrow>
        (\<exists>d. marshal_FSMCommand J c = Some d \<and> unmarshal_FSMCommand J d = Some c \<and> unmarshal_Command J d = None))
   \<and> (\<forall>s. time_ok (sd_Timestamp s) \<longrightarrow>
        (\<exists>d s'. marshal_SnapshotData J s = Some d \<and> unmarshal_SnapshotData J d = Some s'
          \<and> sd_BloomFilter s' = sd_BloomFilter s \<and> sd_Timestamp s' = sd_Timestamp s
          \<and> sd_Index s' = sd_Index s \<and> sd_Term s' = sd_Term s))
   \<and> (\<forall>s d. marshal_SnapshotData J s = Some d \<longrightarrow> 4 \<le> length d \<and> hd d = 0x7B)
   \<and> (\<forall>d. d \<noteq> [] \<and> unat (hd d) < 9 \<longrightarrow> unmarshal_SnapshotData J d = None)"

section \<open>The log manager\<close>

datatype log_error = ErrRaftNotStarted | ErrInvalidLogEntry | ErrLogNotFound | MarshalFailed | RaftError string

record pendingCommand =
  pc_cmd :: Command
  pc_timestamp :: int

record LogStats =
  TotalCommands :: int
  TotalAppends :: int
  TotalCommits :: int
  TotalFailures :: int
  LastCommandIndex :: u64
  LastCommandTime :: int

record LogManager =
  lm_raftNode :: bool
  lm_pendingCommands :: "u64 \<Rightarrow> pendingCommand option"
  lm_stats :: LogStats

definition zero_stats :: LogStats where
  "zero_stats = \<lparr>TotalCommands = 0, TotalAppends = 0, TotalCommits = 0, TotalFailures = 0,
     LastCommandIndex = 0, LastCommandTime = zero_time\<rparr>"

definition NewCommand :: "int \<Rightarrow> string \<Rightarrow> bytes \<Rightarrow> Command" where
  "NewCommand now cmdType item = \<lparr>cmd_Type = cmdType, cmd_Item = item, cmd_Timestamp = now\<rparr>"

definition Command_Marshal :: "json_codec \<Rightarrow> Command \<Rightarrow> bytes option" where
  "Command_Marshal J c = marshal_Command J c"

definition UnmarshalCommand :: "json_codec \<Rightarrow> bytes \<Rightarrow> Command option" where
  "UnmarshalCommand J data = unmarshal_Command J data"

definition NewLogManager :: LogManager where
  "NewLogManager = \<lparr>lm_raftNode = False, lm_pendingCommands = (\<lambda>_. None), lm_stats = zero_stats\<rparr>"

definition lm_SetRaftNode :: "LogManager \<Rightarrow> bool \<Rightarrow> LogManager" where
  "lm_SetRaftNode lm node = lm\<lparr>lm_raftNode := node\<rparr>"

definition ApplyCommand ::
  "json_codec \<Rightarrow> (bytes \<Rightarrow> int \<Rightarrow> string + u64) \<Rightarrow> int \<Rightarrow> LogManager \<Rightarrow> Command \<Rightarrow> int
    \<Rightarrow> log_error option \<times> LogManager" where
  "ApplyCommand J raft_apply now lm cmd timeout =
     (if \<not> lm_raftNode lm then (Some ErrRaftNotStarted, lm)
      else (case Command_Marshal J cmd of
          None \<Rightarrow> (Some MarshalFailed, lm)
        | Some data \<Rightarrow> (case raft_apply data timeout of
            Inl err \<Rightarrow> (Some (RaftError err),
              lm\<lparr>lm_stats := (lm_stats lm)\<lparr>TotalFailures := TotalFailures (lm_stats lm) + 1\<rparr>\<rparr>)
          | Inr index \<Rightarrow> (None,
              lm\<lparr>lm_stats := (lm_stats lm)\<lparr>TotalCommits := TotalCommits (lm_stats lm) + 1,
                LastCommandIndex := index, LastCommandTime := now\<rparr>\<rparr>))))"

definition AddItem ::
  "json_codec \<Rightarrow> (bytes \<Rightarrow> int \<Rightarrow> string + u64) \<Rightarrow> int \<Rightarrow> LogManager \<Rightarrow> bytes \<Rightarrow> int \<Rightarrow> log_error option \<times> LogManager" where
  "AddItem J raft_apply now lm item timeout =
     ApplyCommand J raft_apply now lm (NewCommand now ''add'' item) timeout"

definition RemoveItem ::
  "json_codec \<Rightarrow> (bytes \<Rightarrow> int \<Rightarrow> string + u64) \<Rightarrow> int \<Rightarrow> LogManager \<Rightarrow> bytes \<Rightarrow> int \<Rightarrow> log_error option \<times> LogManager" where
  "RemoveItem J raft_apply now lm item timeout =
     ApplyCommand J raft_apply now lm (NewCommand now ''remove'' item) timeout"

definition GetLastIndex :: "u64 \<Rightarrow> LogManager \<Rightarrow> log_error + u64" where
  "GetLastIndex raft_last lm = (if \<not> lm_raftNode lm then Inl ErrRaftNotStarted else Inr raft_last)"

definition GetFirstIndex :: "LogManager \<Rightarrow> log_error + u64" where
  "GetFirstIndex lm = (if \<not> lm_raftNode lm then Inl ErrRaftNotStarted else Inr 0)"

definition lm_GetStats :: "LogManager option \<Rightarrow> LogStats" where
  "lm_GetStats lm = (case lm of None \<Rightarrow> zero_stats | Some l \<Rightarrow> lm_stats l)"

text \<open>The entry types of the library the conversion distinguishes.\<close>

datatype hashicorp_log_type = HcLogCommand | HcLogNoop | HcLogOther

definition ConvertLogType :: "hashicorp_log_type \<Rightarrow> LogType" where
  "ConvertLogType t = (case t of HcLogCommand \<Rightarrow> LogCommand | HcLogNoop \<Rightarrow> LogNoop | HcLogOther \<Rightarrow> LogCommand)"

section \<open>A codec that behaves as documented\<close>

text \<open>Self-delimiting encodings: a byte is preceded by 1 and the end is 0; integers are in unary.\<close>

fun enc_bytes :: "bytes \<Rightarrow> bytes" where
  "enc_bytes [] = [0]"
| "enc_bytes (b # bs) = 1 # b # enc_bytes bs"

fun dec_bytes :: "bytes \<Rightarrow> (bytes \<times> bytes) option" where
  "dec_bytes (t # r) = (if t = 0 then Some ([], r) else (case r of
      [] \<Rightarrow> None
    | b # r' \<Rightarrow> map_option (\<lambda>(bs, s). (b # bs, s)) (dec_bytes r')))"
| "dec_bytes [] = None"

definition enc_int :: "int \<Rightarrow> bytes" where
  "enc_int i = enc_bytes ((if i < 0 then 1 else 0) # replicate (nat \<bar>i\<bar>) 7)"

definition dec_int_bytes :: "bytes \<Rightarrow> (int \<times> bytes) option" where
  "dec_int_bytes d = (case dec_bytes d of
      Some (s # u, r) \<Rightarrow> Some ((if s = 1 then - int (length u) else int (length u)), r)
    | _ \<Rightarrow> None)"

definition tagged :: "u8 \<Rightarrow> bytes \<Rightarrow> bytes" where
  "tagged t d = 0x7B # t # d"

definition untag :: "u8 \<Rightarrow> bytes \<Rightarrow> bytes option" where
  "untag t d = (case d of a # b # r \<Rightarrow> if a = 0x7B \<and> b = t then Some r else None | _ \<Rightarrow> None)"

definition demo_json :: json_codec where
  "demo_json = \<lparr>
     marshal_Command = (\<lambda>c. Some (tagged 1 (enc_bytes (bytes_of_string (cmd_Type c)) @ enc_bytes (cmd_Item c)
       @ enc_int (cmd_Timestamp c)))),
     unmarshal_Command = (\<lambda>d. case untag 1 d of None \<Rightarrow> None | Some r \<Rightarrow> (case dec_bytes r of None \<Rightarrow> None
       | Some (ty, r1) \<Rightarrow> (case dec_bytes r1 of None \<Rightarrow> None | Some (item, r2) \<Rightarrow> (case dec_int_bytes r2 of None \<Rightarrow> None
       | Some (ts, r3) \<Rightarrow> Some \<lparr>cmd_Type = string_of_bytes ty, cmd_Item = item, cmd_Timestamp = ts\<rparr>)))),
     marshal_FSMCommand = (\<lambda>c. Some (tagged 2 (enc_bytes (bytes_of_string (fc_Type c)) @ enc_bytes (fc_Item c)
       @ enc_int (fc_Timestamp c) @ enc_int (uint (fc_Index c)) @ enc_int (uint (fc_Term c))))),
     unmarshal_FSMCommand = (\<lambda>d. case untag 2 d of None \<Rightarrow> None | Some r \<Rightarrow> (case dec_bytes r of None \<Rightarrow> None
       | Some (ty, r1) \<Rightarrow> (case dec_bytes r1 of None \<Rightarrow> None | Some (item, r2) \<Rightarrow> (case dec_int_bytes r2 of None \<Rightarrow> None
       | Some (ts, r3) \<Rightarrow> (case dec_int_bytes r3 of None \<Rightarrow> None | Some (ix, r4) \<Rightarrow> (case dec_int_bytes r4 of None \<Rightarrow> None
       | Some (tm, r5) \<Rightarrow> Some \<lparr>fc_Type = string_of_bytes ty, fc_Item = item, fc_Timestamp = ts,
           fc_Index = word_of_int ix, fc_Term = word_of_int tm\<rparr>)))))),
     marshal_SnapshotData = (\<lambda>s. Some (tagged 3 (enc_bytes (sd_BloomFilter s) @ enc_int (sd_Timestamp s)
       @ enc_int (uint (sd_Index s)) @ enc_int (uint (sd_Term s))))),
     unmarshal_SnapshotData = (\<lambda>d. case untag 3 d of None \<Rightarrow> None | Some r \<Rightarrow> (case dec_bytes r of None \<Rightarrow> None
       | Some (bf, r1) \<Rightarrow> (case dec_int_bytes r1 of None \<Rightarrow> None | Some (ts, r2) \<Rightarrow> (case dec_int_bytes r2 of None \<Rightarrow> None
       | Some (ix, r3) \<Rightarrow> (case dec_int_bytes r3 of None \<Rightarrow> None
       | Some (tm, r4) \<Rightarrow> Some \<lparr>sd_BloomFilter = bf, sd_Metadata = [], sd_Timestamp = ts,
           sd_Index = word_of_int ix, sd_Term = word_of_int tm\<rparr>)))))\<rparr>"

section \<open>Lemmas\<close>

lemma dec_enc_bytes [simp]: "dec_bytes (enc_bytes bs @ r) = Some (bs, r)"
  by (induction bs) auto

lemma dec_enc_bytes_end [simp]: "dec_bytes (enc_bytes bs) = Some (bs, [])"
  using dec_enc_bytes [of bs "[]"] by simp

lemma dec_enc_int [simp]: "dec_int_bytes (enc_int i @ r) = Some (i, r)"
  by (simp add: enc_int_def dec_int_bytes_def)

lemma dec_enc_int_end [simp]: "dec_int_bytes (enc_int i) = Some (i, [])"
  using dec_enc_int [of i "[]"] by simp

lemma length_enc_bytes: "1 \<le> length (enc_bytes bs)"
  by (induction bs) auto

lemma untag_tagged [simp]: "untag t (tagged t' d) = (if t = t' then Some d else None)"
  by (simp add: untag_def tagged_def)

lemma untag_control: "d \<noteq> [] \<Longrightarrow> unat (hd d) < 9 \<Longrightarrow> untag t d = None"
  by (auto simp: untag_def split: list.splits)

lemma demo_json_ok: "json_ok demo_json"
proof -
  have "4 \<le> length (tagged 3 (enc_bytes a @ enc_int b @ enc_int c @ enc_int e)) \<and> hd (tagged 3 (enc_bytes a @ enc_int b @ enc_int c @ enc_int e)) = 0x7B"
    for a b c e
    using length_enc_bytes [of a] length_enc_bytes [of "(if b < 0 then 1 else 0) # replicate (nat \<bar>b\<bar>) 7"]
    by (simp add: tagged_def enc_int_def)
  then show ?thesis by (auto simp: json_ok_def demo_json_def untag_control)
qed

lemma json_Command:
  assumes "json_ok J" and "ascii (cmd_Type c)" and "time_ok (cmd_Timestamp c)"
  obtains d where "marshal_Command J c = Some d" "unmarshal_Command J d = Some c"
  using assms unfolding json_ok_def by blast

lemma json_FSMCommand:
  assumes "json_ok J" and "ascii (fc_Type c)"
  obtains d where "marshal_FSMCommand J c = Some d" "unmarshal_FSMCommand J d = Some c" "unmarshal_Command J d = None"
  using assms unfolding json_ok_def by blast

lemma json_SnapshotData:
  assumes "json_ok J" and "time_ok (sd_Timestamp s)"
  obtains d s' where "marshal_SnapshotData J s = Some d" "unmarshal_SnapshotData J d = Some s'"
    "sd_BloomFilter s' = sd_BloomFilter s" "sd_Timestamp s' = sd_Timestamp s" "sd_Index s' = sd_Index s" "sd_Term s' = sd_Term s"
  using assms unfolding json_ok_def by blast

lemma json_brace:
  "json_ok J \<Longrightarrow> marshal_SnapshotData J s = Some d \<Longrightarrow> 4 \<le> length d \<and> hd d = 0x7B"
  unfolding json_ok_def by blast

lemma json_control:
  "json_ok J \<Longrightarrow> d \<noteq> [] \<Longrightarrow> unat (hd d) < 9 \<Longrightarrow> unmarshal_SnapshotData J d = None"
  unfolding json_ok_def by blast

lemma ApplyCommand_counts:
  "ApplyCommand J raft_apply now lm cmd timeout = (err, lm') \<Longrightarrow>
     TotalCommits (lm_stats lm') + TotalFailures (lm_stats lm') =
       TotalCommits (lm_stats lm) + TotalFailures (lm_stats lm)
       + (if err \<in> {Some ErrRaftNotStarted, Some MarshalFailed} then 0 else 1)
   \<and> (err = None \<longleftrightarrow> TotalCommits (lm_stats lm') = TotalCommits (lm_stats lm) + 1)"
  by (auto simp: ApplyCommand_def split: if_splits option.splits sum.splits)

end
