(* ===== verification/Raft_FSM.thy ===== *)
theory Raft_FSM
  imports Raft_Log Bloom_Counting Wal_Files
begin

text \<open>
  \<open>src/internal/raft/fsm.go\<close>: the state machine with a WAL that the consensus library drives. The library calls \<open>Apply\<close> with the committed entries in log order, \<open>Snapshot\<close> and
  \<open>Persist\<close> to store the state and \<open>Restore\<close> to load it; each holds the lock for its whole body. What
  the library, the disk and the network answer are arguments.
\<close>

section \<open>The state machine with a WAL (fsm.go)\<close>

datatype fsm_error =
    FsmParse | FsmBloom bloom_error | FsmUnknownCommand string | FsmReadSnapshot | FsmRestore bloom_error
  | FsmWal file_error | FsmMarshal | FsmSinkWrite | FsmSinkClose

text \<open>\<open>raft.Log\<close>, an entry of the replicated log.\<close>

record raft_entry =
  rl_Index :: u64
  rl_Term :: u64
  rl_Data :: bytes

record BloomFSM =
  fsm_bloom :: CountingBloomFilter
  fsm_wal :: WALEncryptor
  fsm_walWriter :: "(WALWriter \<times> dir) option"
  fsm_lastAppliedIndex :: u64
  fsm_lastAppliedTerm :: u64
  fsm_startTime :: int

record fsmSnapshot =
  fs_bloomData :: bytes
  fs_metadata :: "(string \<times> state_val) list"

text \<open>The WAL directory is \<open>None\<close> if the path is empty.\<close>

definition NewBloomFSM :: "wal_env \<Rightarrow> CountingBloomFilter \<Rightarrow> WALEncryptor \<Rightarrow> dir option \<Rightarrow> fsm_error + BloomFSM" where
  "NewBloomFSM env bf enc walDir =
     (let fsm = \<lparr>fsm_bloom = bf, fsm_wal = enc, fsm_walWriter = None, fsm_lastAppliedIndex = 0,
            fsm_lastAppliedTerm = 0, fsm_startTime = now_of env\<rparr>
      in case walDir of
          None \<Rightarrow> Inr fsm
        | Some d \<Rightarrow> (case NewWALWriter env d enc of
            (Inl err, d1) \<Rightarrow> Inl (FsmWal err)
          | (Inr w, d1) \<Rightarrow> Inr (fsm\<lparr>fsm_walWriter := Some (w, d1)\<rparr>)))"

definition parse_command :: "json_codec \<Rightarrow> bytes \<Rightarrow> Command option" where
  "parse_command J data = (case unmarshal_Command J data of
      Some cmd \<Rightarrow> Some cmd
    | None \<Rightarrow> (case unmarshal_FSMCommand J data of
        None \<Rightarrow> None
      | Some fsmCmd \<Rightarrow> Some \<lparr>cmd_Type = fc_Type fsmCmd, cmd_Item = fc_Item fsmCmd, cmd_Timestamp = fc_Timestamp fsmCmd\<rparr>))"

text \<open>The switch on the command type: the new filter and the result.\<close>

definition exec_command ::
  "(bytes \<Rightarrow> u32) \<Rightarrow> CountingBloomFilter \<Rightarrow> Command \<Rightarrow> panic + (fsm_error option \<times> CountingBloomFilter)" where
  "exec_command murmur bf cmd =
     (if cmd_Type cmd = ''add'' then
        go_bind (Add murmur bf (cmd_Item cmd)) (\<lambda>(err, bf'). Inr (map_option FsmBloom err, bf'))
      else if cmd_Type cmd = ''remove'' then
        go_bind (Remove murmur bf (cmd_Item cmd)) (\<lambda>bf'. Inr (None, bf'))
      else Inr (Some (FsmUnknownCommand (cmd_Type cmd)), bf))"

text \<open>The WAL entry of a command; its failures are logged and otherwise ignored.\<close>

definition wal_append ::
  "json_codec \<Rightarrow> (bytes \<Rightarrow> bytes \<Rightarrow> bytes \<Rightarrow> bytes) \<Rightarrow> wal_env \<Rightarrow> raft_entry \<Rightarrow> Command \<Rightarrow> WALWriter \<times> dir
    \<Rightarrow> panic + (WALWriter \<times> dir)" where
  "wal_append J seal env log cmd wd =
     (let walEntry = \<lparr>fc_Type = cmd_Type cmd, fc_Item = cmd_Item cmd, fc_Timestamp = now_of env,
            fc_Index = rl_Index log, fc_Term = rl_Term log\<rparr>
      in case marshal_FSMCommand J walEntry of
          None \<Rightarrow> Inr wd
        | Some walData \<Rightarrow>
            go_bind (wal_Write seal env (fst wd) (snd wd) walData) (\<lambda>(err, w, d). Inr (w, d)))"

definition fsm_Apply ::
  "json_codec \<Rightarrow> (bytes \<Rightarrow> u32) \<Rightarrow> (bytes \<Rightarrow> bytes \<Rightarrow> bytes \<Rightarrow> bytes) \<Rightarrow> wal_env \<Rightarrow> BloomFSM \<Rightarrow> raft_entry
    \<Rightarrow> panic + (fsm_error option \<times> BloomFSM)" where
  "fsm_Apply J murmur seal env f log = (case parse_command J (rl_Data log) of
      None \<Rightarrow> Inr (Some FsmParse, f)
    | Some cmd \<Rightarrow>
        go_bind (exec_command murmur (fsm_bloom f) cmd) (\<lambda>(result, bf).
        go_bind (case (fsm_walWriter f, result) of
                   (Some wd, None) \<Rightarrow> go_bind (wal_append J seal env log cmd wd) (\<lambda>wd'. Inr (Some wd'))
                 | _ \<Rightarrow> Inr (fsm_walWriter f)) (\<lambda>ww.
          Inr (result, f\<lparr>fsm_bloom := bf, fsm_walWriter := ww,
            fsm_lastAppliedIndex := rl_Index log, fsm_lastAppliedTerm := rl_Term log\<rparr>))))"

definition fsm_Snapshot :: "int \<Rightarrow> BloomFSM \<Rightarrow> fsmSnapshot" where
  "fsm_Snapshot now f = \<lparr>fs_bloomData = Serialize (fsm_bloom f),
     fs_metadata = [(''version'', SvString ''1.0''), (''created_by'', SvString ''distributed-bloom-filter''),
       (''bloom_size'', SvInt (Size (fsm_bloom f))), (''bloom_k'', SvInt (HashCount (fsm_bloom f))),
       (''last_applied_index'', SvUint (fsm_lastAppliedIndex f)), (''last_applied_term'', SvUint (fsm_lastAppliedTerm f)),
       (''timestamp'', SvInt now), (''start_time'', SvInt (fsm_startTime f))]\<rparr>"

text \<open>\<open>Persist\<close> into a sink whose write and close succeed or fail: the bytes stored, or the error.\<close>

definition Persist :: "json_codec \<Rightarrow> int \<Rightarrow> bool \<Rightarrow> bool \<Rightarrow> fsmSnapshot \<Rightarrow> fsm_error + bytes" where
  "Persist J now write_fails close_fails s =
     (let snapshotData = \<lparr>sd_BloomFilter = fs_bloomData s, sd_Metadata = fs_metadata s, sd_Timestamp = now,
            sd_Index = 0, sd_Term = 0\<rparr>
      in case marshal_SnapshotData J snapshotData of
          None \<Rightarrow> Inl FsmMarshal
        | Some data \<Rightarrow> if write_fails then Inl FsmSinkWrite
                       else if close_fails then Inl FsmSinkClose else Inr data)"

text \<open>\<open>Restore\<close>: the reader yields the stored bytes or fails.\<close>

definition fsm_Restore :: "json_codec \<Rightarrow> BloomFSM \<Rightarrow> bytes option \<Rightarrow> fsm_error option \<times> BloomFSM" where
  "fsm_Restore J f rc = (case rc of
      None \<Rightarrow> (Some FsmReadSnapshot, f)
    | Some data \<Rightarrow> (case unmarshal_SnapshotData J data of
        Some snapshotData \<Rightarrow> (case Deserialize (sd_BloomFilter snapshotData) of
            Inl err \<Rightarrow> (Some (FsmRestore err), f)
          | Inr newFilter \<Rightarrow> (None, f\<lparr>fsm_bloom := newFilter, fsm_lastAppliedIndex := sd_Index snapshotData,
              fsm_lastAppliedTerm := sd_Term snapshotData, fsm_startTime := sd_Timestamp snapshotData\<rparr>))
      | None \<Rightarrow> (case Deserialize data of
            Inl err \<Rightarrow> (Some (FsmRestore err), f)
          | Inr newFilter \<Rightarrow> (None, f\<lparr>fsm_bloom := newFilter\<rparr>))))"

definition fsm_GetBloomFilter :: "BloomFSM \<Rightarrow> CountingBloomFilter" where
  "fsm_GetBloomFilter f = fsm_bloom f"

definition fsm_GetLastAppliedIndex :: "BloomFSM \<Rightarrow> u64" where
  "fsm_GetLastAppliedIndex f = fsm_lastAppliedIndex f"

definition fsm_GetLastAppliedTerm :: "BloomFSM \<Rightarrow> u64" where
  "fsm_GetLastAppliedTerm f = fsm_lastAppliedTerm f"

definition fsm_GetStats :: "int \<Rightarrow> BloomFSM \<Rightarrow> (string \<times> state_val) list" where
  "fsm_GetStats now f = [(''bloom_size'', SvInt (Size (fsm_bloom f))), (''bloom_k'', SvInt (HashCount (fsm_bloom f))),
     (''last_applied_index'', SvUint (fsm_lastAppliedIndex f)), (''last_applied_term'', SvUint (fsm_lastAppliedTerm f)),
     (''start_time'', SvTime (fsm_startTime f)), (''uptime'', SvDuration (now - fsm_startTime f))]"

definition fsm_Close :: "wal_env \<Rightarrow> BloomFSM \<Rightarrow> file_error option \<times> BloomFSM" where
  "fsm_Close env f = (case fsm_walWriter f of
      None \<Rightarrow> (None, f)
    | Some (w, d) \<Rightarrow> (let (err, w') = wal_Close env w in (err, f\<lparr>fsm_walWriter := Some (w', d)\<rparr>)))"

section \<open>Runs\<close>

text \<open>The committed entries applied one after the other (the environments are those of the replica).\<close>

fun fsm_run ::
  "json_codec \<Rightarrow> (bytes \<Rightarrow> u32) \<Rightarrow> (bytes \<Rightarrow> bytes \<Rightarrow> bytes \<Rightarrow> bytes) \<Rightarrow> BloomFSM \<Rightarrow> (wal_env \<times> raft_entry) list
    \<Rightarrow> panic + (fsm_error option list \<times> BloomFSM)" where
  "fsm_run J murmur seal f [] = Inr ([], f)"
| "fsm_run J murmur seal f ((env, log) # es) =
     go_bind (fsm_Apply J murmur seal env f log) (\<lambda>(r, f1).
     go_bind (fsm_run J murmur seal f1 es) (\<lambda>(rs, f2). Inr (r # rs, f2)))"

text \<open>The specification: the filter as a function of the committed commands alone.\<close>

definition commands :: "json_codec \<Rightarrow> raft_entry list \<Rightarrow> Command list" where
  "commands J es = List.map_filter (\<lambda>e. parse_command J (rl_Data e)) es"

fun filter_run :: "(bytes \<Rightarrow> u32) \<Rightarrow> CountingBloomFilter \<Rightarrow> Command list \<Rightarrow> panic + CountingBloomFilter" where
  "filter_run murmur bf [] = Inr bf"
| "filter_run murmur bf (c # cs) = go_bind (exec_command murmur bf c) (\<lambda>(r, bf'). filter_run murmur bf' cs)"

section \<open>Commands\<close>

lemma parse_Command:
  "unmarshal_Command J d = Some c \<Longrightarrow> parse_command J d = Some c"
  by (simp add: parse_command_def)

lemma parse_FSMCommand:
  "unmarshal_Command J d = None \<Longrightarrow> unmarshal_FSMCommand J d = Some c \<Longrightarrow>
     parse_command J d = Some \<lparr>cmd_Type = fc_Type c, cmd_Item = fc_Item c, cmd_Timestamp = fc_Timestamp c\<rparr>"
  by (simp add: parse_command_def)

lemma exec_command_cong:
  "cmd_Type c = cmd_Type c' \<Longrightarrow> cmd_Item c = cmd_Item c' \<Longrightarrow> exec_command murmur bf c = exec_command murmur bf c'"
  by (simp add: exec_command_def)

definition fsm_ok :: "CountingBloomFilter \<Rightarrow> bool" where
  "fsm_ok bf \<longleftrightarrow> wf_cbf bf \<and> serializable bf"

lemma fsm_ok_update:
  "fsm_ok bf \<Longrightarrow> wf_cbf bf' \<Longrightarrow> cbf_m bf' = cbf_m bf \<Longrightarrow> cbf_k bf' = cbf_k bf \<Longrightarrow> fsm_ok bf'"
  by (auto simp: fsm_ok_def serializable_def wf_cbf_def)

text \<open>No command panics or makes the filter ill-formed.\<close>

lemma exec_command_total:
  assumes "wf_cbf bf"
  obtains r bf' where "exec_command murmur bf c = Inr (r, bf')" "wf_cbf bf'" "cbf_m bf' = cbf_m bf" "cbf_k bf' = cbf_k bf"
proof -
  obtain err bf' where "Add murmur bf (cmd_Item c) = Inr (err, bf')" "wf_cbf bf'" "cbf_m bf' = cbf_m bf" "cbf_k bf' = cbf_k bf"
    using Add_wf [OF assms] by blast
  moreover have "wf_cbf (bf\<lparr>counters := drain (counters bf) (item_positions murmur bf (cmd_Item c))\<rparr>)" using assms by simp
  ultimately show ?thesis
    using that assms Remove_eq [OF assms, of murmur "cmd_Item c"]
    by (cases "cmd_Type c = ''add''"; cases "cmd_Type c = ''remove''") (auto simp: exec_command_def go_bind_def)
qed

lemma exec_command_ok: "exec_command murmur bf c = Inr (r, bf') \<Longrightarrow> fsm_ok bf \<Longrightarrow> fsm_ok bf'"
  by (rule exec_command_total [of bf murmur c]) (auto simp: fsm_ok_def serializable_def wf_cbf_def)

section \<open>Refinement\<close>

text \<open>What an entry does to the filter and answers never depends on the WAL.\<close>

lemma fsm_Apply_None:
  "parse_command J (rl_Data e) = None \<Longrightarrow> fsm_Apply J murmur seal env f e = Inr (Some FsmParse, f)"
  by (simp add: fsm_Apply_def)

lemma fsm_Apply_exec:
  "fsm_Apply J murmur seal env f e = Inr (r, f') \<Longrightarrow> parse_command J (rl_Data e) = Some cmd \<Longrightarrow>
     exec_command murmur (fsm_bloom f) cmd = Inr (r, fsm_bloom f')
   \<and> fsm_lastAppliedIndex f' = rl_Index e \<and> fsm_lastAppliedTerm f' = rl_Term e"
  by (auto simp: fsm_Apply_def go_bind_eq_Inr_iff)

lemma commands_Cons:
  "commands J (e # es) = (case parse_command J (rl_Data e) of None \<Rightarrow> commands J es | Some c \<Rightarrow> c # commands J es)"
  by (simp add: commands_def map_filter_simps split: option.splits)

lemma fsm_run_refines:
  "fsm_run J murmur seal f es = Inr (rs, f') \<Longrightarrow>
     filter_run murmur (fsm_bloom f) (commands J (map snd es)) = Inr (fsm_bloom f')"
proof (induction es arbitrary: f rs)
  case (Cons x es)
  obtain env e where x: "x = (env, e)" by force
  from Cons.prems x obtain r f1 rs1 where s: "fsm_Apply J murmur seal env f e = Inr (r, f1)"
    and t: "fsm_run J murmur seal f1 es = Inr (rs1, f')" by (auto simp: go_bind_eq_Inr_iff)
  show ?case
  proof (cases "parse_command J (rl_Data e)")
    case None
    with s have "f1 = f" by (simp add: fsm_Apply_None)
    with Cons.IH [OF t] None x show ?thesis by (simp add: commands_Cons)
  next
    case (Some cmd)
    with fsm_Apply_exec [OF s Some] Cons.IH [OF t] x show ?thesis by (simp add: commands_Cons go_bind_def)
  qed
qed (simp add: commands_def map_filter_simps)

lemma fsm_run_results:
  "fsm_run J murmur seal f es = Inr (rs, f') \<Longrightarrow> fsm_run J murmur seal' g es' = Inr (rs', g') \<Longrightarrow>
     fsm_bloom f = fsm_bloom g \<Longrightarrow> map snd es = map snd es' \<Longrightarrow> rs = rs' \<and> fsm_bloom f' = fsm_bloom g'"
proof (induction es arbitrary: f g rs rs' es')
  case (Cons x es)
  obtain env e where x: "x = (env, e)" by force
  obtain env' es1 where y: "es' = (env', e) # es1" "map snd es = map snd es1"
    using Cons.prems(4) x by (cases es') auto
  from Cons.prems(1) x obtain r f1 rs1 where s: "fsm_Apply J murmur seal env f e = Inr (r, f1)"
    and t: "fsm_run J murmur seal f1 es = Inr (rs1, f')" "rs = r # rs1" by (auto simp: go_bind_eq_Inr_iff)
  from Cons.prems(2) y obtain r' g1 rs2 where s': "fsm_Apply J murmur seal' env' g e = Inr (r', g1)"
    and t': "fsm_run J murmur seal' g1 es1 = Inr (rs2, g')" "rs' = r' # rs2" by (auto simp: go_bind_eq_Inr_iff)
  have "r = r' \<and> fsm_bloom f1 = fsm_bloom g1"
  proof (cases "parse_command J (rl_Data e)")
    case None
    with s s' Cons.prems(3) show ?thesis by (simp add: fsm_Apply_None)
  next
    case (Some cmd)
    from fsm_Apply_exec [OF s Some] fsm_Apply_exec [OF s' Some] Cons.prems(3) show ?thesis by simp
  qed
  with Cons.IH [OF t(1) t'(1) _ y(2)] t t' show ?case by simp
qed simp

lemma fsm_run_ok: "fsm_run J murmur seal f es = Inr (rs, f') \<Longrightarrow> fsm_ok (fsm_bloom f) \<Longrightarrow> fsm_ok (fsm_bloom f')"
proof (induction es arbitrary: f rs)
  case (Cons x es)
  obtain env e where x: "x = (env, e)" by force
  from Cons.prems x obtain r f1 rs1 where s: "fsm_Apply J murmur seal env f e = Inr (r, f1)"
    and t: "fsm_run J murmur seal f1 es = Inr (rs1, f')" by (auto simp: go_bind_eq_Inr_iff)
  have "fsm_ok (fsm_bloom f1)"
    using s fsm_Apply_exec [OF s] exec_command_ok Cons.prems(2)
    by (cases "parse_command J (rl_Data e)") (auto simp: fsm_Apply_None)
  with Cons.IH [OF t] show ?case by simp
qed simp

lemma fsm_run_no_wal:
  "fsm_walWriter f = None \<Longrightarrow> wf_cbf (fsm_bloom f) \<Longrightarrow>
     \<exists>rs f'. fsm_run J murmur seal f es = Inr (rs, f') \<and> fsm_walWriter f' = None \<and> wf_cbf (fsm_bloom f')"
proof (induction es arbitrary: f)
  case (Cons x es)
  obtain env e where x: "x = (env, e)" by force
  have "\<exists>r f1. fsm_Apply J murmur seal env f e = Inr (r, f1) \<and> fsm_walWriter f1 = None \<and> wf_cbf (fsm_bloom f1)"
  proof (cases "parse_command J (rl_Data e)")
    case (Some cmd)
    obtain r bf where "exec_command murmur (fsm_bloom f) cmd = Inr (r, bf)" "wf_cbf bf"
      using exec_command_total [OF Cons.prems(2)] by metis
    with Some Cons.prems(1) show ?thesis by (simp add: fsm_Apply_def go_bind_def)
  qed (use Cons.prems in \<open>simp add: fsm_Apply_None\<close>)
  then obtain r f1 where s: "fsm_Apply J murmur seal env f e = Inr (r, f1)" "fsm_walWriter f1 = None" "wf_cbf (fsm_bloom f1)"
    by blast
  from Cons.IH [OF s(2,3)] s x show ?case by (auto simp: go_bind_def)
qed simp

section \<open>Snapshots\<close>

lemma Persist_Restore:
  assumes "json_ok J" and "time_ok now" and "serializable (fsm_bloom f)"
  obtains data g' where "Persist J now False False (fsm_Snapshot t f) = Inr data"
    "fsm_Restore J g (Some data) = (None, g')" "fsm_bloom g' = fsm_bloom f" "fsm_walWriter g' = fsm_walWriter g"
    "fsm_lastAppliedIndex g' = 0" "fsm_lastAppliedTerm g' = 0"
proof -
  let ?s = "\<lparr>sd_BloomFilter = fs_bloomData (fsm_Snapshot t f), sd_Metadata = fs_metadata (fsm_Snapshot t f),
    sd_Timestamp = now, sd_Index = 0, sd_Term = 0\<rparr>"
  obtain d s' where j: "marshal_SnapshotData J ?s = Some d" "unmarshal_SnapshotData J d = Some s'"
    "sd_BloomFilter s' = fs_bloomData (fsm_Snapshot t f)" "sd_Index s' = 0" "sd_Term s' = 0"
    by (rule json_SnapshotData [OF assms(1), of ?s]) (use assms(2) in auto)
  show ?thesis
    by (rule that [of d "g\<lparr>fsm_bloom := fsm_bloom f, fsm_lastAppliedIndex := 0, fsm_lastAppliedTerm := 0,
        fsm_startTime := sd_Timestamp s'\<rparr>"]) (use j in \<open>auto simp: Persist_def fsm_Restore_def fsm_Snapshot_def Deserialize_Serialize [OF assms(3)]\<close>)
qed

text \<open>C7: a snapshot followed by the rest of the log gives the state of the whole log. If a replica applies
  the entries \<open>es\<close> and persists a snapshot, the snapshot can be written, any other replica restores
  it without error, and after applying the same further entries both hold the same filter and have
  given the same results, whatever their write-ahead logs and disks did.\<close>

theorem snapshot_and_replay:
  assumes "json_ok J" and "time_ok now" and "fsm_ok (fsm_bloom f)" and "fsm_run J murmur seal f es = Inr (rs, f1)"
  shows "\<exists>data g1. Persist J now False False (fsm_Snapshot t f1) = Inr data
    \<and> fsm_Restore J g (Some data) = (None, g1) \<and> fsm_bloom g1 = fsm_bloom f1
    \<and> (\<forall>seal' es1 es2 rs1 rs2 f2 g2. map snd es1 = map snd es2
         \<and> fsm_run J murmur seal f1 es1 = Inr (rs1, f2) \<and> fsm_run J murmur seal' g1 es2 = Inr (rs2, g2)
         \<longrightarrow> rs1 = rs2 \<and> fsm_bloom g2 = fsm_bloom f2)"
proof -
  have "serializable (fsm_bloom f1)" using fsm_run_ok [OF assms(4,3)] by (simp add: fsm_ok_def)
  from Persist_Restore [OF assms(1,2) this, of t g] obtain data g1 where
    "Persist J now False False (fsm_Snapshot t f1) = Inr data" "fsm_Restore J g (Some data) = (None, g1)"
    and b: "fsm_bloom g1 = fsm_bloom f1" by metis
  moreover have "rs1 = rs2 \<and> fsm_bloom g2 = fsm_bloom f2"
    if "map snd es1 = map snd es2" "fsm_run J murmur seal f1 es1 = Inr (rs1, f2)" "fsm_run J murmur seal' g1 es2 = Inr (rs2, g2)"
    for seal' es1 es2 rs1 rs2 f2 g2
    using fsm_run_results [OF that(2,3)] b that(1) by simp
  ultimately show ?thesis by blast
qed

text \<open>A filter of four counters and the log of two clients' operations, for concrete runs.\<close>

definition demo_murmur :: "bytes \<Rightarrow> u32" where
  "demo_murmur b = (if b = [1] then 3 else 5)"

definition demo_filter :: CountingBloomFilter where
  "demo_filter = \<lparr>cbf_m = 4, cbf_k = 2, counters = [0, 0, 0, 0]\<rparr>"

definition demo_fsm :: BloomFSM where
  "demo_fsm = \<lparr>fsm_bloom = demo_filter, fsm_wal = demo_encryptor, fsm_walWriter = None, fsm_lastAppliedIndex = 0,
     fsm_lastAppliedTerm = 0, fsm_startTime = 0\<rparr>"

definition demo_entry :: "u64 \<Rightarrow> string \<Rightarrow> bytes \<Rightarrow> raft_entry" where
  "demo_entry i ty x = \<lparr>rl_Index = i, rl_Term = 1,
     rl_Data = the (marshal_Command demo_json \<lparr>cmd_Type = ty, cmd_Item = x, cmd_Timestamp = 0\<rparr>)\<rparr>"

lemma demo_fsm_ok: "fsm_ok (fsm_bloom demo_fsm)"
  by (simp add: fsm_ok_def wf_cbf_def serializable_def demo_fsm_def demo_filter_def MaxFilterSize_def MaxHashFunctions_def)

lemma demo_entry_parse:
  "ascii ty \<Longrightarrow> parse_command demo_json (rl_Data (demo_entry i ty x)) = Some \<lparr>cmd_Type = ty, cmd_Item = x, cmd_Timestamp = 0\<rparr>"
  by (rule json_Command [OF demo_json_ok, of "\<lparr>cmd_Type = ty, cmd_Item = x, cmd_Timestamp = 0\<rparr>"])
    (auto simp: demo_entry_def time_ok_def intro: parse_Command)

lemma demo_run:
  "\<exists>f'. fsm_run demo_json demo_murmur seal demo_fsm
     [(env, demo_entry 1 ''add'' [1]), (env, demo_entry 2 ''add'' [2]), (env, demo_entry 3 ''remove'' [2])] = Inr ([None, None, None], f')
   \<and> fsm_bloom f' = \<lparr>cbf_m = 4, cbf_k = 2, counters = [1, 0, 0, 1]\<rparr> \<and> fsm_walWriter f' = None"
proof -
  let ?c = "\<lambda>cs. \<lparr>cbf_m = 4, cbf_k = 2, counters = cs\<rparr> :: CountingBloomFilter"
  have "Add demo_murmur (?c [0, 0, 0, 0]) [1] = Inr (None, ?c [1, 0, 0, 1])" by code_simp
  moreover have "Add demo_murmur (?c [1, 0, 0, 1]) [2] = Inr (None, ?c [2, 1, 0, 1])" by code_simp
  moreover have "Remove demo_murmur (?c [2, 1, 0, 1]) [2] = Inr (?c [1, 0, 0, 1])" by code_simp
  ultimately show ?thesis
    by (simp add: fsm_Apply_def demo_entry_parse ascii_def exec_command_def go_bind_def demo_fsm_def demo_filter_def)
qed

theorem snapshot_and_replay_witness:
  "\<exists>f1 data g1. fsm_run demo_json demo_murmur (\<lambda>k n p. p) demo_fsm
       [(demo_env, demo_entry 1 ''add'' [1]), (demo_env, demo_entry 2 ''add'' [2]), (demo_env, demo_entry 3 ''remove'' [2])]
       = Inr ([None, None, None], f1)
    \<and> Persist demo_json 100 False False (fsm_Snapshot 50 f1) = Inr data
    \<and> fsm_Restore demo_json demo_fsm (Some data) = (None, g1)
    \<and> fsm_bloom g1 = \<lparr>cbf_m = 4, cbf_k = 2, counters = [1, 0, 0, 1]\<rparr>"
proof -
  obtain f1 where r: "fsm_run demo_json demo_murmur (\<lambda>k n p. p) demo_fsm
       [(demo_env, demo_entry 1 ''add'' [1]), (demo_env, demo_entry 2 ''add'' [2]), (demo_env, demo_entry 3 ''remove'' [2])]
       = Inr ([None, None, None], f1)" and b: "fsm_bloom f1 = \<lparr>cbf_m = 4, cbf_k = 2, counters = [1, 0, 0, 1]\<rparr>"
    using demo_run by blast
  have t: "time_ok 100" by (simp add: time_ok_def)
  from snapshot_and_replay [OF demo_json_ok t demo_fsm_ok r, of 50 demo_fsm] r b show ?thesis by auto
qed

section \<open>Replicated membership\<close>

text \<open>The write operations of a client history, as the type and item of their commands.\<close>

fun op_pairs :: "bytes filter_op list \<Rightarrow> (string \<times> bytes) list" where
  "op_pairs [] = []"
| "op_pairs (AddOp x # ops) = (''add'', x) # op_pairs ops"
| "op_pairs (RemoveOp x # ops) = (''remove'', x) # op_pairs ops"
| "op_pairs (ContainsOp x # ops) = op_pairs ops"

definition cmd_pair :: "Command \<Rightarrow> string \<times> bytes" where
  "cmd_pair c = (cmd_Type c, cmd_Item c)"

lemma exec_add:
  "wf_cbf bf \<Longrightarrow> cmd_pair c = (''add'', x) \<Longrightarrow>
     \<exists>r. exec_command murmur bf c = Inr (r, snd (filter_add murmur bf x)) \<and> wf_cbf (snd (filter_add murmur bf x))"
  using Add_wf [of bf murmur x] by (auto simp: exec_command_def filter_add_def cmd_pair_def go_bind_def)

lemma exec_remove:
  "wf_cbf bf \<Longrightarrow> cmd_pair c = (''remove'', x) \<Longrightarrow>
     exec_command murmur bf c = Inr (None, filter_remove murmur bf x) \<and> wf_cbf (filter_remove murmur bf x)"
  by (auto simp: exec_command_def filter_remove_def cmd_pair_def go_bind_def Remove_eq)

lemma filter_run_ops:
  "wf_cbf bf \<Longrightarrow> map cmd_pair cs = op_pairs ops \<Longrightarrow>
     filter_run murmur bf cs
       = Inr (fst (run_ops (filter_add murmur) (filter_remove murmur) (filter_contains murmur) bf M ops))"
proof (induction ops arbitrary: bf cs M rule: op_pairs.induct)
  case (2 x ops)
  then obtain c cs' where c: "cs = c # cs'" "cmd_pair c = (''add'', x)" "map cmd_pair cs' = op_pairs ops" by auto
  obtain r where "exec_command murmur bf c = Inr (r, snd (filter_add murmur bf x))" "wf_cbf (snd (filter_add murmur bf x))"
    using exec_add [OF "2.prems"(1) c(2)] by blast
  with "2.IH" c(1,3) show ?case by (simp add: go_bind_def split_def Let_def)
next
  case (3 x ops)
  then obtain c cs' where c: "cs = c # cs'" "cmd_pair c = (''remove'', x)" "map cmd_pair cs' = op_pairs ops" by auto
  with exec_remove [OF "3.prems"(1) c(2), of murmur] "3.IH" show ?case by (simp add: go_bind_def)
qed (simp_all add: filter_contains_def)

text \<open>C2: replication keeps the filter's promise. Take any legal history of client operations and any
  log whose commands are its additions and removals; entries that are no command may lie between
  them. A replica that started empty and applied the log contains every item that is added and not
  yet removed, even if its disk failed and additions overflowed on the way.\<close>

theorem replicated_no_false_negatives:
  assumes "2 \<le> m" and "m < 2 ^ 63" and "0 \<le> k" and "NewCountingBloomFilter m k = Inr (fsm_bloom f)"
    and "fsm_run J murmur seal f es = Inr (rs, f')"
    and "map cmd_pair (commands J (map snd es)) = op_pairs ops"
    and "legal_ops (filter_add murmur) (filter_remove murmur) (filter_contains murmur) (fsm_bloom f) {#} ops"
    and "run_ops (filter_add murmur) (filter_remove murmur) (filter_contains murmur) (fsm_bloom f) {#} ops = (c, M)"
    and "x \<in># M"
  shows "Contains murmur (fsm_bloom f') x = Inr True"
proof -
  have c: "covers murmur (fsm_bloom f) {#}" using covers_new [OF assms(1-3)] assms(4) represents_covers by auto
  have "Inr (fsm_bloom f') = (Inr c :: panic + CountingBloomFilter)"
    using fsm_run_refines [OF assms(5)] filter_run_ops [OF covers_wf [OF c] assms(6), of murmur "{#}"] assms(8) by simp
  moreover have "fst (filter_contains murmur c x)" using cbf.no_false_negative [OF c assms(7,8,9)] .
  ultimately show ?thesis by (simp add: filter_contains_def)
qed

theorem replicated_no_false_negatives_witness:
  "\<exists>f'. fsm_run demo_json demo_murmur (\<lambda>k n p. p) demo_fsm
       [(demo_env, demo_entry 1 ''add'' [1]), (demo_env, demo_entry 2 ''add'' [2]), (demo_env, demo_entry 3 ''remove'' [2])]
       = Inr ([None, None, None], f')
    \<and> Contains demo_murmur (fsm_bloom f') [1] = Inr True"
proof -
  let ?es = "[(demo_env, demo_entry 1 ''add'' [1]), (demo_env, demo_entry 2 ''add'' [2]), (demo_env, demo_entry 3 ''remove'' [2])]"
  let ?ops = "[AddOp [1], AddOp [2], RemoveOp [2]] :: bytes filter_op list"
  obtain f' where r: "fsm_run demo_json demo_murmur (\<lambda>k n p. p) demo_fsm ?es = Inr ([None, None, None], f')"
    using demo_run by blast
  have n: "NewCountingBloomFilter 4 2 = Inr (fsm_bloom demo_fsm)" by code_simp
  have o: "map cmd_pair (commands demo_json (map snd ?es)) = op_pairs ?ops"
    by (simp add: commands_Cons demo_entry_parse ascii_def cmd_pair_def) (simp add: commands_def map_filter_simps)
  have l: "legal_ops (filter_add demo_murmur) (filter_remove demo_murmur) (filter_contains demo_murmur) (fsm_bloom demo_fsm) {#} ?ops"
    by code_simp
  have u: "run_ops (filter_add demo_murmur) (filter_remove demo_murmur) (filter_contains demo_murmur) (fsm_bloom demo_fsm) {#} ?ops
    = (\<lparr>cbf_m = 4, cbf_k = 2, counters = [1, 0, 0, 1]\<rparr>, {#[1]#})" by code_simp
  from replicated_no_false_negatives [OF _ _ _ n r o l u, of "[1]"] r show ?thesis by simp
qed

section \<open>The state machine and its WAL\<close>

text \<open>The record \<open>Apply\<close> writes for an entry.\<close>

definition wal_record :: "json_codec \<Rightarrow> wal_env \<times> raft_entry \<Rightarrow> wal_env \<times> bytes" where
  "wal_record J x = (fst x, case parse_command J (rl_Data (snd x)) of None \<Rightarrow> []
     | Some cmd \<Rightarrow> the (marshal_FSMCommand J \<lparr>fc_Type = cmd_Type cmd, fc_Item = cmd_Item cmd,
         fc_Timestamp = now_of (fst x), fc_Index = rl_Index (snd x), fc_Term = rl_Term (snd x)\<rparr>))"

text \<open>Records as log entries, for a replay.\<close>

definition replay_entry :: "wal_env \<Rightarrow> bytes \<Rightarrow> wal_env \<times> raft_entry" where
  "replay_entry env p = (env, \<lparr>rl_Index = 0, rl_Term = 0, rl_Data = p\<rparr>)"

lemma exec_success_type: "exec_command murmur bf c = Inr (None, bf') \<Longrightarrow> cmd_Type c = ''add'' \<or> cmd_Type c = ''remove''"
  by (auto simp: exec_command_def split: if_splits)

text \<open>A successful entry leaves a record that does the same to the filter.\<close>

lemma wal_record_command:
  assumes "json_ok J" and "parse_command J (rl_Data e) = Some cmd" and "exec_command murmur bf cmd = Inr (None, bf')"
  obtains p cmd' where "wal_record J (env, e) = (env, p)"
    "marshal_FSMCommand J \<lparr>fc_Type = cmd_Type cmd, fc_Item = cmd_Item cmd, fc_Timestamp = now_of env,
      fc_Index = rl_Index e, fc_Term = rl_Term e\<rparr> = Some p"
    "parse_command J p = Some cmd'" "cmd_pair cmd' = cmd_pair cmd"
proof -
  let ?c = "\<lparr>fc_Type = cmd_Type cmd, fc_Item = cmd_Item cmd, fc_Timestamp = now_of env, fc_Index = rl_Index e, fc_Term = rl_Term e\<rparr>"
  have "ascii (fc_Type ?c)" using exec_success_type [OF assms(3)] by (auto simp: ascii_def)
  from json_FSMCommand [OF assms(1) this] obtain p where p: "marshal_FSMCommand J ?c = Some p"
    "unmarshal_FSMCommand J p = Some ?c" "unmarshal_Command J p = None" .
  show ?thesis
    by (rule that [OF _ p(1) parse_FSMCommand [OF p(3,2)]]) (use p(1) assms(2) in \<open>auto simp: wal_record_def cmd_pair_def\<close>)
qed

lemma fsm_Apply_writes:
  assumes "json_ok J" and "fsm_Apply J murmur seal env f e = Inr (None, f')" and "fsm_walWriter f = Some (w, d)"
    and "wal_Write seal env w d (snd (wal_record J (env, e))) = Inr (None, w', d')"
  obtains cmd cmd' where "parse_command J (rl_Data e) = Some cmd"
    "parse_command J (snd (wal_record J (env, e))) = Some cmd'" "cmd_pair cmd' = cmd_pair cmd"
    "fsm_walWriter f' = Some (w', d')" "exec_command murmur (fsm_bloom f) cmd = Inr (None, fsm_bloom f')"
proof -
  obtain cmd where c: "parse_command J (rl_Data e) = Some cmd"
    using assms(2) by (cases "parse_command J (rl_Data e)") (auto simp: fsm_Apply_None)
  note x = conjunct1 [OF fsm_Apply_exec [OF assms(2) c]]
  from wal_record_command [OF assms(1) c x, of env] obtain p cmd' where p: "wal_record J (env, e) = (env, p)"
    "marshal_FSMCommand J \<lparr>fc_Type = cmd_Type cmd, fc_Item = cmd_Item cmd, fc_Timestamp = now_of env,
      fc_Index = rl_Index e, fc_Term = rl_Term e\<rparr> = Some p"
    "parse_command J p = Some cmd'" "cmd_pair cmd' = cmd_pair cmd" .
  have "fsm_walWriter f' = Some (w', d')"
    using assms(2-4) c x p(1,2)
    by (auto simp: fsm_Apply_def wal_append_def go_bind_def dest: arg_cong [where f = fsm_walWriter])
  with that c x p show ?thesis by auto
qed

lemma exec_pair: "cmd_pair c = cmd_pair c' \<Longrightarrow> exec_command murmur bf c = exec_command murmur bf c'"
  by (auto simp: cmd_pair_def intro: exec_command_cong)

text \<open>If no entry and no WAL write fails, the writer goes through exactly the records of the entries, and
  these records have the filter's commands.\<close>

lemma fsm_run_writes:
  "json_ok J \<Longrightarrow> fsm_run J murmur seal f es = Inr (rs, f') \<Longrightarrow> list_all (\<lambda>r. r = None) rs \<Longrightarrow>
     fsm_walWriter f = Some (w, d) \<Longrightarrow> wal_run seal w d (map (wal_record J) es) = Some (w', d') \<Longrightarrow>
     fsm_walWriter f' = Some (w', d')
   \<and> filter_run murmur (fsm_bloom f) (commands J (map (snd \<circ> replay_entry env' \<circ> snd \<circ> wal_record J) es)) = Inr (fsm_bloom f')"
proof (induction es arbitrary: f rs w d)
  case (Cons x es)
  obtain env e where x: "x = (env, e)" by force
  let ?p = "snd (wal_record J (env, e))"
  have wr: "wal_record J (env, e) = (env, ?p)" by (simp add: wal_record_def)
  from Cons.prems(2,3) x obtain f1 rs1 where s: "fsm_Apply J murmur seal env f e = Inr (None, f1)"
    and t: "fsm_run J murmur seal f1 es = Inr (rs1, f')" "list_all (\<lambda>r. r = None) rs1" by (auto simp: go_bind_eq_Inr_iff)
  from Cons.prems(5) x wr obtain w1 d1 where v: "wal_Write seal env w d ?p = Inr (None, w1, d1)"
    "wal_run seal w1 d1 (map (wal_record J) es) = Some (w', d')"
    by (cases "wal_record J (env, e)") (auto split: sum.splits option.splits)
  from fsm_Apply_writes [OF Cons.prems(1) s Cons.prems(4) v(1)] obtain cmd cmd' where
    c: "parse_command J ?p = Some cmd'" "cmd_pair cmd' = cmd_pair cmd" "fsm_walWriter f1 = Some (w1, d1)"
      "exec_command murmur (fsm_bloom f) cmd = Inr (None, fsm_bloom f1)" .
  with exec_pair [OF c(2)] Cons.IH [OF Cons.prems(1) t c(3) v(2)] x show ?case
    by (simp add: commands_Cons replay_entry_def go_bind_def)
qed (simp add: commands_def map_filter_simps)



end
