(* ===== verification/Tls_Config.thy ===== *)
theory Tls_Config
  imports Go_Prelude
begin

text \<open>
  \<open>src/pkg/tls/config.go\<close>: building a TLS configuration from certificate files and reloading the
  files when they are old. The standard library's X.509 code and the file system are the parameters of
  the record \<open>tls_lib\<close>: \<open>'c\<close> is a certificate with its key, \<open>'x\<close> a parsed certificate. A certificate pool
  is the list of its certificates. Each call takes the time it runs at as an argument.
\<close>

section \<open>The library\<close>

type_synonym u16 = "16 word"

datatype ClientAuthType =
    NoClientCert | RequestClientCert | RequireAnyClientCert | VerifyClientCertIfGiven | RequireAndVerifyClientCert

definition VersionTLS12 :: u16 where "VersionTLS12 = 0x0303"
definition VersionTLS13 :: u16 where "VersionTLS13 = 0x0304"

text \<open>
  \<open>AppendCertsFromPEM\<close> appends the certificates it can parse and reports whether there was one, so it
  is the list \<open>pem_certs\<close> of these; \<open>pem_Decode\<close> yields the type and the bytes of the first block.
\<close>

record ('c, 'x) tls_lib =
  LoadX509KeyPair :: "string \<Rightarrow> string \<Rightarrow> 'c option"
  tls_ReadFile :: "string \<Rightarrow> bytes option"
  pem_certs :: "bytes \<Rightarrow> 'x list"
  pem_Decode :: "bytes \<Rightarrow> (string \<times> bytes) option"
  ParseCertificate :: "bytes \<Rightarrow> 'x option"
  x509_Verify :: "'x list option \<Rightarrow> 'x \<Rightarrow> bool"

text \<open>The fields of \<open>crypto/tls.Config\<close> the program sets. An absent pool stands for the system's roots.\<close>

record ('c, 'x) tls_Config =
  tc_Certificates :: "'c list"
  tc_MinVersion :: u16
  tc_CipherSuites :: "u16 list"
  tc_ClientAuth :: ClientAuthType
  tc_ClientCAs :: "'x list option"
  tc_RootCAs :: "'x list option"
  tc_ServerName :: string
  tc_InsecureSkipVerify :: bool

section \<open>Loading\<close>

datatype tls_error =
    LoadCertificateFailed | ReadCAFailed | ParseCAFailed | InitialLoadFailed tls_error
  | DecodePEMFailed | ParseCertificateFailed | ValidationFailed | UseCertgenTool

record Config =
  cf_CertPath :: string
  cf_KeyPath :: string
  cf_CAPath :: string
  cf_MinVersion :: u16
  cf_CipherSuites :: "u16 list"
  cf_ClientAuth :: ClientAuthType

record ('c, 'x) CertReloader =
  cr_config :: Config
  cr_cert :: "'c option"
  cr_caPool :: "'x list option"
  cr_lastLoad :: int
  cr_reloadDur :: int

definition secureCipherSuites :: "u16 list" where
  "secureCipherSuites = [0x1301, 0x1302, 0x1303]"

definition DefaultTLSConfig :: Config where
  "DefaultTLSConfig = \<lparr>cf_CertPath = '''', cf_KeyPath = '''', cf_CAPath = '''', cf_MinVersion = VersionTLS13,
     cf_CipherSuites = secureCipherSuites, cf_ClientAuth = RequireAndVerifyClientCert\<rparr>"

definition LoadTLSCertificate :: "('c, 'x) tls_lib \<Rightarrow> string \<Rightarrow> string \<Rightarrow> tls_error + 'c" where
  "LoadTLSCertificate L certPath keyPath = (case LoadX509KeyPair L certPath keyPath of
      None \<Rightarrow> Inl LoadCertificateFailed | Some cert \<Rightarrow> Inr cert)"

definition LoadCACertPool :: "('c, 'x) tls_lib \<Rightarrow> string \<Rightarrow> tls_error + 'x list" where
  "LoadCACertPool L caPath = (case tls_ReadFile L caPath of
      None \<Rightarrow> Inl ReadCAFailed
    | Some caPEM \<Rightarrow> if pem_certs L caPEM = [] then Inl ParseCAFailed else Inr (pem_certs L caPEM))"

definition BuildTLSConfig :: "('c, 'x) tls_lib \<Rightarrow> Config \<Rightarrow> tls_error + ('c, 'x) tls_Config" where
  "BuildTLSConfig L cfg =
     go_bind (LoadTLSCertificate L (cf_CertPath cfg) (cf_KeyPath cfg)) (\<lambda>cert.
       let tlsConfig = \<lparr>tc_Certificates = [cert], tc_MinVersion = cf_MinVersion cfg,
             tc_CipherSuites = cf_CipherSuites cfg, tc_ClientAuth = cf_ClientAuth cfg,
             tc_ClientCAs = None, tc_RootCAs = None, tc_ServerName = '''', tc_InsecureSkipVerify = False\<rparr>
       in if cf_CAPath cfg \<noteq> '''' \<and> cf_ClientAuth cfg \<noteq> NoClientCert then
            go_bind (LoadCACertPool L (cf_CAPath cfg)) (\<lambda>caPool. Inr (tlsConfig\<lparr>tc_ClientCAs := Some caPool\<rparr>))
          else Inr tlsConfig)"

section \<open>Reloading\<close>

text \<open>A failed reload keeps what it had stored before the failure.\<close>

definition reload :: "('c, 'x) tls_lib \<Rightarrow> int \<Rightarrow> ('c, 'x) CertReloader \<Rightarrow> tls_error option \<times> ('c, 'x) CertReloader" where
  "reload L now r = (case LoadTLSCertificate L (cf_CertPath (cr_config r)) (cf_KeyPath (cr_config r)) of
      Inl err \<Rightarrow> (Some err, r)
    | Inr cert \<Rightarrow>
        let r1 = r\<lparr>cr_cert := Some cert\<rparr> in
        if cf_CAPath (cr_config r) \<noteq> '''' then
          (case LoadCACertPool L (cf_CAPath (cr_config r)) of
             Inl err \<Rightarrow> (Some err, r1)
           | Inr caPool \<Rightarrow> (None, r1\<lparr>cr_caPool := Some caPool, cr_lastLoad := now\<rparr>))
        else (None, r1\<lparr>cr_lastLoad := now\<rparr>))"

text \<open>The zero time of a reloader that has loaded nothing is never read: creation fails first.\<close>

definition NewCertReloader :: "('c, 'x) tls_lib \<Rightarrow> int \<Rightarrow> Config \<Rightarrow> int \<Rightarrow> tls_error + ('c, 'x) CertReloader" where
  "NewCertReloader L now cfg reloadInterval =
     (let (err, r) = reload L now \<lparr>cr_config = cfg, cr_cert = None, cr_caPool = None, cr_lastLoad = 0,
            cr_reloadDur = reloadInterval\<rparr>
      in case err of Some e \<Rightarrow> Inl (InitialLoadFailed e) | None \<Rightarrow> Inr r)"

text \<open>Dereferencing a certificate that was never loaded is a panic.\<close>

definition GetTLSConfig ::
  "('c, 'x) tls_lib \<Rightarrow> int \<Rightarrow> ('c, 'x) CertReloader
    \<Rightarrow> panic + ((tls_error + ('c, 'x) tls_Config) \<times> ('c, 'x) CertReloader)" where
  "GetTLSConfig L now r =
     (let (err, r1) = (if now - cr_lastLoad r > cr_reloadDur r then reload L now r else (None, r)) in
      case err of
        Some e \<Rightarrow> Inr (Inl e, r1)
      | None \<Rightarrow> (case cr_cert r1 of
          None \<Rightarrow> Inl NilDereference
        | Some cert \<Rightarrow> Inr (Inr \<lparr>tc_Certificates = [cert], tc_MinVersion = cf_MinVersion (cr_config r1),
            tc_CipherSuites = cf_CipherSuites (cr_config r1), tc_ClientAuth = cf_ClientAuth (cr_config r1),
            tc_ClientCAs = cr_caPool r1, tc_RootCAs = None, tc_ServerName = '''', tc_InsecureSkipVerify = False\<rparr>, r1)))"

definition ValidateCertificate :: "('c, 'x) tls_lib \<Rightarrow> bytes \<Rightarrow> 'x list option \<Rightarrow> tls_error option" where
  "ValidateCertificate L certPEM caPool = (case pem_Decode L certPEM of
      None \<Rightarrow> Some DecodePEMFailed
    | Some (ty, der) \<Rightarrow>
        if ty \<noteq> ''CERTIFICATE'' then Some DecodePEMFailed
        else (case ParseCertificate L der of
            None \<Rightarrow> Some ParseCertificateFailed
          | Some clientCert \<Rightarrow> if x509_Verify L caPool clientCert then None else Some ValidationFailed))"

definition GenerateSelfSignedCert :: "string \<Rightarrow> tls_error + (bytes \<times> bytes)" where
  "GenerateSelfSignedCert host = Inl UseCertgenTool"

text \<open>The certificate that the \<open>GetCertificate\<close> callback of a configuration returns is the reloader's own.\<close>

definition GetCertificate :: "('c, 'x) CertReloader \<Rightarrow> 'c option" where
  "GetCertificate r = cr_cert r"

section \<open>Lemmas\<close>

text \<open>What a configuration of this package guarantees about its peers.\<close>

definition mutual_tls :: "Config \<Rightarrow> ('c, 'x) tls_Config \<Rightarrow> bool" where
  "mutual_tls cfg t \<longleftrightarrow> tc_ClientAuth t = cf_ClientAuth cfg \<and> tc_MinVersion t = cf_MinVersion cfg
     \<and> length (tc_Certificates t) = 1
     \<and> (cf_CAPath cfg \<noteq> '''' \<and> cf_ClientAuth cfg \<noteq> NoClientCert \<longrightarrow> (\<exists>pool. tc_ClientCAs t = Some pool \<and> pool \<noteq> []))"

definition reloader_inv :: "('c, 'x) CertReloader \<Rightarrow> bool" where
  "reloader_inv r \<longleftrightarrow> cr_cert r \<noteq> None
     \<and> (cf_CAPath (cr_config r) \<noteq> '''' \<longrightarrow> (\<exists>pool. cr_caPool r = Some pool \<and> pool \<noteq> []))"

lemma LoadCACertPool_nonempty: "LoadCACertPool L p = Inr pool \<Longrightarrow> pool \<noteq> []"
  by (auto simp: LoadCACertPool_def split: option.splits if_splits)

lemma BuildTLSConfig_mutual: "BuildTLSConfig L cfg = Inr t \<Longrightarrow> mutual_tls cfg t"
  by (auto simp: BuildTLSConfig_def go_bind_def mutual_tls_def Let_def dest: LoadCACertPool_nonempty
      split: sum.splits if_splits)

lemma reload_config: "reload L now r = (err, r') \<Longrightarrow> cr_config r' = cr_config r \<and> cr_reloadDur r' = cr_reloadDur r"
  by (auto simp: reload_def Let_def split: sum.splits if_splits)

lemma reload_lastLoad: "reload L now r = (err, r') \<Longrightarrow> cr_lastLoad r' = (if err = None then now else cr_lastLoad r)"
  by (auto simp: reload_def Let_def split: sum.splits if_splits)

lemma reload_ok: "reload L now r = (None, r') \<Longrightarrow> reloader_inv r'"
  by (auto simp: reload_def Let_def reloader_inv_def dest: LoadCACertPool_nonempty split: sum.splits if_splits)

lemma reload_keeps: "reload L now r = (err, r') \<Longrightarrow> reloader_inv r \<Longrightarrow> reloader_inv r'"
  by (auto simp: reload_def Let_def reloader_inv_def dest: LoadCACertPool_nonempty split: sum.splits if_splits)

lemma NewCertReloader_inv:
  "NewCertReloader L now cfg iv = Inr r \<Longrightarrow>
     reloader_inv r \<and> cr_config r = cfg \<and> cr_lastLoad r = now \<and> cr_reloadDur r = iv"
  by (auto simp: NewCertReloader_def Let_def dest: reload_ok dest: reload_config dest: reload_lastLoad
      split: prod.splits option.splits)

section \<open>Runs of a reloader\<close>

text \<open>A sequence of calls of \<open>GetTLSConfig\<close>, each with the files and the time it finds: the results
  with the time of the last complete load.\<close>

fun reloader_run ::
  "('c, 'x) CertReloader \<Rightarrow> (('c, 'x) tls_lib \<times> int) list
    \<Rightarrow> panic + (((tls_error + ('c, 'x) tls_Config) \<times> int) list \<times> ('c, 'x) CertReloader)" where
  "reloader_run r [] = Inr ([], r)"
| "reloader_run r ((L, now) # calls) =
     go_bind (GetTLSConfig L now r) (\<lambda>(res, r1).
     go_bind (reloader_run r1 calls) (\<lambda>(outs, r2). Inr ((res, cr_lastLoad r1) # outs, r2)))"

definition config_current :: "Config \<Rightarrow> int \<Rightarrow> int \<Rightarrow> (tls_error + ('c, 'x) tls_Config) \<times> int \<Rightarrow> bool" where
  "config_current cfg iv now out \<longleftrightarrow> (case fst out of Inl _ \<Rightarrow> True | Inr t \<Rightarrow> mutual_tls cfg t \<and> now - snd out \<le> iv)"

lemma GetTLSConfig_step:
  assumes "reloader_inv r" and "0 \<le> cr_reloadDur r"
  obtains res r1 where "GetTLSConfig L now r = Inr (res, r1)" "reloader_inv r1" "cr_config r1 = cr_config r"
    "cr_reloadDur r1 = cr_reloadDur r" "config_current (cr_config r) (cr_reloadDur r) now (res, cr_lastLoad r1)"
proof -
  obtain err r1 where e: "(if now - cr_lastLoad r > cr_reloadDur r then reload L now r else (None, r)) = (err, r1)"
    by force
  have i: "reloader_inv r1" using e assms reload_keeps by (metis prod.inject)
  have c: "cr_config r1 = cr_config r" "cr_reloadDur r1 = cr_reloadDur r"
    using e reload_config by (metis prod.inject)+
  have l: "now - cr_lastLoad r1 \<le> cr_reloadDur r" if "err = None"
    using e that assms(2) reload_lastLoad [of L now r err r1] by (auto split: if_splits)
  obtain cert where k: "cr_cert r1 = Some cert" using i by (auto simp: reloader_inv_def)
  show ?thesis
  proof (cases err)
    case None
    with e k c i l [OF None] show ?thesis
      by (intro that [OF _ i c]) (auto simp: GetTLSConfig_def config_current_def mutual_tls_def reloader_inv_def)
  next
    case (Some x)
    with e show ?thesis
      by (intro that [OF _ i c]) (auto simp: GetTLSConfig_def config_current_def)
  qed
qed

lemma reloader_run_current:
  "reloader_inv r \<Longrightarrow> 0 \<le> cr_reloadDur r \<Longrightarrow>
     \<exists>outs r'. reloader_run r calls = Inr (outs, r')
       \<and> list_all2 (\<lambda>c. config_current (cr_config r) (cr_reloadDur r) (snd c)) calls outs"
proof (induction calls arbitrary: r)
  case (Cons c calls)
  obtain L now where c: "c = (L, now)" by force
  obtain res r1 where s: "GetTLSConfig L now r = Inr (res, r1)" "reloader_inv r1" "cr_config r1 = cr_config r"
    "cr_reloadDur r1 = cr_reloadDur r" "config_current (cr_config r) (cr_reloadDur r) now (res, cr_lastLoad r1)"
    using GetTLSConfig_step [OF Cons.prems] by blast
  have "0 \<le> cr_reloadDur r1" using s(4) Cons.prems(2) by simp
  from Cons.IH [OF s(2) this] s(3,4) obtain outs r' where "reloader_run r1 calls = Inr (outs, r')"
    "list_all2 (\<lambda>c. config_current (cr_config r) (cr_reloadDur r) (snd c)) calls outs" by auto
  with s c show ?case by (simp add: go_bind_def)
qed simp


text \<open>Files that can be read at first and no longer at the second reload.\<close>

definition demo_files :: "bool \<Rightarrow> (nat, nat) tls_lib" where
  "demo_files ok = \<lparr>LoadX509KeyPair = (\<lambda>c k. Some 7), tls_ReadFile = (\<lambda>p. if ok then Some [1, 2] else None),
     pem_certs = (\<lambda>d. [length d]), pem_Decode = (\<lambda>d. Some (''CERTIFICATE'', d)),
     ParseCertificate = (\<lambda>d. Some (length d)), x509_Verify = (\<lambda>p c. True)\<rparr>"

definition demo_tls :: Config where
  "demo_tls = DefaultTLSConfig\<lparr>cf_CAPath := ''ca.crt''\<rparr>"


end
