(* ===== verification/Raft_Transport.thy ===== *)
theory Raft_Transport
  imports Tls_Config
begin

text \<open>
  The TLS stream layers of the consensus transport: \<open>src/internal/raft/tls_transport.go\<close> and the
  private \<open>tlsStreamLayer\<close> of \<open>src/internal/raft/node.go\<close>. Sockets and the handshake are the parameters of
  \<open>net_lib\<close>; a connection is known by the address it was dialled to, and the model records which
  connections are left open.
\<close>

section \<open>The network\<close>

record ('c, 'x) net_lib =
  net_Listen :: "string \<Rightarrow> bool"
  net_DialTimeout :: "string \<Rightarrow> int \<Rightarrow> bool"
  net_SetDeadline :: "string \<Rightarrow> int \<Rightarrow> bool"
  tls_Handshake :: "string \<Rightarrow> ('c, 'x) tls_Config \<Rightarrow> bool"

datatype net_error =
    LoadServerCertificate | LoadCACertificate | CreateListener | StreamLayer net_error
  | DialFailed string | SetDeadlineFailed | HandshakeFailed | ClearDeadlineFailed

text \<open>The outcome of a dial: an error with the sockets it has left open, or the connection.\<close>

type_synonym dial_result = "(net_error + string) \<times> string list"

definition sock_close :: "string \<Rightarrow> string list \<Rightarrow> string list" where
  "sock_close conn conns = remove1 conn conns"

section \<open>tls\_transport.go\<close>

record TLSConfig =
  ts_CAFile :: string
  ts_CertFile :: string
  ts_KeyFile :: string
  ts_ServerName :: string
  ts_InsecureSkipVerify :: bool
  ts_MinVersion :: u16

record ('c, 'x) TLSStreamLayer =
  sl_listener :: string
  sl_tlsConfig :: "('c, 'x) tls_Config"
  sl_advertise :: "string option"
  sl_serverName :: string

definition loadCAFile :: "('c, 'x) tls_lib \<Rightarrow> string \<Rightarrow> 'x option" where
  "loadCAFile L caFile = (case tls_ReadFile L caFile of
      None \<Rightarrow> None | Some caCertPEM \<Rightarrow> ParseCertificate L caCertPEM)"

definition server_tls_config :: "TLSConfig \<Rightarrow> 'c \<Rightarrow> 'x list \<Rightarrow> ('c, 'x) tls_Config" where
  "server_tls_config cfg cert caCertPool =
     \<lparr>tc_Certificates = [cert], tc_MinVersion = ts_MinVersion cfg, tc_CipherSuites = [],
      tc_ClientAuth = (if ts_InsecureSkipVerify cfg then RequireAnyClientCert else RequireAndVerifyClientCert),
      tc_ClientCAs = Some caCertPool, tc_RootCAs = None, tc_ServerName = ts_ServerName cfg, tc_InsecureSkipVerify = False\<rparr>"

definition NewTLSStreamLayer ::
  "('c, 'x) tls_lib \<Rightarrow> ('c, 'x) net_lib \<Rightarrow> string \<Rightarrow> string option \<Rightarrow> TLSConfig \<Rightarrow> net_error + ('c, 'x) TLSStreamLayer" where
  "NewTLSStreamLayer L N bindAddr advertise cfg =
     (case LoadX509KeyPair L (ts_CertFile cfg) (ts_KeyFile cfg) of
        None \<Rightarrow> Inl LoadServerCertificate
      | Some cert \<Rightarrow>
          go_bind (if ts_CAFile cfg \<noteq> '''' then
                     (case loadCAFile L (ts_CAFile cfg) of None \<Rightarrow> Inl LoadCACertificate | Some caCert \<Rightarrow> Inr [caCert])
                   else Inr []) (\<lambda>caCertPool.
            let serverTLSConfig = server_tls_config cfg cert caCertPool in
            if \<not> net_Listen N bindAddr then Inl CreateListener
            else Inr \<lparr>sl_listener = bindAddr, sl_tlsConfig = serverTLSConfig, sl_advertise = advertise,
              sl_serverName = ts_ServerName cfg\<rparr>))"

definition layer_Addr :: "('c, 'x) TLSStreamLayer \<Rightarrow> string" where
  "layer_Addr t = (case sl_advertise t of Some a \<Rightarrow> a | None \<Rightarrow> sl_listener t)"

text \<open>The zero deadline, which clears it, is \<open>0\<close>.\<close>

definition layer_Dial :: "('c, 'x) net_lib \<Rightarrow> int \<Rightarrow> ('c, 'x) TLSStreamLayer \<Rightarrow> string \<Rightarrow> int \<Rightarrow> dial_result" where
  "layer_Dial N now t address timeout =
     (let clientTLSConfig = (sl_tlsConfig t)\<lparr>tc_ServerName := sl_serverName t, tc_InsecureSkipVerify := False\<rparr> in
      if \<not> net_DialTimeout N address timeout then (Inl (DialFailed address), [])
      else let conns = [address] in
      if \<not> net_SetDeadline N address (now + timeout) then (Inl SetDeadlineFailed, sock_close address conns)
      else if \<not> tls_Handshake N address clientTLSConfig then (Inl HandshakeFailed, sock_close address conns)
      else if \<not> net_SetDeadline N address 0 then (Inl ClearDeadlineFailed, sock_close address conns)
      else (Inr address, conns))"

record ('c, 'x) transport_config =
  nt_Stream :: "('c, 'x) TLSStreamLayer"
  nt_MaxPool :: int
  nt_Timeout :: int
  nt_MaxRPCsInFlight :: int

definition NewTCPTransportWithTLS ::
  "('c, 'x) tls_lib \<Rightarrow> ('c, 'x) net_lib \<Rightarrow> string \<Rightarrow> string option \<Rightarrow> int \<Rightarrow> int \<Rightarrow> TLSConfig
    \<Rightarrow> net_error + ('c, 'x) transport_config" where
  "NewTCPTransportWithTLS L N bindAddr advertise maxPool timeout cfg =
     (case NewTLSStreamLayer L N bindAddr advertise cfg of
        Inl err \<Rightarrow> Inl (StreamLayer err)
      | Inr streamLayer \<Rightarrow> Inr \<lparr>nt_Stream = streamLayer, nt_MaxPool = maxPool, nt_Timeout = timeout, nt_MaxRPCsInFlight = 2\<rparr>)"

section \<open>The stream layer of node.go\<close>

record ('c, 'x) tlsStreamLayer =
  nl_tlsConfig :: "('c, 'x) tls_Config"
  nl_tcpAddr :: string
  nl_listener :: "string option"

text \<open>\<open>Accept\<close> opens the listener at the first call; the listener's own answer is the argument.\<close>

definition node_Accept ::
  "('c, 'x) net_lib \<Rightarrow> (net_error + string) \<Rightarrow> ('c, 'x) tlsStreamLayer \<Rightarrow> (net_error + string) \<times> ('c, 'x) tlsStreamLayer" where
  "node_Accept N conn s = (case nl_listener s of
      Some l \<Rightarrow> (conn, s)
    | None \<Rightarrow> if \<not> net_Listen N (nl_tcpAddr s) then (Inl CreateListener, s)
              else (conn, s\<lparr>nl_listener := Some (nl_tcpAddr s)\<rparr>))"

definition node_layer_Close :: "(string \<Rightarrow> net_error option) \<Rightarrow> ('c, 'x) tlsStreamLayer \<Rightarrow> net_error option" where
  "node_layer_Close close s = (case nl_listener s of Some l \<Rightarrow> close l | None \<Rightarrow> None)"

definition node_layer_Addr :: "('c, 'x) tlsStreamLayer \<Rightarrow> string" where
  "node_layer_Addr s = (case nl_listener s of Some l \<Rightarrow> l | None \<Rightarrow> nl_tcpAddr s)"

definition node_Dial :: "('c, 'x) net_lib \<Rightarrow> ('c, 'x) tlsStreamLayer \<Rightarrow> string \<Rightarrow> int \<Rightarrow> dial_result" where
  "node_Dial N s address timeout =
     (if \<not> net_DialTimeout N address timeout then (Inl (DialFailed address), [])
      else let conns = [address] in
      if \<not> tls_Handshake N address (nl_tlsConfig s) then (Inl HandshakeFailed, sock_close address conns)
      else (Inr address, conns))"

section \<open>Properties\<close>

text \<open>
  What \<open>crypto/tls\<close> documents of a client handshake: without a server name and without
  \<open>InsecureSkipVerify\<close> it fails, and with verification the peer's certificate must chain to the root
  pool of the configuration (\<open>trusted\<close>), the system's if that is absent.
\<close>

definition handshake_ok :: "('x list option \<Rightarrow> string \<Rightarrow> bool) \<Rightarrow> ('c, 'x) net_lib \<Rightarrow> bool" where
  "handshake_ok trusted N \<longleftrightarrow> (\<forall>a t. tls_Handshake N a t \<longrightarrow>
     tc_InsecureSkipVerify t \<or> (tc_ServerName t \<noteq> '''' \<and> trusted (tc_RootCAs t) a))"

lemma BuildTLSConfig_client:
  "BuildTLSConfig L cfg = Inr t \<Longrightarrow> tc_ServerName t = '''' \<and> tc_RootCAs t = None \<and> \<not> tc_InsecureSkipVerify t"
  by (auto simp: BuildTLSConfig_def go_bind_def Let_def split: sum.splits if_splits)

lemma GetTLSConfig_client:
  "GetTLSConfig L now r = Inr (Inr t, r') \<Longrightarrow> tc_ServerName t = '''' \<and> tc_RootCAs t = None \<and> \<not> tc_InsecureSkipVerify t"
  by (auto simp: GetTLSConfig_def Let_def split: prod.splits option.splits)

lemma NewTLSStreamLayer_policy:
  "NewTLSStreamLayer L N bind adv cfg = Inr t \<Longrightarrow>
     tc_ClientAuth (sl_tlsConfig t) = (if ts_InsecureSkipVerify cfg then RequireAnyClientCert else RequireAndVerifyClientCert)
   \<and> tc_MinVersion (sl_tlsConfig t) = ts_MinVersion cfg \<and> tc_RootCAs (sl_tlsConfig t) = None
   \<and> sl_serverName t = ts_ServerName cfg
   \<and> (\<exists>pool. tc_ClientCAs (sl_tlsConfig t) = Some pool \<and> (pool = [] \<longleftrightarrow> ts_CAFile cfg = ''''))"
  by (auto simp: NewTLSStreamLayer_def server_tls_config_def go_bind_def Let_def
      split: option.splits sum.splits if_splits)

lemma handshake_okD:
  "handshake_ok trusted N \<Longrightarrow> tls_Handshake N a t \<Longrightarrow> \<not> tc_InsecureSkipVerify t \<Longrightarrow>
     tc_ServerName t \<noteq> '''' \<and> trusted (tc_RootCAs t) a"
  by (auto simp: handshake_ok_def)

lemma layer_Dial_cases:
  assumes "layer_Dial N now t a timeout = (res, opened)"
  shows "(\<exists>err. res = Inl err \<and> opened = []) \<or> (res = Inr a \<and> opened = [a]
    \<and> tls_Handshake N a ((sl_tlsConfig t)\<lparr>tc_ServerName := sl_serverName t, tc_InsecureSkipVerify := False\<rparr>))"
  using assms by (auto simp: layer_Dial_def sock_close_def Let_def split: if_splits)


text \<open>A network on which every peer of the system's roots can be dialled.\<close>

definition demo_net :: "(nat, nat) net_lib" where
  "demo_net = \<lparr>net_Listen = (\<lambda>a. True), net_DialTimeout = (\<lambda>a t. True), net_SetDeadline = (\<lambda>a t. True),
     tls_Handshake = (\<lambda>a t. tc_InsecureSkipVerify t \<or> (tc_ServerName t \<noteq> '''' \<and> tc_RootCAs t = None))\<rparr>"

definition demo_layer_config :: TLSConfig where
  "demo_layer_config = \<lparr>ts_CAFile = ''ca'', ts_CertFile = ''c'', ts_KeyFile = ''k'', ts_ServerName = ''localhost'',
     ts_InsecureSkipVerify = False, ts_MinVersion = VersionTLS12\<rparr>"

lemma demo_net_ok: "handshake_ok (\<lambda>roots a. roots = None) demo_net"
  by (simp add: handshake_ok_def demo_net_def)


text \<open>Without a server name the node's stream layer reaches nobody.\<close>

lemma node_Dial_fails:
  assumes "handshake_ok trusted N" and "tc_ServerName (nl_tlsConfig s) = ''''" and "\<not> tc_InsecureSkipVerify (nl_tlsConfig s)"
  shows "\<exists>err. node_Dial N s address timeout = (Inl err, [])"
  using assms handshake_okD [OF assms(1), of address "nl_tlsConfig s"] by (auto simp: node_Dial_def sock_close_def Let_def)

end
