(* ===== verification/Raft_Node.thy ===== *)
theory Raft_Node
  imports Raft_FSM Raft_Transport
begin

text \<open>
  \<open>src/internal/raft/node.go\<close>: the node a server runs, which is itself the state machine of the
  consensus library. The library's answers are arguments: the record \<open>node_env\<close> for \<open>Start\<close>,
  \<open>raft_apply\<close> for a proposal, and the role and leader that a running instance reports.
\<close>

section \<open>Data\<close>

datatype raft_state = Follower | Candidate | Leader | Shutdown

record raft_instance =
  ri_state :: raft_state
  ri_leader :: string

text \<open>A resource field: nil, open or closed.\<close>

datatype handle = NilHandle | OpenHandle | ClosedHandle

record ('c, 'x) Node =
  nd_nodeID :: string
  nd_raftPort :: int
  nd_dataDir :: string
  nd_bloomFilter :: CountingBloomFilter
  nd_walEncryptor :: "WALEncryptor option"
  nd_raftNode :: "raft_instance option"
  nd_raftStore :: handle
  nd_transport :: handle
  nd_tlsConfig :: "('c, 'x) tls_Config option"

record RaftTLSConfig =
  rt_EnableTLS :: bool
  rt_CertPath :: string
  rt_KeyPath :: string
  rt_CAPath :: string
  rt_MinVersion :: u16
  rt_ReloadInterval :: int

definition NewNode ::
  "string \<Rightarrow> int \<Rightarrow> string \<Rightarrow> CountingBloomFilter \<Rightarrow> WALEncryptor option \<Rightarrow> ('c, 'x) Node" where
  "NewNode nodeID raftPort dataDir bf enc = \<lparr>nd_nodeID = nodeID, nd_raftPort = raftPort, nd_dataDir = dataDir,
     nd_bloomFilter = bf, nd_walEncryptor = enc, nd_raftNode = None, nd_raftStore = NilHandle,
     nd_transport = NilHandle, nd_tlsConfig = None\<rparr>"

datatype node_tls_error = CreateReloader tls_error | GetConfig tls_error | BuildConfig tls_error

definition NewNodeWithTLS ::
  "('c, 'x) tls_lib \<Rightarrow> int \<Rightarrow> string \<Rightarrow> int \<Rightarrow> string \<Rightarrow> CountingBloomFilter \<Rightarrow> WALEncryptor option \<Rightarrow> RaftTLSConfig option
    \<Rightarrow> panic + (node_tls_error + ('c, 'x) Node)" where
  "NewNodeWithTLS L now nodeID raftPort dataDir bf enc tlsConfig =
     (let node = NewNode nodeID raftPort dataDir bf enc in
      case tlsConfig of
        None \<Rightarrow> Inr (Inr node)
      | Some cfg \<Rightarrow>
          if \<not> rt_EnableTLS cfg then Inr (Inr node)
          else let dbfTLSConfig = \<lparr>cf_CertPath = rt_CertPath cfg, cf_KeyPath = rt_KeyPath cfg, cf_CAPath = rt_CAPath cfg,
                     cf_MinVersion = (if rt_MinVersion cfg = 0 then VersionTLS13 else rt_MinVersion cfg),
                     cf_CipherSuites = [], cf_ClientAuth = RequireAndVerifyClientCert\<rparr>
               in if rt_ReloadInterval cfg > 0 then
                    (case NewCertReloader L now dbfTLSConfig (rt_ReloadInterval cfg) of
                       Inl err \<Rightarrow> Inr (Inl (CreateReloader err))
                     | Inr reloader \<Rightarrow> go_bind (GetTLSConfig L now reloader) (\<lambda>(res, reloader').
                         case res of Inl err \<Rightarrow> Inr (Inl (GetConfig err))
                         | Inr t \<Rightarrow> Inr (Inr (node\<lparr>nd_tlsConfig := Some t\<rparr>))))
                  else (case BuildTLSConfig L dbfTLSConfig of
                       Inl err \<Rightarrow> Inr (Inl (BuildConfig err))
                     | Inr t \<Rightarrow> Inr (Inr (node\<lparr>nd_tlsConfig := Some t\<rparr>))))"

section \<open>Start and shutdown\<close>

text \<open>What the calls of \<open>Start\<close> return for their arguments.\<close>

record ('c, 'x) node_env =
  ne_MkdirAll :: "string \<Rightarrow> bool"
  ne_NewBoltStore :: "string \<Rightarrow> bool"
  ne_NewFileSnapshotStore :: "string \<Rightarrow> int \<Rightarrow> bool"
  ne_ResolveTCPAddr :: "string \<Rightarrow> string option"
  ne_NewTCPTransport :: "string \<Rightarrow> string \<Rightarrow> bool"
  ne_NewRaft :: "string \<Rightarrow> raft_instance option"
  ne_BootstrapCluster :: "(string \<times> string) list \<Rightarrow> bool"

datatype start_error = StartMkdir | StartBoltStore | StartSnapshotStore | StartResolve | StartTransport | StartRaft | StartBootstrap

text \<open>\<open>filepath.Join\<close> of a clean directory and a name.\<close>

definition path_join :: "string \<Rightarrow> string \<Rightarrow> string" where
  "path_join d name = (if d = '''' then name else d @ ''/'' @ name)"

text \<open>The stream layer has no listener yet, so creating the TLS transport cannot fail.\<close>

definition createTLSTransport :: "('c, 'x) tls_Config \<Rightarrow> string \<Rightarrow> ('c, 'x) tlsStreamLayer" where
  "createTLSTransport t tcpAddr = \<lparr>nl_tlsConfig = t, nl_tcpAddr = tcpAddr, nl_listener = None\<rparr>"

definition node_Start :: "('c, 'x) node_env \<Rightarrow> bool \<Rightarrow> ('c, 'x) Node \<Rightarrow> start_error option \<times> ('c, 'x) Node" where
  "node_Start E bootstrap n =
     (let raftDir = path_join (nd_dataDir n) ''raft'';
          bindAddr = ''127.0.0.1:'' @ dec_int (nd_raftPort n) in
      if \<not> ne_MkdirAll E raftDir then (Some StartMkdir, n)
      else if \<not> ne_NewBoltStore E (path_join raftDir ''raft.db'') then (Some StartBoltStore, n)
      else let n1 = n\<lparr>nd_raftStore := OpenHandle\<rparr> in
      if \<not> ne_NewFileSnapshotStore E raftDir 3 then (Some StartSnapshotStore, n1)
      else (case ne_ResolveTCPAddr E bindAddr of
          None \<Rightarrow> (Some StartResolve, n1)
        | Some tcpAddr \<Rightarrow>
            if nd_tlsConfig n = None \<and> \<not> ne_NewTCPTransport E bindAddr tcpAddr then (Some StartTransport, n1)
            else let n2 = n1\<lparr>nd_transport := OpenHandle\<rparr> in
            (case ne_NewRaft E (nd_nodeID n) of
               None \<Rightarrow> (Some StartRaft, n2)
             | Some ra \<Rightarrow>
                 let n3 = n2\<lparr>nd_raftNode := Some ra\<rparr> in
                 if bootstrap \<and> \<not> ne_BootstrapCluster E [(nd_nodeID n, bindAddr)] then (Some StartBootstrap, n3)
                 else (None, n3))))"

text \<open>\<open>Shutdown\<close> closes what is there and keeps every pointer; the closed instance reports its state.\<close>

definition node_Shutdown :: "('c, 'x) Node \<Rightarrow> ('c, 'x) Node" where
  "node_Shutdown n =
     (let n1 = (if nd_transport n \<noteq> NilHandle then n\<lparr>nd_transport := ClosedHandle\<rparr> else n);
          n2 = (case nd_raftNode n1 of None \<Rightarrow> n1
                | Some ra \<Rightarrow> n1\<lparr>nd_raftNode := Some (ra\<lparr>ri_state := Shutdown\<rparr>)\<rparr>)
      in if nd_raftStore n2 \<noteq> NilHandle then n2\<lparr>nd_raftStore := ClosedHandle\<rparr> else n2)"

section \<open>Operations\<close>

datatype node_error = RaftNodeNotStarted | CommandMarshal | ApplyFailed string

definition node_Add ::
  "json_codec \<Rightarrow> (bytes \<Rightarrow> int \<Rightarrow> string + u64) \<Rightarrow> ('c, 'x) Node \<Rightarrow> bytes \<Rightarrow> node_error option" where
  "node_Add J raft_apply n item =
     (if nd_raftNode n = None then Some RaftNodeNotStarted
      else (case marshal_Command J \<lparr>cmd_Type = ''add'', cmd_Item = item, cmd_Timestamp = zero_time\<rparr> of
          None \<Rightarrow> Some CommandMarshal
        | Some data \<Rightarrow> (case raft_apply data 0 of Inl err \<Rightarrow> Some (ApplyFailed err) | Inr index \<Rightarrow> None)))"

definition node_Remove ::
  "json_codec \<Rightarrow> (bytes \<Rightarrow> int \<Rightarrow> string + u64) \<Rightarrow> ('c, 'x) Node \<Rightarrow> bytes \<Rightarrow> node_error option" where
  "node_Remove J raft_apply n item =
     (if nd_raftNode n = None then Some RaftNodeNotStarted
      else (case marshal_Command J \<lparr>cmd_Type = ''remove'', cmd_Item = item, cmd_Timestamp = zero_time\<rparr> of
          None \<Rightarrow> Some CommandMarshal
        | Some data \<Rightarrow> (case raft_apply data 0 of Inl err \<Rightarrow> Some (ApplyFailed err) | Inr index \<Rightarrow> None)))"

definition node_Contains :: "(bytes \<Rightarrow> u32) \<Rightarrow> ('c, 'x) Node \<Rightarrow> bytes \<Rightarrow> panic + bool" where
  "node_Contains murmur n item = Contains murmur (nd_bloomFilter n) item"

definition node_IsLeader :: "('c, 'x) Node \<Rightarrow> bool" where
  "node_IsLeader n = (case nd_raftNode n of None \<Rightarrow> False | Some ra \<Rightarrow> ri_state ra = Leader)"

definition node_Leader :: "('c, 'x) Node \<Rightarrow> string" where
  "node_Leader n = (case nd_raftNode n of None \<Rightarrow> '''' | Some ra \<Rightarrow> ri_leader ra)"

definition node_Apply ::
  "json_codec \<Rightarrow> (bytes \<Rightarrow> u32) \<Rightarrow> ('c, 'x) Node \<Rightarrow> raft_entry \<Rightarrow> panic + (fsm_error option \<times> ('c, 'x) Node)" where
  "node_Apply J murmur n log = (case unmarshal_Command J (rl_Data log) of
      None \<Rightarrow> Inr (Some FsmParse, n)
    | Some cmd \<Rightarrow>
        if cmd_Type cmd = ''add'' then
          go_bind (Add murmur (nd_bloomFilter n) (cmd_Item cmd)) (\<lambda>(err, bf). Inr (None, n\<lparr>nd_bloomFilter := bf\<rparr>))
        else if cmd_Type cmd = ''remove'' then
          go_bind (Remove murmur (nd_bloomFilter n) (cmd_Item cmd)) (\<lambda>bf. Inr (None, n\<lparr>nd_bloomFilter := bf\<rparr>))
        else Inr (Some (FsmUnknownCommand (cmd_Type cmd)), n))"

definition node_Snapshot :: "('c, 'x) Node \<Rightarrow> fsmSnapshot" where
  "node_Snapshot n = \<lparr>fs_bloomData = Serialize (nd_bloomFilter n), fs_metadata = []\<rparr>"

definition node_Restore :: "('c, 'x) Node \<Rightarrow> bytes option \<Rightarrow> fsm_error option \<times> ('c, 'x) Node" where
  "node_Restore n rc = (case rc of
      None \<Rightarrow> (Some FsmReadSnapshot, n)
    | Some data \<Rightarrow> (case Deserialize data of
        Inl err \<Rightarrow> (Some (FsmRestore err), n)
      | Inr newFilter \<Rightarrow> (None, n\<lparr>nd_bloomFilter := newFilter\<rparr>)))"

definition raft_state_String :: "raft_state \<Rightarrow> string" where
  "raft_state_String s = (case s of Follower \<Rightarrow> ''Follower'' | Candidate \<Rightarrow> ''Candidate'' | Leader \<Rightarrow> ''Leader''
     | Shutdown \<Rightarrow> ''Shutdown'')"

definition node_GetState :: "('c, 'x) Node \<Rightarrow> (string \<times> state_val) list" where
  "node_GetState n =
     [(''node_id'', SvString (nd_nodeID n)), (''raft_port'', SvInt (nd_raftPort n)),
      (''is_leader'', SvBool (node_IsLeader n)), (''bloom_size'', SvInt (Size (nd_bloomFilter n))),
      (''bloom_k'', SvInt (HashCount (nd_bloomFilter n))), (''tls_enabled'', SvBool (nd_tlsConfig n \<noteq> None))]
     @ (case nd_raftNode n of None \<Rightarrow> []
        | Some ra \<Rightarrow> [(''raft_state'', SvString (raft_state_String (ri_state ra))), (''leader'', SvString (node_Leader n))])"

fun node_run ::
  "json_codec \<Rightarrow> (bytes \<Rightarrow> u32) \<Rightarrow> ('c, 'x) Node \<Rightarrow> raft_entry list \<Rightarrow> panic + (fsm_error option list \<times> ('c, 'x) Node)" where
  "node_run J murmur n [] = Inr ([], n)"
| "node_run J murmur n (log # es) =
     go_bind (node_Apply J murmur n log) (\<lambda>(r, n1).
     go_bind (node_run J murmur n1 es) (\<lambda>(rs, n2). Inr (r # rs, n2)))"

section \<open>Lemmas\<close>

lemma node_Apply_exec:
  assumes "wf_cbf (nd_bloomFilter n)" and "unmarshal_Command J (rl_Data e) = Some cmd"
  shows "\<exists>r r' bf. exec_command murmur (nd_bloomFilter n) cmd = Inr (r, bf)
    \<and> node_Apply J murmur n e = Inr (r', n\<lparr>nd_bloomFilter := bf\<rparr>) \<and> wf_cbf bf"
proof -
  obtain r bf where x: "exec_command murmur (nd_bloomFilter n) cmd = Inr (r, bf)" "wf_cbf bf"
    by (rule exec_command_total [OF assms(1), of murmur cmd])
  have "\<exists>r'. node_Apply J murmur n e = Inr (r', n\<lparr>nd_bloomFilter := bf\<rparr>)"
  proof (cases "cmd_Type cmd = ''add'' \<or> cmd_Type cmd = ''remove''")
    case True
    with x(1) assms(2) show ?thesis by (auto simp: node_Apply_def exec_command_def go_bind_eq_Inr_iff)
  next
    case False
    with x(1) assms(2) show ?thesis by (auto simp: node_Apply_def exec_command_def)
  qed
  with x show ?thesis by blast
qed

text \<open>The node applies commands like the state machine with a WAL.\<close>

lemma node_run_filter:
  "wf_cbf (nd_bloomFilter n) \<Longrightarrow> \<forall>e \<in> set es. parse_command J (rl_Data e) = unmarshal_Command J (rl_Data e) \<Longrightarrow>
     \<exists>rs n'. node_run J murmur n es = Inr (rs, n')
       \<and> filter_run murmur (nd_bloomFilter n) (commands J es) = Inr (nd_bloomFilter n')"
proof (induction es arbitrary: n)
  case (Cons e es)
  show ?case
  proof (cases "unmarshal_Command J (rl_Data e)")
    case None
    then have "node_Apply J murmur n e = Inr (Some FsmParse, n)" by (simp add: node_Apply_def)
    with Cons.IH [OF Cons.prems(1)] Cons.prems(2) None show ?thesis by (auto simp: commands_Cons go_bind_def)
  next
    case (Some cmd)
    from node_Apply_exec [OF Cons.prems(1) Some] obtain r r' bf where
      x: "exec_command murmur (nd_bloomFilter n) cmd = Inr (r, bf)" "node_Apply J murmur n e = Inr (r', n\<lparr>nd_bloomFilter := bf\<rparr>)"
        "wf_cbf bf" by blast
    with Cons.IH [of "n\<lparr>nd_bloomFilter := bf\<rparr>"] Cons.prems(2) Some show ?thesis
      by (auto simp: commands_Cons go_bind_def)
  qed
qed (simp add: commands_def map_filter_simps)

section \<open>Properties\<close>


definition demo_node :: "(nat, nat) Node" where
  "demo_node = NewNode ''node1'' 7000 ''data'' demo_filter None"


text \<open>C39: a node cannot restore its own snapshots. Whatever a node's snapshot persists, a JSON text, every
  node that restores it fails with invalid data and keeps its old filter: a restarted or lagging
  node never gets the state.\<close>

theorem node_restore_fails:
  assumes "json_ok J" and "Persist J now False False (node_Snapshot n) = Inr data"
  shows "node_Restore n' (Some data) = (Some (FsmRestore ErrInvalidData), n')"
proof -
  have "4 \<le> length data \<and> hd data = 0x7B"
    using assms by (auto simp: Persist_def Let_def dest: json_brace split: option.splits)
  then obtain b c d xs where d: "data = 0x7B # b # c # d # xs"
    by (auto simp: Suc_le_length_iff numeral_eq_Suc)
  have "2063597568 \<le> unat (read32 (take 4 data))"
    using read32_ge_first [of "0x7B" b c d "[]"] d by simp
  moreover have "int (unat (read32 (take 4 data))) = uint (read32 (take 4 data))" by simp
  ultimately have "2063597568 \<le> uint (read32 (take 4 data))" by linarith
  then have "Deserialize data = Inl ErrInvalidData" by (intro Deserialize_too_big) (simp add: MaxFilterSize_def)
  then show ?thesis by (simp add: node_Restore_def)
qed

theorem node_restore_fails_witness:
  "\<exists>data. Persist demo_json 100 False False (node_Snapshot demo_node) = Inr data
    \<and> node_Restore demo_node (Some data) = (Some (FsmRestore ErrInvalidData), demo_node)"
proof -
  let ?s = "\<lparr>sd_BloomFilter = fs_bloomData (node_Snapshot demo_node), sd_Metadata = fs_metadata (node_Snapshot demo_node),
    sd_Timestamp = 100, sd_Index = 0, sd_Term = 0\<rparr>"
  obtain data where "marshal_SnapshotData demo_json ?s = Some data"
    by (rule json_SnapshotData [OF demo_json_ok, of ?s]) (simp_all add: time_ok_def)
  then have p: "Persist demo_json 100 False False (node_Snapshot demo_node) = Inr data"
    by (simp only: Persist_def Let_def option.case if_False)
  from node_restore_fails [OF demo_json_ok p] p show ?thesis by blast
qed

text \<open>A node reports success for an addition that failed. If a counter overflows, \<open>Apply\<close> of a node
  answers nil where the other state machine answers the error, so the item may be absent although
  the client was told it was added.\<close>

theorem node_hides_overflow:
  assumes "unmarshal_Command J (rl_Data e) = Some cmd" and "cmd_Type cmd = ''add''"
    and "Add murmur (nd_bloomFilter n) (cmd_Item cmd) = Inr (Some err, bf)"
    and "fsm_bloom f = nd_bloomFilter n" and "fsm_walWriter f = None"
  shows "node_Apply J murmur n e = Inr (None, n\<lparr>nd_bloomFilter := bf\<rparr>)
    \<and> (\<exists>f'. fsm_Apply J murmur seal env f e = Inr (Some (FsmBloom err), f') \<and> fsm_bloom f' = bf)"
  using assms by (simp add: node_Apply_def fsm_Apply_def parse_command_def exec_command_def go_bind_def)

theorem node_hides_overflow_witness:
  "\<exists>n n' :: (nat, nat) Node. nd_bloomFilter n = \<lparr>cbf_m = 4, cbf_k = 2, counters = [0, 0, 0, 255]\<rparr>
    \<and> node_Apply demo_json demo_murmur n (demo_entry 1 ''add'' [1]) = Inr (None, n')
    \<and> node_Contains demo_murmur n' [1] = Inr False"
proof -
  let ?bf = "\<lparr>cbf_m = 4, cbf_k = 2, counters = [0, 0, 0, 255]\<rparr> :: CountingBloomFilter" and ?e = "demo_entry 1 ''add'' [1]"
  let ?n = "demo_node\<lparr>nd_bloomFilter := ?bf\<rparr> :: (nat, nat) Node" and ?f = "demo_fsm\<lparr>fsm_bloom := ?bf\<rparr>"
  let ?cmd = "\<lparr>cmd_Type = ''add'', cmd_Item = [1], cmd_Timestamp = 0\<rparr>"
  have u: "unmarshal_Command demo_json (rl_Data ?e) = Some ?cmd"
    by (rule json_Command [OF demo_json_ok, of ?cmd]) (auto simp: demo_entry_def time_ok_def ascii_def)
  have a: "Add demo_murmur ?bf [1] = Inr (Some ErrCounterOverflow, ?bf)" by code_simp
  have c: "Contains demo_murmur ?bf [1] = Inr False" by code_simp
  from node_hides_overflow [OF u, of demo_murmur ?n ErrCounterOverflow ?bf ?f] a
  have "node_Apply demo_json demo_murmur ?n ?e = Inr (None, ?n)" by (simp add: demo_fsm_def)
  with c show ?thesis by (intro exI [of _ ?n]) (simp add: node_Contains_def)
qed

text \<open>Starting and shutting down. Whatever step of \<open>Start\<close> fails, the node proposes nothing unless the
  consensus instance was created, and \<open>Start\<close> succeeds only with store, transport and instance in
  place; after \<open>Shutdown\<close> no store or transport is open and the node does not claim leadership, also
  when \<open>Start\<close> had failed half-way and left its database open.\<close>

theorem start_then_shutdown:
  assumes "node_Start E bootstrap (NewNode ident port dir bf enc) = (err, n)"
  shows "(err = None \<longrightarrow> nd_raftStore n = OpenHandle \<and> nd_transport n = OpenHandle \<and> nd_raftNode n \<noteq> None)
    \<and> (err \<notin> {None, Some StartBootstrap} \<longrightarrow> node_Add J raft_apply n x = Some RaftNodeNotStarted)
    \<and> (err = Some StartRaft \<longrightarrow> nd_raftStore n = OpenHandle \<and> nd_transport n = OpenHandle)
    \<and> nd_raftStore (node_Shutdown n) \<noteq> OpenHandle \<and> nd_transport (node_Shutdown n) \<noteq> OpenHandle
    \<and> \<not> node_IsLeader (node_Shutdown n) \<and> nd_bloomFilter (node_Shutdown n) = bf"
proof -
  have s: "nd_bloomFilter n = bf" "err = None \<longrightarrow> nd_raftStore n = OpenHandle \<and> nd_transport n = OpenHandle \<and> nd_raftNode n \<noteq> None"
    "err \<notin> {None, Some StartBootstrap} \<longrightarrow> nd_raftNode n = None"
    "err = Some StartRaft \<longrightarrow> nd_raftStore n = OpenHandle \<and> nd_transport n = OpenHandle"
    using assms by (auto simp: node_Start_def NewNode_def Let_def split: if_splits option.splits)
  have "nd_raftStore (node_Shutdown n) \<noteq> OpenHandle \<and> nd_transport (node_Shutdown n) \<noteq> OpenHandle
    \<and> \<not> node_IsLeader (node_Shutdown n) \<and> nd_bloomFilter (node_Shutdown n) = nd_bloomFilter n"
    by (auto simp: node_Shutdown_def node_IsLeader_def Let_def split: option.splits)
  with s show ?thesis by (simp add: node_Add_def)
qed

definition demo_node_env :: "(nat, nat) node_env" where
  "demo_node_env = \<lparr>ne_MkdirAll = (\<lambda>_. True), ne_NewBoltStore = (\<lambda>_. True), ne_NewFileSnapshotStore = (\<lambda>_ _. True),
     ne_ResolveTCPAddr = Some, ne_NewTCPTransport = (\<lambda>_ _. True), ne_NewRaft = (\<lambda>_. None), ne_BootstrapCluster = (\<lambda>_. True)\<rparr>"

theorem start_then_shutdown_witness:
  "\<exists>n. node_Start demo_node_env True demo_node = (Some StartRaft, n) \<and> nd_raftStore n = OpenHandle
    \<and> node_Add demo_json (\<lambda>_ _. Inr 1) n [1] = Some RaftNodeNotStarted \<and> nd_raftStore (node_Shutdown n) = ClosedHandle"
proof -
  obtain n where s: "node_Start demo_node_env True demo_node = (Some StartRaft, n)"
    by (simp add: node_Start_def demo_node_env_def demo_node_def NewNode_def)
  from start_then_shutdown [OF s [unfolded demo_node_def], of demo_json "\<lambda>_ _. Inr 1" "[1]"] s
  show ?thesis by (auto simp: node_Shutdown_def Let_def split: option.splits)
qed

text \<open>Nodes with TLS demand verified client certificates but cannot talk to each other. Creating a node
  never panics; if TLS is enabled and creation succeeds, its listener verifies clients, by default
  from TLS 1.3 on and against a non-empty pool if a CA file is named. But the same configuration is
  used to dial, without a server name, so no connection to a peer is ever made.\<close>

theorem tls_nodes_isolated:
  fixes N :: "('c, 'x) net_lib"
  assumes "handshake_ok trusted N" and "rt_EnableTLS cfg"
  shows "\<exists>res. NewNodeWithTLS L now ident port dir bf enc (Some cfg) = Inr res
    \<and> (\<forall>n. res = Inr n \<longrightarrow> (\<exists>t. nd_tlsConfig n = Some t \<and> tc_ClientAuth t = RequireAndVerifyClientCert
         \<and> tc_MinVersion t = (if rt_MinVersion cfg = 0 then VersionTLS13 else rt_MinVersion cfg)
         \<and> (rt_CAPath cfg \<noteq> '''' \<longrightarrow> (\<exists>pool. tc_ClientCAs t = Some pool \<and> pool \<noteq> []))
         \<and> (\<exists>err. node_Dial N (createTLSTransport t addr) peer timeout = (Inl err, []))))"
proof -
  let ?c = "\<lparr>cf_CertPath = rt_CertPath cfg, cf_KeyPath = rt_KeyPath cfg, cf_CAPath = rt_CAPath cfg,
    cf_MinVersion = (if rt_MinVersion cfg = 0 then VersionTLS13 else rt_MinVersion cfg),
    cf_CipherSuites = [], cf_ClientAuth = RequireAndVerifyClientCert\<rparr>"
  have dial: "\<exists>err. node_Dial N (createTLSTransport t addr) peer timeout = (Inl err, [])"
    if "tc_ServerName t = '''' \<and> tc_RootCAs t = None \<and> \<not> tc_InsecureSkipVerify t" for t
    using node_Dial_fails [OF assms(1), of "createTLSTransport t addr"] that by (simp add: createTLSTransport_def)
  show ?thesis
  proof (cases "rt_ReloadInterval cfg > 0")
    case False
    then show ?thesis using assms(2) BuildTLSConfig_mutual [of L ?c] BuildTLSConfig_client [of L ?c] dial
      by (cases "BuildTLSConfig L ?c") (auto simp: NewNodeWithTLS_def mutual_tls_def Let_def)
  next
    case True
    show ?thesis
    proof (cases "NewCertReloader L now ?c (rt_ReloadInterval cfg)")
      case (Inl e)
      with True assms(2) show ?thesis by (simp add: NewNodeWithTLS_def Let_def)
    next
      case (Inr r)
      note i = NewCertReloader_inv [OF Inr]
      have "reloader_inv r" "0 \<le> cr_reloadDur r" using i True by auto
      then obtain res r1 where g: "GetTLSConfig L now r = Inr (res, r1)"
        and c: "config_current (cr_config r) (cr_reloadDur r) now (res, cr_lastLoad r1)"
        by (rule GetTLSConfig_step)
      have "NewNodeWithTLS L now ident port dir bf enc (Some cfg)
        = Inr (case res of Inl e \<Rightarrow> Inl (GetConfig e) | Inr t \<Rightarrow> Inr (NewNode ident port dir bf enc\<lparr>nd_tlsConfig := Some t\<rparr>))"
        using True assms(2) Inr g by (simp add: NewNodeWithTLS_def Let_def go_bind_def split: sum.splits)
      moreover have "\<exists>err. node_Dial N (createTLSTransport t addr) peer timeout = (Inl err, [])" if "res = Inr t" for t
        using that g by (intro dial GetTLSConfig_client) simp
      ultimately show ?thesis using c i
        by (cases res) (auto simp: config_current_def mutual_tls_def)
    qed
  qed
qed

theorem tls_nodes_isolated_witness:
  "\<exists>n t err. NewNodeWithTLS (demo_files True) 100 ''node1'' 7000 ''data'' demo_filter None
      (Some \<lparr>rt_EnableTLS = True, rt_CertPath = ''c'', rt_KeyPath = ''k'', rt_CAPath = ''ca'', rt_MinVersion = 0, rt_ReloadInterval = 0\<rparr>)
      = Inr (Inr n) \<and> nd_tlsConfig n = Some t \<and> tc_MinVersion t = VersionTLS13
    \<and> net_DialTimeout demo_net ''b:1'' 5 \<and> node_Dial demo_net (createTLSTransport t ''a:1'') ''b:1'' 5 = (Inl err, [])"
proof -
  let ?cfg = "\<lparr>rt_EnableTLS = True, rt_CertPath = ''c'', rt_KeyPath = ''k'', rt_CAPath = ''ca'', rt_MinVersion = 0, rt_ReloadInterval = 0\<rparr>"
  obtain n where n: "NewNodeWithTLS (demo_files True) 100 ''node1'' 7000 ''data'' demo_filter None (Some ?cfg) = Inr (Inr n)"
    by (simp add: NewNodeWithTLS_def BuildTLSConfig_def LoadTLSCertificate_def LoadCACertPool_def demo_files_def go_bind_def)
  from tls_nodes_isolated [OF demo_net_ok, of ?cfg "demo_files True" 100 "''node1''" 7000 "''data''" demo_filter None "''a:1''" "''b:1''" 5] n
  show ?thesis by (auto simp: demo_net_def)
qed

section \<open>What a log leaves in a node\<close>

text \<open>The commands a node finds in a log, the multiset of items they leave, and whether they remove only items that
  are there.\<close>

definition node_commands :: "json_codec \<Rightarrow> raft_entry list \<Rightarrow> (string \<times> bytes) list" where
  "node_commands J es = List.map_filter (\<lambda>e. map_option cmd_pair (unmarshal_Command J (rl_Data e))) es"

definition command_effect :: "string \<times> bytes \<Rightarrow> bytes multiset \<Rightarrow> bytes multiset" where
  "command_effect c M = (if fst c = ''add'' then add_mset (snd c) M else if fst c = ''remove'' then M - {#snd c#} else M)"

fun held_after :: "bytes multiset \<Rightarrow> (string \<times> bytes) list \<Rightarrow> bytes multiset" where
  "held_after M [] = M"
| "held_after M (c # cs) = held_after (command_effect c M) cs"

fun removes_held :: "bytes multiset \<Rightarrow> (string \<times> bytes) list \<Rightarrow> bool" where
  "removes_held M [] = True"
| "removes_held M (c # cs) = ((fst c = ''remove'' \<longrightarrow> snd c \<in># M) \<and> removes_held (command_effect c M) cs)"

definition additions :: "(string \<times> bytes) list \<Rightarrow> nat" where
  "additions cs = length (filter (\<lambda>c. fst c = ''add'') cs)"

lemma node_commands_Nil [simp]: "node_commands J [] = []"
  by (simp add: node_commands_def map_filter_simps)

lemma node_commands_Cons: "node_commands J (e # es) =
    (case unmarshal_Command J (rl_Data e) of None \<Rightarrow> [] | Some c \<Rightarrow> [cmd_pair c]) @ node_commands J es"
  by (simp add: node_commands_def map_filter_simps split: option.splits)

lemma node_commands_mem:
  "e \<in> set es \<Longrightarrow> unmarshal_Command J (rl_Data e) = Some c \<Longrightarrow> cmd_pair c \<in> set (node_commands J es)"
  by (induction es) (auto simp: node_commands_Cons split: option.splits)

lemma held_after_mem:
  "x \<in># M \<or> (''add'', x) \<in> set cs \<Longrightarrow> (''remove'', x) \<notin> set cs \<Longrightarrow> x \<in># held_after M cs"
proof (induction M cs rule: held_after.induct)
  case (2 M c cs)
  have "x \<in># command_effect c M" if "x \<in># M \<or> c = (''add'', x)" "c \<noteq> (''remove'', x)"
    using that by (cases c) (auto simp: command_effect_def in_diff_count not_in_iff)
  with 2 show ?case by auto
qed simp

lemma node_Apply_held:
  assumes "represents murmur (nd_bloomFilter n) M" and "unmarshal_Command J (rl_Data e) = Some cmd"
    and "cmd_Type cmd = ''remove'' \<Longrightarrow> cmd_Item cmd \<in># M"
    and "cmd_Type cmd = ''add'' \<Longrightarrow> nat (cbf_k (nd_bloomFilter n)) * Suc (size M) \<le> 255"
  shows "\<exists>r bf. node_Apply J murmur n e = Inr (r, n\<lparr>nd_bloomFilter := bf\<rparr>) \<and> represents murmur bf (command_effect (cmd_pair cmd) M)
    \<and> cbf_k bf = cbf_k (nd_bloomFilter n)"
proof -
  let ?bf = "nd_bloomFilter n" and ?x = "cmd_Item cmd"
  consider "cmd_Type cmd = ''add''" | "cmd_Type cmd = ''remove''" | "cmd_Type cmd \<noteq> ''add''" "cmd_Type cmd \<noteq> ''remove''" by blast
  then show ?thesis
  proof cases
    case 1
    obtain bf where "Add murmur ?bf ?x = Inr (None, bf)" "represents murmur bf (add_mset ?x M)" "cbf_k bf = cbf_k ?bf"
      using Add_fits [OF assms(1) assms(4) [OF 1]] by blast
    with 1 assms(2) show ?thesis by (intro exI [of _ None] exI [of _ bf]) (simp add: node_Apply_def command_effect_def cmd_pair_def)
  next
    case 2
    have "Remove murmur ?bf ?x = Inr (?bf\<lparr>counters := drain (counters ?bf) (item_positions murmur ?bf ?x)\<rparr>)"
      by (rule Remove_eq) (rule covers_wf [OF represents_covers [OF assms(1)]])
    with 2 assms(2) represents_remove [OF assms(1) assms(3) [OF 2]] show ?thesis
      by (intro exI [of _ None] exI [of _ "?bf\<lparr>counters := drain (counters ?bf) (item_positions murmur ?bf ?x)\<rparr>"]) (simp add: node_Apply_def command_effect_def cmd_pair_def)
  next
    case 3
    with assms(1,2) show ?thesis
      by (intro exI [of _ "Some (FsmUnknownCommand (cmd_Type cmd))"] exI [of _ ?bf]) (simp add: node_Apply_def command_effect_def cmd_pair_def)
  qed
qed

lemma node_run_held:
  "represents murmur (nd_bloomFilter n) M \<Longrightarrow> removes_held M (node_commands J es) \<Longrightarrow>
     nat (cbf_k (nd_bloomFilter n)) * (size M + additions (node_commands J es)) \<le> 255 \<Longrightarrow>
     \<exists>rs n'. node_run J murmur n es = Inr (rs, n') \<and> represents murmur (nd_bloomFilter n') (held_after M (node_commands J es))"
proof (induction es arbitrary: n M)
  case (Cons e es)
  let ?k = "nat (cbf_k (nd_bloomFilter n))"
  show ?case
  proof (cases "unmarshal_Command J (rl_Data e)")
    case None
    then have a: "node_Apply J murmur n e = Inr (Some FsmParse, n)" by (simp add: node_Apply_def)
    from None have c: "node_commands J (e # es) = node_commands J es" by (simp add: node_commands_Cons)
    from Cons.IH [OF Cons.prems(1)] Cons.prems(2,3) a show ?thesis unfolding c by (auto simp: go_bind_def)
  next
    case (Some cmd)
    let ?c = "cmd_pair cmd"
    from Some have c: "node_commands J (e # es) = ?c # node_commands J es" by (simp add: node_commands_Cons)
    have s: "size (command_effect ?c M) + additions (node_commands J es) \<le> size M + additions (?c # node_commands J es)"
      by (simp add: command_effect_def additions_def size_Diff_singleton_if)
    have "?k * Suc (size M) \<le> 255" if "cmd_Type cmd = ''add''"
    proof -
      have "Suc (size M) \<le> size M + additions (?c # node_commands J es)" using that by (simp add: additions_def cmd_pair_def)
      then show ?thesis using Cons.prems(3) c by (metis le_trans mult_le_mono2)
    qed
    moreover have "cmd_Item cmd \<in># M" if "cmd_Type cmd = ''remove''" using Cons.prems(2) that by (simp add: c cmd_pair_def)
    ultimately obtain r bf where a: "node_Apply J murmur n e = Inr (r, n\<lparr>nd_bloomFilter := bf\<rparr>)"
      "represents murmur bf (command_effect ?c M)" "cbf_k bf = cbf_k (nd_bloomFilter n)"
      using node_Apply_held [OF Cons.prems(1) Some] by blast
    have "nat (cbf_k bf) * (size (command_effect ?c M) + additions (node_commands J es)) \<le> 255"
      using order.trans [OF mult_le_mono2 [OF s, of ?k] Cons.prems(3) [unfolded c]] a(3) by simp
    moreover have "removes_held (command_effect ?c M) (node_commands J es)" using Cons.prems(2) by (simp add: c)
    ultimately obtain rs n' where "node_run J murmur (n\<lparr>nd_bloomFilter := bf\<rparr>) es = Inr (rs, n')"
      "represents murmur (nd_bloomFilter n') (held_after (command_effect ?c M) (node_commands J es))"
      using Cons.IH [of "n\<lparr>nd_bloomFilter := bf\<rparr>" "command_effect ?c M"] a(2) by auto
    with a(1) show ?thesis by (simp add: c)
  qed
qed simp

end
