(* ===== verification/Raft_Managers.thy ===== *)
theory Raft_Managers
  imports Raft_Log "HOL-Library.AList"
begin

text \<open>
  The managers beside the node: \<open>state.go\<close>, \<open>election.go\<close>, \<open>replication.go\<close> and \<open>config.go\<close> of
  \<open>src/internal/raft/\<close>. Each method runs under the manager's lock. What the consensus library answers is
  an argument of the call; the two waiting loops and the monitor take the events they see, in the
  order in which their \<open>select\<close> receives them.
\<close>

section \<open>state.go\<close>

text \<open>\<open>NodeState\<close> is an integer type with four named values.\<close>

datatype NodeState = StateFollower | StateCandidate | StateLeader | StateShutdown | StateOther int

definition NodeState_String :: "NodeState \<Rightarrow> string" where
  "NodeState_String s = (case s of StateFollower \<Rightarrow> ''Follower'' | StateCandidate \<Rightarrow> ''Candidate''
     | StateLeader \<Rightarrow> ''Leader'' | StateShutdown \<Rightarrow> ''Shutdown'' | StateOther i \<Rightarrow> ''Unknown'')"

record StateManager =
  sm_state :: NodeState
  sm_stateChangedAt :: int
  sm_currentTerm :: u64
  sm_votedFor :: string
  sm_commitIndex :: u64
  sm_lastApplied :: u64
  sm_lastSnapshotIndex :: u64
  sm_lastSnapshotTerm :: u64

definition NewStateManager :: "int \<Rightarrow> StateManager" where
  "NewStateManager now = \<lparr>sm_state = StateFollower, sm_stateChangedAt = now, sm_currentTerm = 0, sm_votedFor = '''',
     sm_commitIndex = 0, sm_lastApplied = 0, sm_lastSnapshotIndex = 0, sm_lastSnapshotTerm = 0\<rparr>"

definition GetState :: "StateManager \<Rightarrow> NodeState" where
  "GetState sm = sm_state sm"

definition GetCurrentTerm :: "StateManager \<Rightarrow> u64" where
  "GetCurrentTerm sm = sm_currentTerm sm"

definition GetVotedFor :: "StateManager \<Rightarrow> string" where
  "GetVotedFor sm = sm_votedFor sm"

definition GetCommitIndex :: "StateManager \<Rightarrow> u64" where
  "GetCommitIndex sm = sm_commitIndex sm"

definition GetLastApplied :: "StateManager \<Rightarrow> u64" where
  "GetLastApplied sm = sm_lastApplied sm"

definition GetLastSnapshotIndex :: "StateManager \<Rightarrow> u64" where
  "GetLastSnapshotIndex sm = sm_lastSnapshotIndex sm"

definition GetLastSnapshotTerm :: "StateManager \<Rightarrow> u64" where
  "GetLastSnapshotTerm sm = sm_lastSnapshotTerm sm"

definition SetState :: "int \<Rightarrow> NodeState \<Rightarrow> StateManager \<Rightarrow> StateManager" where
  "SetState now state sm = sm\<lparr>sm_state := state, sm_stateChangedAt := now\<rparr>"

definition GetStateDuration :: "int \<Rightarrow> StateManager \<Rightarrow> int" where
  "GetStateDuration now sm = now - sm_stateChangedAt sm"

definition SetCurrentTerm :: "u64 \<Rightarrow> StateManager \<Rightarrow> StateManager" where
  "SetCurrentTerm term sm = sm\<lparr>sm_currentTerm := term\<rparr>"

definition SetVotedFor :: "string \<Rightarrow> StateManager \<Rightarrow> StateManager" where
  "SetVotedFor candidateID sm = sm\<lparr>sm_votedFor := candidateID\<rparr>"

definition SetCommitIndex :: "u64 \<Rightarrow> StateManager \<Rightarrow> StateManager" where
  "SetCommitIndex index sm = sm\<lparr>sm_commitIndex := index\<rparr>"

definition SetLastApplied :: "u64 \<Rightarrow> StateManager \<Rightarrow> StateManager" where
  "SetLastApplied index sm = sm\<lparr>sm_lastApplied := index\<rparr>"

definition SetLastSnapshotIndex :: "u64 \<Rightarrow> StateManager \<Rightarrow> StateManager" where
  "SetLastSnapshotIndex index sm = sm\<lparr>sm_lastSnapshotIndex := index\<rparr>"

definition SetLastSnapshotTerm :: "u64 \<Rightarrow> StateManager \<Rightarrow> StateManager" where
  "SetLastSnapshotTerm term sm = sm\<lparr>sm_lastSnapshotTerm := term\<rparr>"

definition state_GetStatus :: "int \<Rightarrow> StateManager \<Rightarrow> (string \<times> state_val) list" where
  "state_GetStatus now sm =
     [(''state'', SvString (NodeState_String (sm_state sm))),
      (''state_duration'', SvDuration (GetStateDuration now sm)),
      (''current_term'', SvUint (sm_currentTerm sm)), (''voted_for'', SvString (sm_votedFor sm)),
      (''commit_index'', SvUint (sm_commitIndex sm)), (''last_applied'', SvUint (sm_lastApplied sm)),
      (''last_snapshot_index'', SvUint (sm_lastSnapshotIndex sm)), (''last_snapshot_term'', SvUint (sm_lastSnapshotTerm sm))]"

text \<open>The roles of the library; its type is an integer too.\<close>

datatype raft_role = RaftFollower | RaftCandidate | RaftLeader | RaftShutdown | RaftOther nat

definition ConvertRaftState :: "raft_role \<Rightarrow> NodeState" where
  "ConvertRaftState state = (case state of RaftFollower \<Rightarrow> StateFollower | RaftCandidate \<Rightarrow> StateCandidate
     | RaftLeader \<Rightarrow> StateLeader | RaftShutdown \<Rightarrow> StateShutdown | RaftOther i \<Rightarrow> StateFollower)"

definition raft_role_String :: "raft_role \<Rightarrow> string" where
  "raft_role_String s = (case s of RaftFollower \<Rightarrow> ''Follower'' | RaftCandidate \<Rightarrow> ''Candidate''
     | RaftLeader \<Rightarrow> ''Leader'' | RaftShutdown \<Rightarrow> ''Shutdown'' | RaftOther i \<Rightarrow> ''Unknown'')"

section \<open>election.go\<close>

record ElectionStats =
  es_TotalElections :: int
  es_TotalVotesReceived :: int
  es_TotalVotesCast :: int
  es_LastElectionTime :: int
  es_LastElectionTerm :: u64
  es_LeaderChanges :: int
  es_AverageElectionTime :: int

text \<open>The callback is present or not; its invocations are collected by the monitor.\<close>

record ElectionManager =
  em_raftNode :: bool
  em_stats :: ElectionStats
  em_currentLeader :: string
  em_currentLeaderAddr :: string
  em_leaderChangedAt :: int
  em_onLeaderChange :: bool

datatype election_error = ErrLeaderElectionTimeout | ErrNoLeader | CtxErr string

definition zero_election_stats :: ElectionStats where
  "zero_election_stats = \<lparr>es_TotalElections = 0, es_TotalVotesReceived = 0, es_TotalVotesCast = 0,
     es_LastElectionTime = zero_time, es_LastElectionTerm = 0, es_LeaderChanges = 0, es_AverageElectionTime = 0\<rparr>"

definition NewElectionManager :: ElectionManager where
  "NewElectionManager = \<lparr>em_raftNode = False, em_stats = zero_election_stats, em_currentLeader = '''',
     em_currentLeaderAddr = '''', em_leaderChangedAt = zero_time, em_onLeaderChange = False\<rparr>"

definition em_SetRaftNode :: "bool \<Rightarrow> ElectionManager \<Rightarrow> ElectionManager" where
  "em_SetRaftNode node em = em\<lparr>em_raftNode := node\<rparr>"

definition SetOnLeaderChange :: "bool \<Rightarrow> ElectionManager \<Rightarrow> ElectionManager" where
  "SetOnLeaderChange callback em = em\<lparr>em_onLeaderChange := callback\<rparr>"

definition em_IsLeader :: "raft_role \<Rightarrow> ElectionManager \<Rightarrow> bool" where
  "em_IsLeader raft_State em = (if \<not> em_raftNode em then False else raft_State = RaftLeader)"

definition GetLeader :: "string \<Rightarrow> ElectionManager \<Rightarrow> string \<times> string" where
  "GetLeader raft_Leader em = (if \<not> em_raftNode em then ('''', '''') else (raft_Leader, raft_Leader))"

text \<open>The events of a waiting loop: the context ends, the deadline passes, or the ticker fires while the
  library reports a value.\<close>

datatype 'a wait_event = CtxDone string | DeadlinePassed | Tick 'a

fun WaitForLeader :: "ElectionManager \<Rightarrow> string wait_event list \<Rightarrow> (election_error + string \<times> string) option" where
  "WaitForLeader em [] = None"
| "WaitForLeader em (CtxDone err # evs) = Some (Inl (CtxErr err))"
| "WaitForLeader em (DeadlinePassed # evs) = Some (Inl ErrLeaderElectionTimeout)"
| "WaitForLeader em (Tick raft_Leader # evs) =
     (let (leaderID, leaderAddr) = GetLeader raft_Leader em in
      if leaderID \<noteq> '''' then Some (Inr (leaderID, leaderAddr)) else WaitForLeader em evs)"

text \<open>The monitor, on the times and leaders its ticks see, until the context ends: the calls of the
  callback in order.\<close>

fun MonitorLeaderChanges ::
  "ElectionManager \<Rightarrow> string \<Rightarrow> (int \<times> string) list \<Rightarrow> (string \<times> string) list \<times> ElectionManager" where
  "MonitorLeaderChanges em lastLeader [] = ([], em)"
| "MonitorLeaderChanges em lastLeader ((now, raft_Leader) # ticks) =
     (let (leaderID, leaderAddr) = GetLeader raft_Leader em in
      if leaderID \<noteq> lastLeader then
        let em1 = em\<lparr>em_currentLeader := leaderID, em_currentLeaderAddr := leaderAddr, em_leaderChangedAt := now,
              em_stats := (em_stats em)\<lparr>es_LeaderChanges := es_LeaderChanges (em_stats em) + 1\<rparr>\<rparr>;
            (calls, em2) = MonitorLeaderChanges em1 leaderID ticks
        in (if em_onLeaderChange em1 \<and> leaderID \<noteq> '''' then (leaderID, leaderAddr) # calls else calls, em2)
      else MonitorLeaderChanges em lastLeader ticks)"

definition GetLeaderDuration :: "int \<Rightarrow> ElectionManager \<Rightarrow> int" where
  "GetLeaderDuration now em = (if em_leaderChangedAt em = zero_time then 0 else now - em_leaderChangedAt em)"

definition em_GetStats :: "ElectionManager option \<Rightarrow> ElectionStats" where
  "em_GetStats em = (case em of None \<Rightarrow> zero_election_stats | Some e \<Rightarrow> em_stats e)"

definition RecordVoteReceived :: "ElectionManager \<Rightarrow> ElectionManager" where
  "RecordVoteReceived em = em\<lparr>em_stats := (em_stats em)\<lparr>es_TotalVotesReceived := es_TotalVotesReceived (em_stats em) + 1\<rparr>\<rparr>"

definition RecordVoteCast :: "ElectionManager \<Rightarrow> ElectionManager" where
  "RecordVoteCast em = em\<lparr>em_stats := (em_stats em)\<lparr>es_TotalVotesCast := es_TotalVotesCast (em_stats em) + 1\<rparr>\<rparr>"

definition RecordElection :: "int \<Rightarrow> u64 \<Rightarrow> ElectionManager \<Rightarrow> ElectionManager" where
  "RecordElection now term em = em\<lparr>em_stats := (em_stats em)\<lparr>es_TotalElections := es_TotalElections (em_stats em) + 1,
     es_LastElectionTime := now, es_LastElectionTerm := term\<rparr>\<rparr>"

definition em_GetStatus :: "raft_role \<Rightarrow> ElectionManager \<Rightarrow> (string \<times> state_val) list" where
  "em_GetStatus raft_State em =
     [(''is_leader'', SvBool (em_raftNode em \<and> raft_State = RaftLeader)), (''current_leader'', SvString (em_currentLeader em)),
      (''leader_address'', SvString (em_currentLeaderAddr em)), (''leader_duration'', SvTime (em_leaderChangedAt em)),
      (''total_elections'', SvInt (es_TotalElections (em_stats em))), (''leader_changes'', SvInt (es_LeaderChanges (em_stats em)))]
     @ (if em_raftNode em then [(''raft_state'', SvString (raft_role_String raft_State)), (''current_term'', SvString ''unavailable'')]
        else [])"

section \<open>replication.go\<close>

record PeerInfo =
  pi_ID :: string
  pi_Address :: string
  pi_LastContact :: int
  pi_LastLogIndex :: u64
  pi_LastLogTerm :: u64
  pi_IsVoter :: bool
  pi_IsHealthy :: bool
  pi_ReplicationLag :: u64

record ReplicationStats =
  rs_TotalReplications :: int
  rs_SuccessfulReplications :: int
  rs_FailedReplications :: int
  rs_AverageLatency :: int
  rs_LastReplicationTime :: int
  rs_BytesReplicated :: int

text \<open>The peers are an association list; Go leaves the order in which a map is traversed open.\<close>

record ReplicationManager =
  rm_raftNode :: bool
  rm_stats :: ReplicationStats
  rm_peers :: "(string \<times> PeerInfo) list"
  rm_onReplicationComplete :: bool

datatype replication_error = RaftNotStarted | ErrReplicationTimeout | ErrPeerNotFound | RaftFailed string | ReplicationCtxErr string

definition zero_replication_stats :: ReplicationStats where
  "zero_replication_stats = \<lparr>rs_TotalReplications = 0, rs_SuccessfulReplications = 0, rs_FailedReplications = 0,
     rs_AverageLatency = 0, rs_LastReplicationTime = zero_time, rs_BytesReplicated = 0\<rparr>"

definition NewReplicationManager :: ReplicationManager where
  "NewReplicationManager = \<lparr>rm_raftNode = False, rm_stats = zero_replication_stats, rm_peers = [], rm_onReplicationComplete = False\<rparr>"

definition rm_SetRaftNode :: "bool \<Rightarrow> ReplicationManager \<Rightarrow> ReplicationManager" where
  "rm_SetRaftNode node rm = rm\<lparr>rm_raftNode := node\<rparr>"

definition SetOnReplicationComplete :: "bool \<Rightarrow> ReplicationManager \<Rightarrow> ReplicationManager" where
  "SetOnReplicationComplete callback rm = rm\<lparr>rm_onReplicationComplete := callback\<rparr>"

definition GetConfiguration :: "(string + 'conf) \<Rightarrow> ReplicationManager \<Rightarrow> replication_error + 'conf" where
  "GetConfiguration raft_GetConfiguration rm =
     (if \<not> rm_raftNode rm then Inl RaftNotStarted
      else (case raft_GetConfiguration of Inl err \<Rightarrow> Inl (RaftFailed err) | Inr c \<Rightarrow> Inr c))"

definition count_failure :: "ReplicationManager \<Rightarrow> ReplicationManager" where
  "count_failure rm = rm\<lparr>rm_stats := (rm_stats rm)\<lparr>rs_FailedReplications := rs_FailedReplications (rm_stats rm) + 1\<rparr>\<rparr>"

definition count_success :: "ReplicationManager \<Rightarrow> ReplicationManager" where
  "count_success rm = rm\<lparr>rm_stats := (rm_stats rm)\<lparr>rs_TotalReplications := rs_TotalReplications (rm_stats rm) + 1,
     rs_SuccessfulReplications := rs_SuccessfulReplications (rm_stats rm) + 1\<rparr>\<rparr>"

text \<open>\<open>raft_AddVoter\<close> is the error of the library's future, if any. The server is added as a voter whatever
  the argument \<open>voter\<close> says.\<close>

definition AddPeer ::
  "(string \<Rightarrow> string \<Rightarrow> string option) \<Rightarrow> int \<Rightarrow> string \<Rightarrow> string \<Rightarrow> bool \<Rightarrow> ReplicationManager
    \<Rightarrow> replication_error option \<times> ReplicationManager" where
  "AddPeer raft_AddVoter now serverID address voter rm =
     (if \<not> rm_raftNode rm then (Some RaftNotStarted, rm)
      else (case raft_AddVoter serverID address of
          Some err \<Rightarrow> (Some (RaftFailed err), count_failure rm)
        | None \<Rightarrow> (None, count_success (rm\<lparr>rm_peers := AList.update serverID
            \<lparr>pi_ID = serverID, pi_Address = address, pi_LastContact = now, pi_LastLogIndex = 0, pi_LastLogTerm = 0,
             pi_IsVoter = voter, pi_IsHealthy = True, pi_ReplicationLag = 0\<rparr> (rm_peers rm)\<rparr>))))"

definition RemovePeer ::
  "(string \<Rightarrow> string option) \<Rightarrow> string \<Rightarrow> ReplicationManager \<Rightarrow> replication_error option \<times> ReplicationManager" where
  "RemovePeer raft_RemoveServer serverID rm =
     (if \<not> rm_raftNode rm then (Some RaftNotStarted, rm)
      else (case raft_RemoveServer serverID of
          Some err \<Rightarrow> (Some (RaftFailed err), count_failure rm)
        | None \<Rightarrow> (None, count_success (rm\<lparr>rm_peers := AList.delete serverID (rm_peers rm)\<rparr>))))"

definition GetPeerInfo :: "string \<Rightarrow> ReplicationManager \<Rightarrow> replication_error + PeerInfo" where
  "GetPeerInfo serverID rm = (case map_of (rm_peers rm) serverID of None \<Rightarrow> Inl ErrPeerNotFound | Some peer \<Rightarrow> Inr peer)"

definition GetAllPeers :: "ReplicationManager \<Rightarrow> (string \<times> PeerInfo) list" where
  "GetAllPeers rm = rm_peers rm"

definition GetReplicationLag :: "u64 \<Rightarrow> string \<Rightarrow> ReplicationManager \<Rightarrow> replication_error + u64" where
  "GetReplicationLag lastIndex serverID rm = (case map_of (rm_peers rm) serverID of
      None \<Rightarrow> Inl ErrPeerNotFound
    | Some peer \<Rightarrow>
        if \<not> rm_raftNode rm then Inl RaftNotStarted
        else if lastIndex > pi_LastLogIndex peer then Inr (lastIndex - pi_LastLogIndex peer)
        else Inr 0)"

fun WaitForReplication :: "ReplicationManager \<Rightarrow> u64 \<Rightarrow> u64 wait_event list \<Rightarrow> replication_error option option" where
  "WaitForReplication rm index [] = None"
| "WaitForReplication rm index (CtxDone err # evs) = Some (Some (ReplicationCtxErr err))"
| "WaitForReplication rm index (DeadlinePassed # evs) = Some (Some ErrReplicationTimeout)"
| "WaitForReplication rm index (Tick commitIndex # evs) =
     (if \<not> rm_raftNode rm then Some (Some RaftNotStarted)
      else if commitIndex \<ge> index then Some None
      else WaitForReplication rm index evs)"

definition rm_GetStats :: "ReplicationManager option \<Rightarrow> ReplicationStats" where
  "rm_GetStats rm = (case rm of None \<Rightarrow> zero_replication_stats | Some r \<Rightarrow> rm_stats r)"

definition UpdatePeerContact :: "u64 \<Rightarrow> int \<Rightarrow> string \<Rightarrow> u64 \<Rightarrow> u64 \<Rightarrow> ReplicationManager \<Rightarrow> ReplicationManager" where
  "UpdatePeerContact lastIndex now serverID logIndex logTerm rm = (case map_of (rm_peers rm) serverID of
      None \<Rightarrow> rm
    | Some peer \<Rightarrow>
        let p1 = peer\<lparr>pi_LastContact := now, pi_LastLogIndex := logIndex, pi_LastLogTerm := logTerm, pi_IsHealthy := True\<rparr>;
            p2 = (if rm_raftNode rm then
                    (if lastIndex > logIndex then p1\<lparr>pi_ReplicationLag := lastIndex - logIndex\<rparr>
                     else p1\<lparr>pi_ReplicationLag := 0\<rparr>)
                  else p1)
        in rm\<lparr>rm_peers := AList.update serverID p2 (rm_peers rm)\<rparr>)"

definition MarkPeerUnhealthy :: "string \<Rightarrow> ReplicationManager \<Rightarrow> ReplicationManager" where
  "MarkPeerUnhealthy serverID rm = (case map_of (rm_peers rm) serverID of
      None \<Rightarrow> rm
    | Some peer \<Rightarrow> rm\<lparr>rm_peers := AList.update serverID (peer\<lparr>pi_IsHealthy := False\<rparr>) (rm_peers rm)\<rparr>)"

definition peer_status :: "PeerInfo \<Rightarrow> (string \<times> state_val) list" where
  "peer_status p = [(''id'', SvString (pi_ID p)), (''address'', SvString (pi_Address p)),
     (''last_contact'', SvTime (pi_LastContact p)), (''last_log_index'', SvUint (pi_LastLogIndex p)),
     (''last_log_term'', SvUint (pi_LastLogTerm p)), (''is_voter'', SvBool (pi_IsVoter p)),
     (''is_healthy'', SvBool (pi_IsHealthy p)), (''replication_lag'', SvUint (pi_ReplicationLag p))]"

definition rm_GetStatus :: "ReplicationManager \<Rightarrow> (string \<times> state_val) list \<times> (string \<times> state_val) list list" where
  "rm_GetStatus rm =
     ([(''total_replications'', SvInt (rs_TotalReplications (rm_stats rm))),
       (''successful_replications'', SvInt (rs_SuccessfulReplications (rm_stats rm))),
       (''failed_replications'', SvInt (rs_FailedReplications (rm_stats rm))),
       (''average_latency'', SvDuration (rs_AverageLatency (rm_stats rm)))],
      map (\<lambda>(ident, peer). peer_status peer) (rm_peers rm))"

section \<open>config.go\<close>

record TLSRaftConfig =
  trc_CAFile :: string
  trc_CertFile :: string
  trc_KeyFile :: string
  trc_ClientCertFile :: string
  trc_ClientKeyFile :: string
  trc_ServerName :: string
  trc_MinVersion :: "16 word"
  trc_InsecureSkipVerify :: bool

record ServerConfig =
  sc_ID :: string
  sc_Address :: string
  sc_Voter :: bool

record RaftConfig =
  rc_NodeID :: string
  rc_RaftPort :: int
  rc_DataDir :: string
  rc_HeartbeatTimeout :: int
  rc_ElectionTimeout :: int
  rc_CommitTimeout :: int
  rc_SnapshotThreshold :: u64
  rc_SnapshotInterval :: int
  rc_MaxPool :: int
  rc_Timeout :: int
  rc_LocalID :: string
  rc_Bootstrap :: bool
  rc_ClusterNodes :: "ServerConfig list"
  rc_UseInmemStore :: bool
  rc_TLSEnabled :: bool
  rc_TLSConfig :: "TLSRaftConfig option"

datatype config_error = ErrNodeIDRequired | ErrInvalidPort | ErrDataDirRequired

definition DefaultConfig :: RaftConfig where
  "DefaultConfig = \<lparr>rc_NodeID = '''', rc_RaftPort = 0, rc_DataDir = '''', rc_HeartbeatTimeout = 1000 * 10 ^ 6,
     rc_ElectionTimeout = 1000 * 10 ^ 6, rc_CommitTimeout = 50 * 10 ^ 6, rc_SnapshotThreshold = 8192,
     rc_SnapshotInterval = 120 * 10 ^ 9, rc_MaxPool = 3, rc_Timeout = 10 * 10 ^ 9, rc_LocalID = '''',
     rc_Bootstrap = False, rc_ClusterNodes = [], rc_UseInmemStore = False, rc_TLSEnabled = True,
     rc_TLSConfig = Some \<lparr>trc_CAFile = '''', trc_CertFile = '''', trc_KeyFile = '''', trc_ClientCertFile = '''',
       trc_ClientKeyFile = '''', trc_ServerName = ''localhost'', trc_MinVersion = 0x0303, trc_InsecureSkipVerify = False\<rparr>\<rparr>"

definition Validate :: "RaftConfig \<Rightarrow> config_error option" where
  "Validate c =
     (if rc_NodeID c = '''' then Some ErrNodeIDRequired
      else if rc_RaftPort c \<le> 0 \<or> rc_RaftPort c > 65535 then Some ErrInvalidPort
      else if rc_DataDir c = '''' then Some ErrDataDirRequired
      else None)"

section \<open>Properties\<close>

text \<open>A deciding event of a waiting loop.\<close>

definition decides :: "('a \<Rightarrow> bool) \<Rightarrow> 'a wait_event \<Rightarrow> bool" where
  "decides ok ev = (case ev of CtxDone _ \<Rightarrow> True | DeadlinePassed \<Rightarrow> True | Tick v \<Rightarrow> ok v)"



text \<open>The leaders a monitor sees, without repetitions of the one before.\<close>

lemma Monitor_remdups:
  assumes "em_raftNode em"
  shows "case MonitorLeaderChanges em l ticks of (calls, em') \<Rightarrow>
     calls = (if em_onLeaderChange em then map (\<lambda>x. (x, x)) (filter (\<lambda>x. x \<noteq> '''') (tl (remdups_adj (l # map snd ticks)))) else [])
   \<and> es_LeaderChanges (em_stats em') = es_LeaderChanges (em_stats em) + int (length (tl (remdups_adj (l # map snd ticks))))
   \<and> (em_currentLeader em = l \<longrightarrow> em_currentLeader em' = last (l # map snd ticks))"
  using assms
proof (induction ticks arbitrary: em l)
  case (Cons t ticks)
  obtain now r where t: "t = (now, r)" by force
  have g: "GetLeader r em = (r, r)" using Cons.prems by (simp add: GetLeader_def)
  show ?case
  proof (cases "r = l")
    case True
    with Cons.IH [of em l] Cons.prems g t show ?thesis by (auto simp: split_def)
  next
    case False
    let ?em = "em\<lparr>em_currentLeader := r, em_currentLeaderAddr := r, em_leaderChangedAt := now,
              em_stats := (em_stats em)\<lparr>es_LeaderChanges := es_LeaderChanges (em_stats em) + 1\<rparr>\<rparr>"
    have "remdups_adj (l # r # map snd ticks) = l # remdups_adj (r # map snd ticks)" using False by simp
    moreover obtain zs where "remdups_adj (r # map snd ticks) = r # zs"
      by (metis hd_remdups_adj list.collapse list.distinct(1) list.sel(1) remdups_adj_Nil_iff)
    ultimately show ?thesis using Cons.IH [of ?em r] False Cons.prems g t
      by (auto simp: split_def Let_def)
  qed
qed simp

text \<open>The leader monitor reports every change once. If the ticks of \<open>MonitorLeaderChanges\<close> see a sequence
  of leaders, the callback is called exactly for the leaders of that sequence without adjacent
  repetitions and without the gaps in which there is none, in order; the counter grows by the number
  of changes; and the current leader is the last one seen.\<close>

theorem monitor_reports_changes:
  assumes "em_raftNode em" and "em_currentLeader em = ''''"
    and "MonitorLeaderChanges em '''' ticks = (calls, em')"
  shows "let changes = tl (remdups_adj ('''' # map snd ticks)) in
     calls = (if em_onLeaderChange em then map (\<lambda>x. (x, x)) (filter (\<lambda>x. x \<noteq> '''') changes) else [])
   \<and> es_LeaderChanges (em_stats em') = es_LeaderChanges (em_stats em) + int (length changes)
   \<and> em_currentLeader em' = last ('''' # map snd ticks)"
  using Monitor_remdups [OF assms(1), of "''''" ticks] assms(2,3) by (simp add: Let_def)

theorem monitor_reports_changes_witness:
  "\<exists>em'. MonitorLeaderChanges (SetOnLeaderChange True (em_SetRaftNode True NewElectionManager)) ''''
      [(1, ''a:1''), (2, ''a:1''), (3, ''''), (4, ''b:1'')] = ([(''a:1'', ''a:1''), (''b:1'', ''b:1'')], em')
    \<and> es_LeaderChanges (em_stats em') = 3 \<and> em_currentLeader em' = ''b:1''"
proof -
  let ?em = "SetOnLeaderChange True (em_SetRaftNode True NewElectionManager)"
  let ?ticks = "[(1, ''a:1''), (2, ''a:1''), (3, ''''), (4, ''b:1'')] :: (int \<times> string) list"
  obtain calls em' where m: "MonitorLeaderChanges ?em '''' ?ticks = (calls, em')" by force
  have "em_raftNode ?em" "em_currentLeader ?em = ''''" "em_onLeaderChange ?em" "es_LeaderChanges (em_stats ?em) = 0"
    by (simp_all add: SetOnLeaderChange_def em_SetRaftNode_def NewElectionManager_def zero_election_stats_def)
  with monitor_reports_changes [OF _ _ m] m show ?thesis by (simp add: Let_def)
qed

text \<open>The operations that change a replication manager, with what the library answers.\<close>

datatype peer_op =
    OpSetRaftNode bool | OpAdd "string option" int string string bool | OpRemovePeer "string option" string
  | OpContact u64 int string u64 u64 | OpUnhealthy string

fun peer_step :: "ReplicationManager \<Rightarrow> peer_op \<Rightarrow> ReplicationManager" where
  "peer_step rm (OpSetRaftNode b) = rm_SetRaftNode b rm"
| "peer_step rm (OpAdd err now ident addr voter) = snd (AddPeer (\<lambda>_ _. err) now ident addr voter rm)"
| "peer_step rm (OpRemovePeer err ident) = snd (RemovePeer (\<lambda>_. err) ident rm)"
| "peer_step rm (OpContact lastIndex now ident i t) = UpdatePeerContact lastIndex now ident i t rm"
| "peer_step rm (OpUnhealthy ident) = MarkPeerUnhealthy ident rm"

definition rm_inv :: "ReplicationManager \<Rightarrow> bool" where
  "rm_inv rm \<longleftrightarrow> distinct (map fst (rm_peers rm)) \<and> (\<forall>(ident, p) \<in> set (rm_peers rm). pi_ID p = ident)
     \<and> rs_TotalReplications (rm_stats rm) = rs_SuccessfulReplications (rm_stats rm)
     \<and> int (length (rm_peers rm)) \<le> rs_TotalReplications (rm_stats rm) \<and> 0 \<le> rs_FailedReplications (rm_stats rm)"

lemma set_update_subset: "set (AList.update k v xs) \<subseteq> insert (k, v) (set xs)"
  by (induction xs) auto

lemma update_peer_inv:
  assumes "rm_inv rm" and "map_of (rm_peers rm) ident = Some p" and "pi_ID q = ident"
  shows "rm_inv (rm\<lparr>rm_peers := AList.update ident q (rm_peers rm)\<rparr>)"
proof -
  have i: "ident \<in> set (map fst (rm_peers rm))" using assms(2) by (force dest: map_of_SomeD)
  then have "map fst (AList.update ident q (rm_peers rm)) = map fst (rm_peers rm)" by (simp add: update_keys)
  then have "length (AList.update ident q (rm_peers rm)) = length (rm_peers rm)" by (metis length_map)
  then show ?thesis
    using assms(1,3) set_update_subset [of ident q "rm_peers rm"] by (auto simp: rm_inv_def distinct_update)
qed

lemma peer_step_inv: "rm_inv rm \<Longrightarrow> rm_inv (peer_step rm op)"
proof (induction rm op rule: peer_step.induct)
  case (2 rm err now ident addr voter)
  let ?p = "\<lparr>pi_ID = ident, pi_Address = addr, pi_LastContact = now, pi_LastLogIndex = 0, pi_LastLogTerm = 0,
             pi_IsVoter = voter, pi_IsHealthy = True, pi_ReplicationLag = 0\<rparr>"
  have "length (AList.update ident ?p (rm_peers rm)) \<le> Suc (length (rm_peers rm))"
    using arg_cong [OF update_keys, of length ident ?p "rm_peers rm"] by (auto split: if_splits)
  with 2 set_update_subset [of ident ?p "rm_peers rm"] show ?case
    by (auto simp: AddPeer_def count_failure_def count_success_def rm_inv_def distinct_update split: option.splits)
next
  case (3 rm err ident)
  have "length (AList.delete ident (rm_peers rm)) \<le> length (rm_peers rm)"
    "set (AList.delete ident (rm_peers rm)) \<subseteq> set (rm_peers rm)" by (auto simp: AList.delete_eq)
  with 3 show ?case
    by (auto simp: RemovePeer_def count_failure_def count_success_def rm_inv_def distinct_delete split: option.splits)
next
  case (4 rm lastIndex now ident i t)
  have "pi_ID p = ident" if "map_of (rm_peers rm) ident = Some p" for p
    using 4 map_of_SomeD [OF that] by (auto simp: rm_inv_def)
  with 4 show ?case by (auto simp: UpdatePeerContact_def Let_def intro!: update_peer_inv split: option.splits)
next
  case (5 rm ident)
  have "pi_ID p = ident" if "map_of (rm_peers rm) ident = Some p" for p
    using 5 map_of_SomeD [OF that] by (auto simp: rm_inv_def)
  with 5 show ?case by (auto simp: MarkPeerUnhealthy_def intro!: update_peer_inv split: option.splits)
qed (simp add: rm_SetRaftNode_def rm_inv_def)

lemma peer_steps_inv: "rm_inv rm \<Longrightarrow> rm_inv (foldl peer_step rm ops)"
  by (induction ops arbitrary: rm) (simp_all add: peer_step_inv)


end
