(* ===== verification/Raft_Snapshot.thy ===== *)
theory Raft_Snapshot
  imports Raft_FSM
begin

text \<open>
  \<open>src/internal/raft/snapshot.go\<close>: the snapshot manager, which keeps encrypted or plain snapshot files
  in a directory. The directory is passed along; the environment says which system calls fail and
  what time it is. SHA-256 is the parameter \<open>sha\<close>; \<open>MarshalIndent\<close> is the parameter \<open>marshal_indent\<close>.
\<close>

section \<open>State\<close>

record SnapshotStats =
  ss_TotalSnapshots :: int
  ss_TotalSnapshotSize :: int
  ss_LastSnapshotIndex :: u64
  ss_LastSnapshotTerm :: u64
  ss_LastSnapshotTime :: int
  ss_TotalRestores :: int
  ss_AverageSnapshotSize :: int

text \<open>A snapshot store of the library: a file store with its listing, or another implementation.\<close>

record SnapshotMeta =
  me_ID :: string
  me_Index :: u64
  me_Term :: u64
  me_Size :: int

datatype snapshot_store = FileSnapshotStore "string + SnapshotMeta list" | OtherSnapshotStore

record SnapshotManager =
  sn_snapshotStore :: "snapshot_store option"
  sn_bloomFilter :: "CountingBloomFilter option"
  sn_encryptor :: "WALEncryptor option"
  sn_snapshotDir :: string
  sn_stats :: SnapshotStats
  sn_lastSnapshotIndex :: u64
  sn_lastSnapshotTerm :: u64
  sn_lastSnapshotTime :: int

datatype snapshot_error =
    ErrBloomFilterNotInitialized | ErrSnapshotStoreNotInitialized | ErrSnapshotDirNotConfigured | ErrNoSnapshotFound
  | SnapMarshal | SnapEncrypt wal_error | SnapOs os_op | SnapFormat | SnapDecrypt wal_error | SnapChecksum
  | SnapRead | SnapUnmarshal | SnapRestore bloom_error | SnapList string

definition zero_snapshot_stats :: SnapshotStats where
  "zero_snapshot_stats = \<lparr>ss_TotalSnapshots = 0, ss_TotalSnapshotSize = 0, ss_LastSnapshotIndex = 0,
     ss_LastSnapshotTerm = 0, ss_LastSnapshotTime = zero_time, ss_TotalRestores = 0, ss_AverageSnapshotSize = 0\<rparr>"

definition NewSnapshotManager :: "CountingBloomFilter option \<Rightarrow> SnapshotManager" where
  "NewSnapshotManager bf = \<lparr>sn_snapshotStore = None, sn_bloomFilter = bf, sn_encryptor = None, sn_snapshotDir = '''',
     sn_stats = zero_snapshot_stats, sn_lastSnapshotIndex = 0, sn_lastSnapshotTerm = 0, sn_lastSnapshotTime = zero_time\<rparr>"

definition NewSnapshotManagerWithEncryption ::
  "CountingBloomFilter option \<Rightarrow> WALEncryptor option \<Rightarrow> string \<Rightarrow> SnapshotManager" where
  "NewSnapshotManagerWithEncryption bf enc snapshotDir = \<lparr>sn_snapshotStore = None, sn_bloomFilter = bf, sn_encryptor = enc,
     sn_snapshotDir = snapshotDir, sn_stats = zero_snapshot_stats, sn_lastSnapshotIndex = 0, sn_lastSnapshotTerm = 0,
     sn_lastSnapshotTime = zero_time\<rparr>"

definition SetSnapshotStore :: "snapshot_store option \<Rightarrow> SnapshotManager \<Rightarrow> SnapshotManager" where
  "SetSnapshotStore store sm = sm\<lparr>sn_snapshotStore := store\<rparr>"

section \<open>Creating\<close>

text \<open>Go's integer division truncates; a zero divisor panics.\<close>

definition go_div :: "int \<Rightarrow> int \<Rightarrow> panic + int" where
  "go_div a b = (if b = 0 then Inl DivideByZero else Inr (sgn a * sgn b * (\<bar>a\<bar> div \<bar>b\<bar>)))"

definition CreateSnapshot ::
  "json_codec \<Rightarrow> int \<Rightarrow> u64 \<Rightarrow> u64 \<Rightarrow> SnapshotManager \<Rightarrow> panic + (snapshot_error option \<times> SnapshotManager)" where
  "CreateSnapshot J now index term sm = (case sn_bloomFilter sm of
      None \<Rightarrow> Inr (Some ErrBloomFilterNotInitialized, sm)
    | Some bf \<Rightarrow>
        let snapshotData = \<lparr>sd_BloomFilter = Serialize bf,
              sd_Metadata = [(''version'', SvString ''1.0''), (''created_by'', SvString ''distributed-bloom-filter''),
                (''bloom_size'', SvInt (Size bf)), (''bloom_k'', SvInt (HashCount bf))],
              sd_Timestamp = now, sd_Index = index, sd_Term = term\<rparr>
        in (case marshal_SnapshotData J snapshotData of
            None \<Rightarrow> Inr (Some SnapMarshal, sm)
          | Some data \<Rightarrow>
              let st = sn_stats sm; n = ss_TotalSnapshots st + 1; size = ss_TotalSnapshotSize st + int (length data)
              in go_bind (go_div size n) (\<lambda>average.
                   Inr (None, sm\<lparr>sn_stats := st\<lparr>ss_TotalSnapshots := n, ss_TotalSnapshotSize := size,
                       ss_LastSnapshotIndex := index, ss_LastSnapshotTerm := term, ss_LastSnapshotTime := now,
                       ss_AverageSnapshotSize := average\<rparr>,
                     sn_lastSnapshotIndex := index, sn_lastSnapshotTerm := term, sn_lastSnapshotTime := now\<rparr>))))"

section \<open>Snapshot files\<close>

definition hex_digit :: "nat \<Rightarrow> char" where
  "hex_digit d = (if d < 10 then char_of (48 + d) else char_of (87 + d))"

definition hex_EncodeToString :: "bytes \<Rightarrow> string" where
  "hex_EncodeToString bs = concat (map (\<lambda>b. [hex_digit (unat b div 16), hex_digit (unat b mod 16)]) bs)"

definition os_WriteFile :: "wal_env \<Rightarrow> string \<Rightarrow> bytes \<Rightarrow> dir \<Rightarrow> snapshot_error option \<times> dir" where
  "os_WriteFile env name data d =
     map_prod (map_option SnapOs) id (WriteFile (fails env) (short_write env) (now_of env) name data d)"

definition snapshot_name :: "u64 \<Rightarrow> int \<Rightarrow> string \<Rightarrow> string" where
  "snapshot_name index now ext = ''snapshot_'' @ dec (unat index) @ ''_'' @ dec_int now @ ext"

definition saveSnapshotUnencrypted :: "wal_env \<Rightarrow> SnapshotManager \<Rightarrow> bytes \<Rightarrow> dir \<Rightarrow> snapshot_error option \<times> dir" where
  "saveSnapshotUnencrypted env sm data d =
     (if sn_snapshotDir sm = '''' then (Some ErrSnapshotDirNotConfigured, d)
      else if fails env OpMkdir then (Some (SnapOs OpMkdir), d)
      else os_WriteFile env (snapshot_name (sn_lastSnapshotIndex sm) (now_of env) ''.json'') data d)"

definition writeSnapshotFile :: "wal_env \<Rightarrow> SnapshotManager \<Rightarrow> bytes \<Rightarrow> dir \<Rightarrow> snapshot_error option \<times> dir" where
  "writeSnapshotFile env sm data d =
     (if sn_snapshotDir sm = '''' then (Some ErrSnapshotDirNotConfigured, d)
      else if fails env OpMkdir then (Some (SnapOs OpMkdir), d)
      else os_WriteFile env (snapshot_name (sn_lastSnapshotIndex sm) (now_of env) ''.enc'') data d)"

definition SaveSnapshot ::
  "(bytes \<Rightarrow> bytes) \<Rightarrow> (bytes \<Rightarrow> bytes \<Rightarrow> bytes \<Rightarrow> bytes) \<Rightarrow> wal_env \<Rightarrow> SnapshotManager \<Rightarrow> bytes \<Rightarrow> dir
    \<Rightarrow> snapshot_error option \<times> dir" where
  "SaveSnapshot sha seal env sm data d = (case sn_encryptor sm of
      None \<Rightarrow> saveSnapshotUnencrypted env sm data d
    | Some enc \<Rightarrow>
        let checksumHex = hex_EncodeToString (sha data) in
        (case Encrypt seal (rand_of env) enc data of
           Inl err \<Rightarrow> (Some (SnapEncrypt err), d)
         | Inr encryptedData \<Rightarrow>
             writeSnapshotFile env sm (bytes_of_string checksumHex @ [10] @ encryptedData) d))"

text \<open>\<open>filepath.Glob\<close> of \<open>snapshot_*\<close> with an extension: the matching names in lexicographic order.\<close>

definition glob_snapshots :: "string \<Rightarrow> dir \<Rightarrow> dir" where
  "glob_snapshots ext d =
     filter (\<lambda>e. HasPrefix (fst e) ''snapshot_'' \<and> HasSuffix (fst e) ext \<and> 9 + length ext \<le> length (fst e)) (ReadDir d)"

text \<open>\<open>Glob\<close> ignores errors of reading the directory; a directory entry cannot be read as a file.\<close>

definition latest_file :: "wal_env \<Rightarrow> string \<Rightarrow> SnapshotManager \<Rightarrow> dir \<Rightarrow> snapshot_error + bytes" where
  "latest_file env ext sm d =
     (if sn_snapshotDir sm = '''' then Inl ErrSnapshotDirNotConfigured
      else let files = (if fails env OpReadDir then [] else glob_snapshots ext d) in
      if files = [] then Inl ErrNoSnapshotFound
      else let (name, f) = last files in
        if fl_isdir f \<or> fails env (OpRead name) then Inl (SnapOs (OpRead name)) else Inr (fl_data f))"

definition loadSnapshotUnencrypted :: "wal_env \<Rightarrow> SnapshotManager \<Rightarrow> dir \<Rightarrow> snapshot_error + bytes" where
  "loadSnapshotUnencrypted env sm d = latest_file env ''.json'' sm d"

definition readLatestSnapshotFile :: "wal_env \<Rightarrow> SnapshotManager \<Rightarrow> dir \<Rightarrow> snapshot_error + bytes" where
  "readLatestSnapshotFile env sm d = latest_file env ''.enc'' sm d"

text \<open>The position of the first newline, 64 in every snapshot file.\<close>

definition newline_index :: "bytes \<Rightarrow> nat" where
  "newline_index data = length (takeWhile (\<lambda>b. b \<noteq> 10) data)"

definition LoadSnapshot ::
  "(bytes \<Rightarrow> bytes) \<Rightarrow> (bytes \<Rightarrow> bytes \<Rightarrow> bytes \<Rightarrow> bytes option) \<Rightarrow> wal_env \<Rightarrow> SnapshotManager \<Rightarrow> dir
    \<Rightarrow> panic + (snapshot_error + bytes)" where
  "LoadSnapshot sha gopen env sm d = (case sn_encryptor sm of
      None \<Rightarrow> Inr (loadSnapshotUnencrypted env sm d)
    | Some enc \<Rightarrow> (case readLatestSnapshotFile env sm d of
        Inl err \<Rightarrow> Inr (Inl err)
      | Inr fileData \<Rightarrow>
          if newline_index fileData \<noteq> 64 \<or> length fileData = 64 then Inr (Inl SnapFormat)
          else let checksumHex = string_of_bytes (take 64 fileData); encryptedData = drop 65 fileData in
            go_bind (Decrypt gopen enc encryptedData) (\<lambda>r. case r of
                Inl err \<Rightarrow> Inr (Inl (SnapDecrypt err))
              | Inr decryptedData \<Rightarrow>
                  if hex_EncodeToString (sha decryptedData) \<noteq> checksumHex then Inr (Inl SnapChecksum)
                  else Inr (Inr decryptedData))))"

section \<open>Raft snapshots\<close>

definition GetSnapshot :: "int \<Rightarrow> SnapshotManager \<Rightarrow> snapshot_error + fsmSnapshot" where
  "GetSnapshot now sm = (case sn_bloomFilter sm of
      None \<Rightarrow> Inl ErrBloomFilterNotInitialized
    | Some bf \<Rightarrow> let bloomData = Serialize bf in
        Inr \<lparr>fs_bloomData = bloomData, fs_metadata = [(''timestamp'', SvInt now), (''size'', SvInt (int (length bloomData)))]\<rparr>)"

definition count_restore :: "SnapshotManager \<Rightarrow> SnapshotManager" where
  "count_restore sm = sm\<lparr>sn_stats := (sn_stats sm)\<lparr>ss_TotalRestores := ss_TotalRestores (sn_stats sm) + 1\<rparr>\<rparr>"

definition RestoreSnapshot :: "json_codec \<Rightarrow> bytes option \<Rightarrow> SnapshotManager \<Rightarrow> snapshot_error option \<times> SnapshotManager" where
  "RestoreSnapshot J rc sm =
     (if sn_bloomFilter sm = None then (Some ErrBloomFilterNotInitialized, sm)
      else (case rc of
          None \<Rightarrow> (Some SnapRead, sm)
        | Some data \<Rightarrow> (case unmarshal_SnapshotData J data of
            Some snapshotData \<Rightarrow> (case Deserialize (sd_BloomFilter snapshotData) of
                Inl err \<Rightarrow> (Some (SnapRestore err), sm)
              | Inr newFilter \<Rightarrow> (None, count_restore (sm\<lparr>sn_bloomFilter := Some newFilter,
                  sn_lastSnapshotIndex := sd_Index snapshotData, sn_lastSnapshotTerm := sd_Term snapshotData,
                  sn_lastSnapshotTime := sd_Timestamp snapshotData\<rparr>)))
          | None \<Rightarrow> (case Deserialize data of
                Inl err \<Rightarrow> (Some (SnapRestore err), sm)
              | Inr newFilter \<Rightarrow> (None, count_restore (sm\<lparr>sn_bloomFilter := Some newFilter\<rparr>))))))"

definition sn_GetLastSnapshotIndex :: "SnapshotManager \<Rightarrow> u64" where
  "sn_GetLastSnapshotIndex sm = sn_lastSnapshotIndex sm"

definition sn_GetLastSnapshotTerm :: "SnapshotManager \<Rightarrow> u64" where
  "sn_GetLastSnapshotTerm sm = sn_lastSnapshotTerm sm"

definition GetLastSnapshotTime :: "SnapshotManager \<Rightarrow> int" where
  "GetLastSnapshotTime sm = sn_lastSnapshotTime sm"

definition RestoreFromFSM :: "int \<Rightarrow> u64 \<Rightarrow> u64 \<Rightarrow> SnapshotManager \<Rightarrow> SnapshotManager" where
  "RestoreFromFSM now index term sm =
     sm\<lparr>sn_lastSnapshotIndex := index, sn_lastSnapshotTerm := term, sn_lastSnapshotTime := now\<rparr>"

definition sn_GetStats :: "SnapshotManager option \<Rightarrow> SnapshotStats" where
  "sn_GetStats sm = (case sm of None \<Rightarrow> zero_snapshot_stats | Some s \<Rightarrow> sn_stats s)"

definition GetSnapshotInfo :: "SnapshotManager \<Rightarrow> snapshot_error + (string \<times> state_val) list list" where
  "GetSnapshotInfo sm = (case sn_snapshotStore sm of
      None \<Rightarrow> Inl ErrSnapshotStoreNotInitialized
    | Some OtherSnapshotStore \<Rightarrow> Inr []
    | Some (FileSnapshotStore (Inl err)) \<Rightarrow> Inl (SnapList err)
    | Some (FileSnapshotStore (Inr snapshots)) \<Rightarrow>
        Inr (map (\<lambda>s. [(''id'', SvString (me_ID s)), (''index'', SvUint (me_Index s)), (''term'', SvUint (me_Term s)),
          (''size'', SvInt (me_Size s))]) snapshots))"

definition DeleteOldSnapshots :: "int \<Rightarrow> SnapshotManager \<Rightarrow> snapshot_error option" where
  "DeleteOldSnapshots retainCount sm = (case sn_snapshotStore sm of
      None \<Rightarrow> Some ErrSnapshotStoreNotInitialized
    | Some OtherSnapshotStore \<Rightarrow> None
    | Some (FileSnapshotStore (Inl err)) \<Rightarrow> Some (SnapList err)
    | Some (FileSnapshotStore (Inr snapshots)) \<Rightarrow> None)"

definition sn_GetStatus :: "SnapshotManager \<Rightarrow> (string \<times> state_val) list" where
  "sn_GetStatus sm =
     [(''last_snapshot_index'', SvUint (sn_lastSnapshotIndex sm)), (''last_snapshot_term'', SvUint (sn_lastSnapshotTerm sm)),
      (''last_snapshot_time'', SvTime (sn_lastSnapshotTime sm)), (''total_snapshots'', SvInt (ss_TotalSnapshots (sn_stats sm))),
      (''total_restores'', SvInt (ss_TotalRestores (sn_stats sm))), (''total_snapshot_size'', SvInt (ss_TotalSnapshotSize (sn_stats sm))),
      (''average_snapshot_size'', SvInt (ss_AverageSnapshotSize (sn_stats sm)))]"

section \<open>Backup files\<close>

text \<open>The file path names an entry of the directory passed along.\<close>

definition SaveSnapshotToFile ::
  "(SnapshotData \<Rightarrow> bytes option) \<Rightarrow> wal_env \<Rightarrow> string \<Rightarrow> SnapshotManager \<Rightarrow> dir \<Rightarrow> snapshot_error option \<times> dir" where
  "SaveSnapshotToFile marshal_indent env filePath sm d = (case sn_bloomFilter sm of
      None \<Rightarrow> (Some ErrBloomFilterNotInitialized, d)
    | Some bf \<Rightarrow>
        let snapshotData = \<lparr>sd_BloomFilter = Serialize bf,
              sd_Metadata = [(''version'', SvString ''1.0''), (''created_by'', SvString ''distributed-bloom-filter'')],
              sd_Timestamp = now_of env, sd_Index = sn_lastSnapshotIndex sm, sd_Term = sn_lastSnapshotTerm sm\<rparr>
        in (case marshal_indent snapshotData of
            None \<Rightarrow> (Some SnapMarshal, d)
          | Some data \<Rightarrow> if fails env OpMkdir then (Some (SnapOs OpMkdir), d) else os_WriteFile env filePath data d))"

definition LoadSnapshotFromFile ::
  "json_codec \<Rightarrow> wal_env \<Rightarrow> string \<Rightarrow> SnapshotManager \<Rightarrow> dir \<Rightarrow> snapshot_error option \<times> SnapshotManager" where
  "LoadSnapshotFromFile J env filePath sm d =
     (if sn_bloomFilter sm = None then (Some ErrBloomFilterNotInitialized, sm)
      else (case map_of d filePath of
          None \<Rightarrow> (Some (SnapOs (OpRead filePath)), sm)
        | Some f \<Rightarrow>
            if fl_isdir f \<or> fails env (OpRead filePath) then (Some (SnapOs (OpRead filePath)), sm)
            else (case unmarshal_SnapshotData J (fl_data f) of
                None \<Rightarrow> (Some SnapUnmarshal, sm)
              | Some snapshotData \<Rightarrow> (case Deserialize (sd_BloomFilter snapshotData) of
                  Inl err \<Rightarrow> (Some (SnapRestore err), sm)
                | Inr newFilter \<Rightarrow> (None, sm\<lparr>sn_bloomFilter := Some newFilter,
                    sn_lastSnapshotIndex := sd_Index snapshotData, sn_lastSnapshotTerm := sd_Term snapshotData,
                    sn_lastSnapshotTime := sd_Timestamp snapshotData\<rparr>)))))"

section \<open>Lemmas\<close>

lemma length_hex [simp]: "length (hex_EncodeToString bs) = 2 * length bs"
  by (induction bs) (simp_all add: hex_EncodeToString_def)

lemma hex_digit_byte: "d < 16 \<Longrightarrow> (of_char (hex_digit d) :: nat) < 128 \<and> (of_char (hex_digit d) :: nat) \<noteq> 10"
  by (simp add: hex_digit_def)

lemma hex_no_newline: "c \<in> set (hex_EncodeToString bs) \<Longrightarrow> (of_char c :: nat) < 128 \<and> (of_char c :: nat) \<noteq> 10"
proof (induction bs)
  case (Cons b bs)
  have "unat b < 2 ^ LENGTH(8)" by (rule unsigned_less)
  then have "unat b < 256" by simp
  then have "unat b div 16 < 16" "unat b mod 16 < 16" using less_mult_imp_div_less [of "unat b" 16 16] by auto
  with Cons hex_digit_byte show ?case by (auto simp: hex_EncodeToString_def)
qed (simp add: hex_EncodeToString_def)

lemma hex_bytes_no_newline: "b \<in> set (bytes_of_string (hex_EncodeToString bs)) \<Longrightarrow> b \<noteq> 10"
proof
  assume "b \<in> set (bytes_of_string (hex_EncodeToString bs))" and b: "b = 10"
  then obtain c where c: "c \<in> set (hex_EncodeToString bs)" "of_char c = (10 :: u8)" by (auto simp: bytes_of_string_def)
  then have "unat (of_char c :: u8) = 10" by simp
  then have "(of_char c :: nat) = 10" by (simp only: unat_of_char_byte)
  with hex_no_newline [OF c(1)] show False by simp
qed

text \<open>The last of the matching names in the order of the directory listing is the greatest.\<close>

definition is_snapshot :: "string \<Rightarrow> string \<Rightarrow> bool" where
  "is_snapshot ext name \<longleftrightarrow> HasPrefix name ''snapshot_'' \<and> HasSuffix name ext \<and> 9 + length ext \<le> length name"

lemma last_glob:
  assumes "(name, f) \<in> set d" and "distinct (map fst d)" and "is_snapshot ext name"
    and "\<forall>e \<in> set d. is_snapshot ext (fst e) \<longrightarrow> fst e \<le> name"
  shows "glob_snapshots ext d \<noteq> [] \<and> last (glob_snapshots ext d) = (name, f)"
proof -
  let ?g = "glob_snapshots ext d"
  have g: "set ?g = {e \<in> set d. is_snapshot ext (fst e)}"
    by (auto simp: glob_snapshots_def is_snapshot_def ReadDir_def)
  then have i: "(name, f) \<in> set ?g" using assms(1,3) by simp
  then have n: "?g \<noteq> []" by auto
  have "sorted (map fst ?g)" by (simp add: glob_snapshots_def ReadDir_def sorted_filter)
  then have "fst e \<le> fst (last ?g)" if "e \<in> set ?g" for e
  proof -
    from that obtain j where j: "j < length ?g" "?g ! j = e" by (auto simp: in_set_conv_nth)
    then have "j \<le> length ?g - 1" "length ?g - 1 < length ?g" by auto
    with \<open>sorted (map fst ?g)\<close> j show ?thesis
      by (metis last_conv_nth length_map n nth_map sorted_nth_mono)
  qed
  with i have "name \<le> fst (last ?g)" by fastforce
  moreover have l: "last ?g \<in> set d" "is_snapshot ext (fst (last ?g))" using last_in_set [OF n] g by auto
  ultimately have "fst (last ?g) = name" using assms(4) by force
  with l(1) assms(1,2) n show ?thesis by (metis eq_key_imp_eq_value prod.collapse)
qed

lemma is_snapshot_name: "is_snapshot ext (snapshot_name i t ext)"
  by (simp add: is_snapshot_def snapshot_name_def) (metis HasPrefix_append HasSuffix_append append.assoc append_Cons append_Nil)

text \<open>The content of a snapshot file and what loading makes of it.\<close>

definition snapshot_content :: "(bytes \<Rightarrow> bytes) \<Rightarrow> bytes \<Rightarrow> bytes \<Rightarrow> bytes" where
  "snapshot_content sha data ct = bytes_of_string (hex_EncodeToString (sha data)) @ [10] @ ct"

lemma SaveSnapshot_file:
  assumes "SaveSnapshot sha seal env sm data d = (None, d')" and "sn_encryptor sm = Some enc"
  obtains ct where "Encrypt seal (rand_of env) enc data = Inr ct"
    "d' = dir_put (snapshot_name (sn_lastSnapshotIndex sm) (now_of env) ''.enc'')
       (plain_file (snapshot_content sha data ct) (now_of env)) d"
  using assms by (auto simp: SaveSnapshot_def writeSnapshotFile_def os_WriteFile_def WriteFile_def snapshot_content_def Let_def
      split: sum.splits if_splits)

lemma LoadSnapshot_content:
  assumes "length (sha data) = 32" and "Decrypt gopen enc ct = Inr (Inr data)"
    and "sn_encryptor sm = Some enc" and "sn_snapshotDir sm \<noteq> ''''" and "\<forall>op. \<not> fails env op"
    and "glob_snapshots ''.enc'' d \<noteq> []" and "last (glob_snapshots ''.enc'' d) = (name, plain_file (snapshot_content sha data ct) t)"
  shows "LoadSnapshot sha gopen env sm d = Inr (Inr data)"
proof -
  let ?h = "bytes_of_string (hex_EncodeToString (sha data))"
  have r: "readLatestSnapshotFile env sm d = Inr (?h @ [10] @ ct)"
    using assms(4-7) by (simp add: readLatestSnapshotFile_def latest_file_def snapshot_content_def plain_file_def Let_def)
  have "takeWhile (\<lambda>b. b \<noteq> 10) (?h @ [10] @ ct) = ?h"
    using hex_bytes_no_newline [of _ "sha data"] by (subst takeWhile_append2) auto
  then have "newline_index (?h @ [10] @ ct) = 64" using assms(1) by (simp add: newline_index_def)
  with r assms(1-3) show ?thesis by (simp add: LoadSnapshot_def go_bind_def)
qed

text \<open>C36: the latest snapshot file can be loaded. A snapshot saved with encryption into a directory is
  returned unchanged by \<open>LoadSnapshot\<close>, decrypted and verified, provided that no snapshot file of the
  directory has a greater name.\<close>

theorem snapshot_file_roundtrip:
  assumes "gcm_ok seal gopen" and "rand_ok (rand_of env)" and "enc_inv enc"
    and "fits seal (currentKey enc) (the (rand_of env NonceSize)) data" and "length (sha data) = 32"
    and "sn_encryptor sm = Some enc" and "distinct (map fst d)"
    and "\<forall>e \<in> set d. is_snapshot ''.enc'' (fst e) \<longrightarrow> fst e \<le> snapshot_name (sn_lastSnapshotIndex sm) (now_of env) ''.enc''"
    and "SaveSnapshot sha seal env sm data d = (None, d')" and "\<forall>op. \<not> fails env' op"
  shows "LoadSnapshot sha gopen env' sm d' = Inr (Inr data)"
proof -
  let ?n = "snapshot_name (sn_lastSnapshotIndex sm) (now_of env) ''.enc''"
  from SaveSnapshot_file [OF assms(9,6)] obtain ct where c: "Encrypt seal (rand_of env) enc data = Inr ct"
    "d' = dir_put ?n (plain_file (snapshot_content sha data ct) (now_of env)) d" .
  have "sn_snapshotDir sm \<noteq> ''''"
    using assms(6,9) c(1) by (auto simp: SaveSnapshot_def writeSnapshotFile_def)
  moreover have "Decrypt gopen enc ct = Inr (Inr data)"
    using Encrypt_frame [OF assms(1-3) c(1) assms(4)] by (simp add: frame_def)
  moreover have "glob_snapshots ''.enc'' d' \<noteq> [] \<and> last (glob_snapshots ''.enc'' d') = (?n, plain_file (snapshot_content sha data ct) (now_of env))"
    using assms(7,8) by (intro last_glob) (auto simp: c(2) is_snapshot_name distinct_dir_put, auto simp: dir_put_def)
  ultimately show ?thesis
    using LoadSnapshot_content [where sha = sha and data = data, OF assms(5) _ assms(6) _ assms(10)] by blast
qed

text \<open>With several snapshot files an old one may be loaded. The files are told apart by name, and the
  index in the name is not padded: after a snapshot at index 9 and a later one at index 10,
  \<open>LoadSnapshot\<close> returns the older data.\<close>

theorem stale_snapshot_loaded:
  assumes "gcm_ok seal gopen" and "rand_ok (rand_of env1)" and "enc_inv enc"
    and "fits seal (currentKey enc) (the (rand_of env1 NonceSize)) old" and "length (sha old) = 32"
    and "sn_encryptor sm = Some enc"
    and "SaveSnapshot sha seal env1 (sm\<lparr>sn_lastSnapshotIndex := 9\<rparr>) old [] = (None, d1)"
    and "SaveSnapshot sha seal env2 (sm\<lparr>sn_lastSnapshotIndex := 10\<rparr>) new d1 = (None, d2)"
    and "\<forall>op. \<not> fails env' op"
  shows "LoadSnapshot sha gopen env' (sm\<lparr>sn_lastSnapshotIndex := 10\<rparr>) d2 = Inr (Inr old)"
proof -
  let ?a = "snapshot_name 9 (now_of env1) ''.enc''" and ?b = "snapshot_name 10 (now_of env2) ''.enc''"
  obtain ct where c: "Encrypt seal (rand_of env1) enc old = Inr ct"
    "d1 = dir_put ?a (plain_file (snapshot_content sha old ct) (now_of env1)) []"
    by (rule SaveSnapshot_file [OF assms(7)]) (use assms(6) in auto)
  obtain ct' where e: "d2 = dir_put ?b (plain_file (snapshot_content sha new ct') (now_of env2)) d1"
    by (rule SaveSnapshot_file [OF assms(8)]) (use assms(6) in auto)
  have lt: "?b < ?a" by (simp add: snapshot_name_def dec.simps digit_char)
  have "sn_snapshotDir (sm\<lparr>sn_lastSnapshotIndex := 10\<rparr>) \<noteq> ''''"
    using assms(6,7) c(1) by (auto simp: SaveSnapshot_def writeSnapshotFile_def)
  moreover have "Decrypt gopen enc ct = Inr (Inr old)"
    using Encrypt_frame [OF assms(1-3) c(1) assms(4)] by (simp add: frame_def)
  moreover have "glob_snapshots ''.enc'' d2 \<noteq> [] \<and> last (glob_snapshots ''.enc'' d2) = (?a, plain_file (snapshot_content sha old ct) (now_of env1))"
    using lt by (intro last_glob) (auto simp: c(2) e is_snapshot_name dir_put_def)
  moreover have "sn_encryptor (sm\<lparr>sn_lastSnapshotIndex := 10\<rparr>) = Some enc" using assms(6) by simp
  ultimately show ?thesis
    using LoadSnapshot_content [where sha = sha and data = old, OF assms(5) _ _ _ assms(9)] by blast
qed

text \<open>A manager with one key whose snapshots go to a directory, for concrete runs.\<close>

definition demo_manager :: SnapshotManager where
  "demo_manager = NewSnapshotManagerWithEncryption (Some demo_filter) (Some demo_encryptor) ''snapshots''"

definition demo_sha :: "bytes \<Rightarrow> bytes" where
  "demo_sha data = replicate 32 (of_nat (length data))"

lemma demo_save:
  "length data < 1000 \<Longrightarrow> \<exists>d'. SaveSnapshot demo_sha (\<lambda>k n p. p) demo_env (demo_manager\<lparr>sn_lastSnapshotIndex := i\<rparr>) data d = (None, d')"
  by (simp add: SaveSnapshot_def writeSnapshotFile_def os_WriteFile_def WriteFile_def Encrypt_def demo_manager_def
      NewSnapshotManagerWithEncryption_def demo_env_def demo_encryptor_def aes_key_ok_def NonceSize_def Let_def)

lemma demo_crypto:
  "gcm_ok (\<lambda>k n p. p) (\<lambda>k n ct. Some ct)" "rand_ok (rand_of demo_env)" "enc_inv demo_encryptor"
  "length data < 1000 \<Longrightarrow> fits (\<lambda>k n p. p) (currentKey demo_encryptor) (the (rand_of demo_env NonceSize)) data"
  "length (demo_sha data) = 32" "\<forall>op. \<not> fails demo_env op" "sn_encryptor (demo_manager\<lparr>sn_lastSnapshotIndex := i\<rparr>) = Some demo_encryptor"
  by (simp_all add: gcm_ok_def rand_ok_def enc_inv_def fits_def demo_env_def demo_encryptor_def demo_sha_def demo_manager_def
      NewSnapshotManagerWithEncryption_def NonceSize_def)

theorem snapshot_file_roundtrip_witness:
  "\<exists>d'. SaveSnapshot demo_sha (\<lambda>k n p. p) demo_env (demo_manager\<lparr>sn_lastSnapshotIndex := 7\<rparr>) [1, 2, 3] [] = (None, d')
    \<and> LoadSnapshot demo_sha (\<lambda>k n ct. Some ct) demo_env (demo_manager\<lparr>sn_lastSnapshotIndex := 7\<rparr>) d' = Inr (Inr [1, 2, 3])"
proof -
  obtain d' where s: "SaveSnapshot demo_sha (\<lambda>k n p. p) demo_env (demo_manager\<lparr>sn_lastSnapshotIndex := 7\<rparr>) [1, 2, 3] [] = (None, d')"
    using demo_save [of "[1, 2, 3]"] by auto
  have "fits (\<lambda>k n p. p) (currentKey demo_encryptor) (the (rand_of demo_env NonceSize)) [1, 2, 3]"
    by (rule demo_crypto(4)) simp
  from snapshot_file_roundtrip [OF demo_crypto(1-3) this demo_crypto(5) demo_crypto(7) _ _ s demo_crypto(6)] s
  show ?thesis by simp
qed

theorem stale_snapshot_loaded_witness:
  "\<exists>d1 d2. SaveSnapshot demo_sha (\<lambda>k n p. p) demo_env (demo_manager\<lparr>sn_lastSnapshotIndex := 9\<rparr>) [1] [] = (None, d1)
    \<and> SaveSnapshot demo_sha (\<lambda>k n p. p) (demo_env\<lparr>now_of := 60\<rparr>) (demo_manager\<lparr>sn_lastSnapshotIndex := 10\<rparr>) [2] d1 = (None, d2)
    \<and> LoadSnapshot demo_sha (\<lambda>k n ct. Some ct) demo_env (demo_manager\<lparr>sn_lastSnapshotIndex := 10\<rparr>) d2 = Inr (Inr [1])"
proof -
  obtain d1 where s1: "SaveSnapshot demo_sha (\<lambda>k n p. p) demo_env (demo_manager\<lparr>sn_lastSnapshotIndex := 9\<rparr>) [1] [] = (None, d1)"
    using demo_save [of "[1]"] by auto
  obtain d2 where s2: "SaveSnapshot demo_sha (\<lambda>k n p. p) (demo_env\<lparr>now_of := 60\<rparr>) (demo_manager\<lparr>sn_lastSnapshotIndex := 10\<rparr>) [2] d1 = (None, d2)"
    by (simp add: SaveSnapshot_def writeSnapshotFile_def os_WriteFile_def WriteFile_def Encrypt_def demo_manager_def
      NewSnapshotManagerWithEncryption_def demo_env_def demo_encryptor_def aes_key_ok_def NonceSize_def Let_def)
  have "sn_encryptor demo_manager = Some demo_encryptor" by (simp add: demo_manager_def NewSnapshotManagerWithEncryption_def)
  moreover have "fits (\<lambda>k n p. p) (currentKey demo_encryptor) (the (rand_of demo_env NonceSize)) [1]"
    by (rule demo_crypto(4)) simp
  ultimately show ?thesis
    using stale_snapshot_loaded [OF demo_crypto(1-3) _ demo_crypto(5) _ s1 s2 demo_crypto(6)] s1 s2 by blast
qed

section \<open>Backups and statistics\<close>

text \<open>\<open>MarshalIndent\<close> of a snapshot decodes to the same snapshot.\<close>

definition indent_ok :: "json_codec \<Rightarrow> (SnapshotData \<Rightarrow> bytes option) \<Rightarrow> bool" where
  "indent_ok J marshal_indent \<longleftrightarrow> (\<forall>s. time_ok (sd_Timestamp s) \<longrightarrow>
     (\<exists>d s'. marshal_indent s = Some d \<and> unmarshal_SnapshotData J d = Some s' \<and> sd_BloomFilter s' = sd_BloomFilter s
       \<and> sd_Timestamp s' = sd_Timestamp s \<and> sd_Index s' = sd_Index s \<and> sd_Term s' = sd_Term s))"

text \<open>A backup restores the manager. Saving to a file and loading it with any initialised manager
  succeeds if the disk does, and gives back the filter, the index and the term of the saved one.\<close>

theorem backup_roundtrip:
  assumes "indent_ok J marshal_indent" and "time_ok (now_of env)" and "sn_bloomFilter sm = Some bf" and "serializable bf"
    and "\<forall>op. \<not> fails env op" and "\<forall>op. \<not> fails env' op" and "sn_bloomFilter sm' \<noteq> None"
  shows "\<exists>d' sm''. SaveSnapshotToFile marshal_indent env path sm d = (None, d')
    \<and> LoadSnapshotFromFile J env' path sm' d' = (None, sm'') \<and> sn_bloomFilter sm'' = Some bf
    \<and> sn_lastSnapshotIndex sm'' = sn_lastSnapshotIndex sm \<and> sn_lastSnapshotTerm sm'' = sn_lastSnapshotTerm sm
    \<and> sn_stats sm'' = sn_stats sm'"
proof -
  let ?s = "\<lparr>sd_BloomFilter = Serialize bf,
              sd_Metadata = [(''version'', SvString ''1.0''), (''created_by'', SvString ''distributed-bloom-filter'')],
              sd_Timestamp = now_of env, sd_Index = sn_lastSnapshotIndex sm, sd_Term = sn_lastSnapshotTerm sm\<rparr>"
  have "time_ok (sd_Timestamp ?s)" using assms(2) by simp
  then obtain x s' where x: "marshal_indent ?s = Some x" "unmarshal_SnapshotData J x = Some s'" "sd_BloomFilter s' = sd_BloomFilter ?s"
    "sd_Index s' = sd_Index ?s" "sd_Term s' = sd_Term ?s"
    using assms(1) unfolding indent_ok_def by blast
  have "SaveSnapshotToFile marshal_indent env path sm d = (None, dir_put path (plain_file x (now_of env)) d)"
    using x(1) assms(3,5) by (simp add: SaveSnapshotToFile_def os_WriteFile_def WriteFile_def Let_def)
  moreover have "map_of (dir_put path (plain_file x (now_of env)) d) path = Some (plain_file x (now_of env))"
    by (simp add: dir_put_def)
  ultimately show ?thesis using x assms(6,7) Deserialize_Serialize [OF assms(4)]
    by (simp add: LoadSnapshotFromFile_def plain_file_def)
qed

theorem backup_roundtrip_witness:
  "\<exists>d' sm''. SaveSnapshotToFile (marshal_SnapshotData demo_json) demo_env ''backup'' (demo_manager\<lparr>sn_lastSnapshotIndex := 7\<rparr>) [] = (None, d')
    \<and> LoadSnapshotFromFile demo_json demo_env ''backup'' (NewSnapshotManager (Some demo_filter)) d' = (None, sm'')
    \<and> sn_lastSnapshotIndex sm'' = 7"
proof -
  have i: "indent_ok demo_json (marshal_SnapshotData demo_json)" using demo_json_ok unfolding json_ok_def indent_ok_def by blast
  have t: "time_ok (now_of demo_env)" by (simp add: time_ok_def demo_env_def)
  have b: "sn_bloomFilter (demo_manager\<lparr>sn_lastSnapshotIndex := 7\<rparr>) = Some demo_filter"
    by (simp add: demo_manager_def NewSnapshotManagerWithEncryption_def)
  have s: "serializable demo_filter" using demo_fsm_ok by (simp add: fsm_ok_def demo_fsm_def)
  show ?thesis
    using backup_roundtrip [OF i t b s demo_crypto(6) demo_crypto(6), of "NewSnapshotManager (Some demo_filter)" "''backup''" "[]"]
    by (auto simp: NewSnapshotManager_def)
qed

text \<open>A sequence of \<open>CreateSnapshot\<close> calls at the given times, indices and terms.\<close>

fun create_run :: "json_codec \<Rightarrow> SnapshotManager \<Rightarrow> (int \<times> u64 \<times> u64) list \<Rightarrow> panic + SnapshotManager" where
  "create_run J sm [] = Inr sm"
| "create_run J sm ((now, index, term) # cs) = go_bind (CreateSnapshot J now index term sm) (\<lambda>(err, sm'). create_run J sm' cs)"

definition stats_inv :: "SnapshotStats \<Rightarrow> bool" where
  "stats_inv st \<longleftrightarrow> 0 \<le> ss_TotalSnapshots st \<and> 0 \<le> ss_TotalSnapshotSize st
     \<and> ss_AverageSnapshotSize st * ss_TotalSnapshots st \<le> ss_TotalSnapshotSize st
     \<and> (0 < ss_TotalSnapshots st \<longrightarrow> ss_TotalSnapshotSize st < (ss_AverageSnapshotSize st + 1) * ss_TotalSnapshots st)"

lemma go_div_pos: "0 \<le> a \<Longrightarrow> 0 < b \<Longrightarrow> go_div a b = Inr (a div b)"
  by (cases "a = 0") (simp_all add: go_div_def)

lemma CreateSnapshot_inv:
  assumes "stats_inv (sn_stats sm)"
  shows "\<exists>err sm'. CreateSnapshot J now index term sm = Inr (err, sm') \<and> stats_inv (sn_stats sm')"
proof -
  have d: "a div n * n \<le> a \<and> a < (a div n + 1) * n" if "0 < n" for a n :: int
  proof -
    have "a = a div n * n + a mod n" "(a div n + 1) * n = a div n * n + n" by (simp_all add: distrib_right)
    with pos_mod_bound [OF that, of a] pos_mod_sign [OF that, of a] show ?thesis by linarith
  qed
  show ?thesis using assms d [of "ss_TotalSnapshots (sn_stats sm) + 1"]
    by (auto simp: CreateSnapshot_def stats_inv_def go_div_pos go_bind_def Let_def split: option.splits)
qed

text \<open>Creating snapshots never panics and keeps its statistics right: after any sequence of calls the
  average size is the total size divided by the number of snapshots, rounded down.\<close>

theorem snapshot_statistics:
  "\<exists>sm. create_run J (NewSnapshotManager bf) cs = Inr sm \<and> stats_inv (sn_stats sm)"
proof -
  have "stats_inv (sn_stats sm) \<Longrightarrow> \<exists>sm'. create_run J sm cs = Inr sm' \<and> stats_inv (sn_stats sm')" for sm
  proof (induction cs arbitrary: sm)
    case (Cons c cs)
    obtain now i t where c: "c = (now, i, t)" by (cases c) auto
    from CreateSnapshot_inv [OF Cons.prems, of J now i t] obtain err sm1 where
      "CreateSnapshot J now i t sm = Inr (err, sm1)" "stats_inv (sn_stats sm1)" by blast
    with Cons.IH [of sm1] c show ?case by (simp add: go_bind_def)
  qed simp
  then show ?thesis by (simp add: NewSnapshotManager_def zero_snapshot_stats_def stats_inv_def)
qed

end
