(* ===== verification/Metadata_Service.thy ===== *)
theory Metadata_Service
  imports Raft_Log Go_Files "HOL-Library.AList"
begin

text \<open>
  \<open>src/internal/metadata/service.go\<close>: the metadata of a node, kept in memory and saved to a file by
  writing a temporary file and renaming it. The JSON codec of the metadata is a pair of parameters; a
  disk environment says which system calls fail. A missing map or struct pointer is \<open>None\<close>.
\<close>

section \<open>State\<close>

record Stats =
  st_TotalAdds :: int
  st_TotalRemoves :: int
  st_TotalQueries :: int
  st_LastBackup :: int
  st_LastCompaction :: int

record Metadata =
  md_NodeID :: string
  md_CreatedAt :: int
  md_UpdatedAt :: int
  md_Version :: string
  md_ClusterNodes :: "string list"
  md_Config :: "(string \<times> state_val) list option"
  md_Stats :: "Stats option"

datatype metadata_error = MetaNotExist | MetaRead | MetaUnmarshal | MetaMarshal | MetaMkdir | MetaWrite os_op | MetaRename

definition zero_metadata_stats :: Stats where
  "zero_metadata_stats = \<lparr>st_TotalAdds = 0, st_TotalRemoves = 0, st_TotalQueries = 0, st_LastBackup = zero_time, st_LastCompaction = zero_time\<rparr>"

definition metadata_file :: string where "metadata_file = ''metadata.json''"
definition metadata_tmp :: string where "metadata_tmp = ''metadata.json.tmp''"

section \<open>Files\<close>

definition meta_Load ::
  "(bytes \<Rightarrow> Metadata option) \<Rightarrow> disk_env \<Rightarrow> dir \<Rightarrow> Metadata \<Rightarrow> metadata_error option \<times> Metadata" where
  "meta_Load unmarshal env d s = (case map_of d metadata_file of
      None \<Rightarrow> (Some MetaNotExist, s)
    | Some f \<Rightarrow>
        if fl_isdir f \<or> de_fails env (OpRead metadata_file) then (Some MetaRead, s)
        else (case unmarshal (fl_data f) of
            None \<Rightarrow> (Some MetaUnmarshal, s)
          | Some metadata \<Rightarrow> (None, metadata)))"

definition NewService :: "(bytes \<Rightarrow> Metadata option) \<Rightarrow> disk_env \<Rightarrow> dir \<Rightarrow> Metadata" where
  "NewService unmarshal env d =
     snd (meta_Load unmarshal env d \<lparr>md_NodeID = '''', md_CreatedAt = de_now env, md_UpdatedAt = de_now env,
       md_Version = ''1.0.0'', md_ClusterNodes = [], md_Config = Some [], md_Stats = Some zero_metadata_stats\<rparr>)"

text \<open>
  \<open>Save\<close> in the two parts its two locks make: taking the bytes under the lock of the metadata, and
  writing them under the lock for writing. The second part also yields the directories it passes
  through, one after each system call, which are what a crash leaves behind: the temporary file
  created empty, written in part, written in full, and renamed.
\<close>

definition save_marshal ::
  "(Metadata \<Rightarrow> bytes option) \<Rightarrow> int \<Rightarrow> Metadata \<Rightarrow> (metadata_error + bytes) \<times> Metadata" where
  "save_marshal marshal now s =
     (let s1 = s\<lparr>md_UpdatedAt := now\<rparr> in
      (case marshal s1 of None \<Rightarrow> (Inl MetaMarshal, s1) | Some data \<Rightarrow> (Inr data, s1)))"

definition save_write :: "disk_env \<Rightarrow> bytes \<Rightarrow> dir \<Rightarrow> metadata_error option \<times> dir \<times> dir list" where
  "save_write env data d =
     (if de_fails env OpMkdir then (Some MetaMkdir, d, [])
      else let (err, d1) = WriteFile (de_fails env) (de_short env) (de_now env) metadata_tmp data d;
               passed = (if err = Some (OpCreate metadata_tmp) then []
                         else map (\<lambda>n. dir_put metadata_tmp (plain_file (take n data) (de_now env)) d) [0 ..< Suc (length data)])
      in (case err of
          Some op \<Rightarrow> (Some (MetaWrite op), d1, passed @ [d1])
        | None \<Rightarrow>
            if de_fails env (OpRename metadata_tmp metadata_file) then
              let d2 = (if de_fails env (OpRemove metadata_tmp) then d1 else dir_remove metadata_tmp d1)
              in (Some MetaRename, d2, passed @ [d1, d2])
            else let d2 = os_Rename metadata_tmp metadata_file d1 in (None, d2, passed @ [d1, d2])))"

definition meta_Save ::
  "(Metadata \<Rightarrow> bytes option) \<Rightarrow> disk_env \<Rightarrow> Metadata \<Rightarrow> dir \<Rightarrow> metadata_error option \<times> Metadata \<times> dir \<times> dir list" where
  "meta_Save marshal env s d = (case save_marshal marshal (de_now env) s of
      (Inl err, s1) \<Rightarrow> (Some err, s1, d, [])
    | (Inr data, s1) \<Rightarrow> (case save_write env data d of (err, d', passed) \<Rightarrow> (err, s1, d', passed)))"

section \<open>Operations in memory\<close>

definition SetNodeID :: "int \<Rightarrow> string \<Rightarrow> Metadata \<Rightarrow> Metadata" where
  "SetNodeID now nodeID s = s\<lparr>md_NodeID := nodeID, md_UpdatedAt := now\<rparr>"

definition GetNodeID :: "Metadata \<Rightarrow> string" where
  "GetNodeID s = md_NodeID s"

definition AddClusterNode :: "int \<Rightarrow> string \<Rightarrow> Metadata \<Rightarrow> Metadata" where
  "AddClusterNode now nodeID s =
     (if list_ex (\<lambda>n. n = nodeID) (md_ClusterNodes s) then s
      else s\<lparr>md_ClusterNodes := md_ClusterNodes s @ [nodeID], md_UpdatedAt := now\<rparr>)"

definition RemoveClusterNode :: "int \<Rightarrow> string \<Rightarrow> Metadata \<Rightarrow> Metadata" where
  "RemoveClusterNode now nodeID s =
     s\<lparr>md_ClusterNodes := filter (\<lambda>n. n \<noteq> nodeID) (md_ClusterNodes s), md_UpdatedAt := now\<rparr>"

definition GetClusterNodes :: "Metadata \<Rightarrow> string list" where
  "GetClusterNodes s = md_ClusterNodes s"

definition SetConfig :: "int \<Rightarrow> string \<Rightarrow> state_val \<Rightarrow> Metadata \<Rightarrow> panic + Metadata" where
  "SetConfig now key val s = (case md_Config s of
      None \<Rightarrow> Inl NilMapWrite
    | Some c \<Rightarrow> Inr (s\<lparr>md_Config := Some (AList.update key val c), md_UpdatedAt := now\<rparr>))"

definition GetConfig :: "string \<Rightarrow> Metadata \<Rightarrow> state_val option" where
  "GetConfig key s = (case md_Config s of None \<Rightarrow> None | Some c \<Rightarrow> map_of c key)"

definition with_stats :: "(Stats \<Rightarrow> Stats) \<Rightarrow> Metadata \<Rightarrow> panic + Metadata" where
  "with_stats f s = (case md_Stats s of None \<Rightarrow> Inl NilDereference | Some st \<Rightarrow> Inr (s\<lparr>md_Stats := Some (f st)\<rparr>))"

definition RecordAdd :: "Metadata \<Rightarrow> panic + Metadata" where
  "RecordAdd = with_stats (\<lambda>st. st\<lparr>st_TotalAdds := st_TotalAdds st + 1\<rparr>)"

definition RecordRemove :: "Metadata \<Rightarrow> panic + Metadata" where
  "RecordRemove = with_stats (\<lambda>st. st\<lparr>st_TotalRemoves := st_TotalRemoves st + 1\<rparr>)"

definition RecordQuery :: "Metadata \<Rightarrow> panic + Metadata" where
  "RecordQuery = with_stats (\<lambda>st. st\<lparr>st_TotalQueries := st_TotalQueries st + 1\<rparr>)"

definition meta_GetStats :: "Metadata \<Rightarrow> panic + Stats" where
  "meta_GetStats s = (case md_Stats s of None \<Rightarrow> Inl NilDereference | Some st \<Rightarrow> Inr st)"

definition SetLastBackup :: "int \<Rightarrow> Metadata \<Rightarrow> panic + Metadata" where
  "SetLastBackup t = with_stats (\<lambda>st. st\<lparr>st_LastBackup := t\<rparr>)"

definition SetLastCompaction :: "int \<Rightarrow> Metadata \<Rightarrow> panic + Metadata" where
  "SetLastCompaction t = with_stats (\<lambda>st. st\<lparr>st_LastCompaction := t\<rparr>)"

definition GetMetadata :: "Metadata \<Rightarrow> Metadata" where
  "GetMetadata s = s\<lparr>md_Config := Some (case md_Config s of None \<Rightarrow> [] | Some c \<Rightarrow> c)\<rparr>"

section \<open>Properties\<close>

text \<open>
  What the code relies on of the codec: metadata with printable times and ASCII strings are encoded, and decode to
  metadata that agree up to the types of the configuration values; absent pointers stay absent.
\<close>

definition same_metadata :: "Metadata \<Rightarrow> Metadata \<Rightarrow> bool" where
  "same_metadata a b \<longleftrightarrow> md_NodeID a = md_NodeID b \<and> md_CreatedAt a = md_CreatedAt b \<and> md_UpdatedAt a = md_UpdatedAt b
     \<and> md_Version a = md_Version b \<and> md_ClusterNodes a = md_ClusterNodes b \<and> md_Stats a = md_Stats b
     \<and> map_option (set \<circ> map fst) (md_Config a) = map_option (set \<circ> map fst) (md_Config b)"

definition meta_ok :: "Metadata \<Rightarrow> bool" where
  "meta_ok m \<longleftrightarrow> time_ok (md_CreatedAt m) \<and> time_ok (md_UpdatedAt m)
     \<and> ascii (md_NodeID m) \<and> ascii (md_Version m) \<and> list_all ascii (md_ClusterNodes m)
     \<and> (\<forall>c. md_Config m = Some c \<longrightarrow> list_all (ascii \<circ> fst) c)
     \<and> (\<forall>st. md_Stats m = Some st \<longrightarrow> time_ok (st_LastBackup st) \<and> time_ok (st_LastCompaction st))"

definition meta_json_ok :: "(Metadata \<Rightarrow> bytes option) \<Rightarrow> (bytes \<Rightarrow> Metadata option) \<Rightarrow> bool" where
  "meta_json_ok marshal unmarshal \<longleftrightarrow> (\<forall>m. meta_ok m \<longrightarrow>
     (\<exists>d m'. marshal m = Some d \<and> unmarshal d = Some m' \<and> same_metadata m m'))"

lemma file_names [simp]: "metadata_tmp \<noteq> metadata_file" "metadata_file \<noteq> metadata_tmp"
  by (simp_all add: metadata_tmp_def metadata_file_def)

lemma WriteFile_other: "WriteFile fail short now name data d = (err, d') \<Longrightarrow> n \<noteq> name \<Longrightarrow> map_of d' n = map_of d n"
  by (auto simp: WriteFile_def map_of_dir_put split: if_splits)

lemma WriteFile_ok: "WriteFile fail short now name data d = (None, d') \<Longrightarrow> d' = dir_put name (plain_file data now) d"
  by (auto simp: WriteFile_def split: if_splits)

text \<open>What a finished write leaves in the metadata file.\<close>

lemma save_write_file:
  assumes "save_write env data d = (err, d', passed)"
  shows "map_of d' metadata_file = (if err = None then Some (plain_file data (de_now env)) else map_of d metadata_file)"
proof -
  obtain e d1 where w: "WriteFile (de_fails env) (de_short env) (de_now env) metadata_tmp data d = (e, d1)" by force
  have o: "map_of d1 metadata_file = map_of d metadata_file" by (rule WriteFile_other [OF w]) simp
  have n: "map_of (os_Rename metadata_tmp metadata_file d1) metadata_file = Some (plain_file data (de_now env))" if "e = None"
    using WriteFile_ok [OF w [unfolded that]] by (simp add: os_Rename_def map_of_dir_put)
  show ?thesis
  proof (cases e)
    case None
    with assms w o n show ?thesis by (auto simp: save_write_def Let_def map_of_dir_remove split: if_splits)
  next
    case (Some op)
    with assms w o show ?thesis by (auto simp: save_write_def Let_def split: if_splits)
  qed
qed

text \<open>What it passes through.\<close>

lemma save_write_passed:
  assumes "save_write env data d = (err, d', passed)" and "x \<in> set passed" and "x \<noteq> d'"
  shows "map_of x metadata_file = map_of d metadata_file"
proof -
  obtain e d1 where w: "WriteFile (de_fails env) (de_short env) (de_now env) metadata_tmp data d = (e, d1)" by force
  have "map_of d1 metadata_file = map_of d metadata_file" by (rule WriteFile_other [OF w]) simp
  moreover have "map_of (dir_put metadata_tmp f d) metadata_file = map_of d metadata_file" for f by (simp add: map_of_dir_put)
  ultimately show ?thesis
    using assms w by (cases e) (auto simp: save_write_def Let_def split: if_splits)
qed

text \<open>C17: saving is atomic. At every moment of \<open>Save\<close>, whatever system calls fail and whenever the process
  dies, the metadata file is the old one or the complete new one; it is the new one if \<open>Save\<close> reports
  success, and the old one if it reports an error.\<close>

theorem save_atomic:
  assumes "save_write env data d = (err, d', passed)"
  shows "(\<forall>x \<in> set passed. map_of x metadata_file \<in> {map_of d metadata_file, Some (plain_file data (de_now env))})
    \<and> map_of d' metadata_file = (if err = None then Some (plain_file data (de_now env)) else map_of d metadata_file)"
  using save_write_file [OF assms] save_write_passed [OF assms] by (auto split: if_splits)

definition demo_disk :: disk_env where
  "demo_disk = \<lparr>de_now = 5, de_fails = (\<lambda>_. False), de_short = 0\<rparr>"

theorem save_atomic_witness:
  "\<exists>d' passed. save_write (demo_disk\<lparr>de_fails := \<lambda>op. op = OpRename metadata_tmp metadata_file\<rparr>) [1, 2]
      [(metadata_file, plain_file [9] 1)] = (Some MetaRename, d', passed)
    \<and> map_of d' metadata_file = Some (plain_file [9] 1)
    \<and> (\<forall>x \<in> set passed. map_of x metadata_file \<in> {Some (plain_file [9] 1), Some (plain_file [1, 2] 5)})"
proof -
  obtain d' passed where s: "save_write (demo_disk\<lparr>de_fails := \<lambda>op. op = OpRename metadata_tmp metadata_file\<rparr>) [1, 2]
      [(metadata_file, plain_file [9] 1)] = (Some MetaRename, d', passed)"
    by (simp add: save_write_def WriteFile_def demo_disk_def Let_def)
  from save_atomic [OF s] s show ?thesis by (simp add: demo_disk_def)
qed

text \<open>A saved service is what a new one loads.\<close>

theorem save_then_load:
  assumes "meta_json_ok marshal unmarshal" and "meta_ok s" and "time_ok (de_now env)"
    and "meta_Save marshal env s d = (None, s', d', passed)"
    and "\<not> de_fails env' (OpRead metadata_file)"
  shows "same_metadata s' (NewService unmarshal env' d')"
proof -
  have "meta_ok (s\<lparr>md_UpdatedAt := de_now env\<rparr>)" using assms(2,3) by (simp add: meta_ok_def)
  then obtain x m where x: "marshal (s\<lparr>md_UpdatedAt := de_now env\<rparr>) = Some x" "unmarshal x = Some m"
    "same_metadata (s\<lparr>md_UpdatedAt := de_now env\<rparr>) m"
    using assms(1) unfolding meta_json_ok_def by blast
  from assms(4) x(1) have w: "save_write env x d = (None, d', passed)" and s: "s' = s\<lparr>md_UpdatedAt := de_now env\<rparr>"
    by (auto simp: meta_Save_def save_marshal_def Let_def split: prod.splits)
  from save_write_file [OF w] have "map_of d' metadata_file = Some (plain_file x (de_now env))" by simp
  with x s assms(5) show ?thesis by (simp add: NewService_def meta_Load_def plain_file_def)
qed

text \<open>
  Two concurrent calls of \<open>Save\<close>: their parts may alternate, since the lock of the metadata is released
  before the lock for writing is taken.
\<close>

text \<open>Concurrent saves can leave stale metadata on disk. If one call takes its bytes, then the metadata
  change, a second call takes its bytes and writes them, and only then the first one writes, both
  succeed and the file holds the older metadata; a restart loses the change.\<close>

theorem save_race_stale:
  assumes "meta_json_ok marshal unmarshal" and "meta_ok s" and "time_ok t1" and "time_ok t2"
    and "save_marshal marshal t1 s = (Inr old, s1)" and "save_marshal marshal t2 (SetNodeID t2 ident s1) = (Inr new, s2)"
    and "save_write env2 new d = (None, d1, passed1)" and "save_write env1 old d1 = (None, d2, passed2)"
    and "\<not> de_fails env' (OpRead metadata_file)"
  shows "md_NodeID s2 = ident \<and> md_NodeID (NewService unmarshal env' d2) = md_NodeID s"
proof -
  have s1: "s1 = s\<lparr>md_UpdatedAt := t1\<rparr>" "marshal s1 = Some old"
    using assms(5) by (auto simp: save_marshal_def Let_def split: option.splits)
  moreover have "meta_ok (s\<lparr>md_UpdatedAt := t1\<rparr>)" using assms(2,3) by (simp add: meta_ok_def)
  ultimately obtain m where m: "unmarshal old = Some m" "same_metadata s1 m"
    using assms(1) unfolding meta_json_ok_def by auto
  have "md_NodeID s2 = ident" using assms(6) by (auto simp: save_marshal_def SetNodeID_def Let_def split: option.splits)
  moreover from save_write_file [OF assms(8)] have "map_of d2 metadata_file = Some (plain_file old (de_now env1))" by simp
  ultimately show ?thesis using m s1 assms(9) by (simp add: NewService_def meta_Load_def plain_file_def same_metadata_def)
qed

text \<open>A codec that behaves as demanded: of the configuration it keeps the keys.\<close>

definition enc_strings :: "string list \<Rightarrow> bytes" where
  "enc_strings ss = enc_int (int (length ss)) @ concat (map (enc_bytes \<circ> bytes_of_string) ss)"

fun dec_string_seq :: "nat \<Rightarrow> bytes \<Rightarrow> (string list \<times> bytes) option" where
  "dec_string_seq 0 d = Some ([], d)"
| "dec_string_seq (Suc n) d = (case dec_bytes d of None \<Rightarrow> None | Some (b, r) \<Rightarrow>
     (case dec_string_seq n r of None \<Rightarrow> None | Some (ss, r') \<Rightarrow> Some (string_of_bytes b # ss, r')))"

definition dec_strings :: "bytes \<Rightarrow> (string list \<times> bytes) option" where
  "dec_strings d = (case dec_int_bytes d of None \<Rightarrow> None | Some (n, r) \<Rightarrow> dec_string_seq (nat n) r)"

fun enc_ints :: "int list \<Rightarrow> bytes" where
  "enc_ints [] = []"
| "enc_ints (i # is) = enc_int i @ enc_ints is"

definition demo_marshal :: "Metadata \<Rightarrow> bytes option" where
  "demo_marshal m = Some (enc_strings (md_NodeID m # md_Version m # md_ClusterNodes m) @ enc_int (md_CreatedAt m) @ enc_int (md_UpdatedAt m)
     @ (case md_Config m of None \<Rightarrow> [0] | Some c \<Rightarrow> 1 # enc_strings (map fst c))
     @ (case md_Stats m of None \<Rightarrow> [0] | Some st \<Rightarrow> 1 # enc_ints [st_TotalAdds st, st_TotalRemoves st, st_TotalQueries st,
         st_LastBackup st, st_LastCompaction st]))"

definition demo_dec_config :: "bytes \<Rightarrow> ((string \<times> state_val) list option \<times> bytes) option" where
  "demo_dec_config d = (case d of [] \<Rightarrow> None | t # r \<Rightarrow> if t = 0 then Some (None, r)
     else (case dec_strings r of None \<Rightarrow> None | Some (ks, r') \<Rightarrow> Some (Some (map (\<lambda>k. (k, SvInt 0)) ks), r')))"

fun dec_ints :: "nat \<Rightarrow> bytes \<Rightarrow> int list option" where
  "dec_ints 0 d = Some []"
| "dec_ints (Suc n) d = (case dec_int_bytes d of None \<Rightarrow> None | Some (i, r) \<Rightarrow> map_option (\<lambda>is. i # is) (dec_ints n r))"

definition demo_dec_stats :: "bytes \<Rightarrow> Stats option option" where
  "demo_dec_stats d = (case d of [] \<Rightarrow> None | t # r \<Rightarrow> if t = 0 then Some None
     else (case dec_ints 5 r of Some [a, b, c, e, f] \<Rightarrow> Some (Some \<lparr>st_TotalAdds = a, st_TotalRemoves = b, st_TotalQueries = c,
         st_LastBackup = e, st_LastCompaction = f\<rparr>) | _ \<Rightarrow> None))"

definition demo_unmarshal :: "bytes \<Rightarrow> Metadata option" where
  "demo_unmarshal d = (case dec_strings d of Some (n # v # ns, r) \<Rightarrow> (case dec_int_bytes r of None \<Rightarrow> None | Some (c, r1) \<Rightarrow>
     (case dec_int_bytes r1 of None \<Rightarrow> None | Some (u, r2) \<Rightarrow> (case demo_dec_config r2 of None \<Rightarrow> None | Some (cf, r3) \<Rightarrow>
     (case demo_dec_stats r3 of None \<Rightarrow> None | Some st \<Rightarrow> Some \<lparr>md_NodeID = n, md_CreatedAt = c, md_UpdatedAt = u, md_Version = v,
        md_ClusterNodes = ns, md_Config = cf, md_Stats = st\<rparr>)))) | _ \<Rightarrow> None)"

lemma dec_enc_string_seq: "dec_string_seq (length ss) (concat (map (enc_bytes \<circ> bytes_of_string) ss) @ r) = Some (ss, r)"
  by (induction ss) simp_all

lemma dec_enc_strings [simp]: "dec_strings (enc_strings ss @ r) = Some (ss, r)"
  using dec_enc_string_seq [of ss r] by (simp add: dec_strings_def enc_strings_def)

lemma demo_metadata_codec: "meta_json_ok demo_marshal demo_unmarshal"
proof -
  have c: "demo_dec_config ((case cf of None \<Rightarrow> [0] | Some c \<Rightarrow> 1 # enc_strings (map fst c)) @ r)
    = Some (map_option (map (\<lambda>e. (fst e, SvInt 0))) cf, r)" for cf :: "(string \<times> state_val) list option" and r
    by (cases cf) (simp_all add: demo_dec_config_def)
  have s: "demo_dec_stats (case x of None \<Rightarrow> [0] | Some st \<Rightarrow> 1 # enc_ints [st_TotalAdds st, st_TotalRemoves st, st_TotalQueries st,
      st_LastBackup st, st_LastCompaction st]) = Some x" for x
    by (cases x) (simp_all add: demo_dec_stats_def numeral_eq_Suc)
  have "\<exists>m'. demo_unmarshal (the (demo_marshal m)) = Some m' \<and> same_metadata m m'" for m
    by (simp add: demo_marshal_def demo_unmarshal_def c s same_metadata_def option.map_comp comp_def image_image)
  then show ?thesis by (auto simp: meta_json_ok_def demo_marshal_def)
qed

theorem save_race_stale_witness:
  "\<exists>s old s1 new s2 d1 passed1 d2 passed2. s = NewService demo_unmarshal demo_disk []
    \<and> save_marshal demo_marshal 6 s = (Inr old, s1) \<and> save_marshal demo_marshal 7 (SetNodeID 7 ''node1'' s1) = (Inr new, s2)
    \<and> save_write demo_disk new [] = (None, d1, passed1) \<and> save_write demo_disk old d1 = (None, d2, passed2)
    \<and> md_NodeID s2 = ''node1'' \<and> md_NodeID (NewService demo_unmarshal demo_disk d2) = ''''"
proof -
  let ?s = "NewService demo_unmarshal demo_disk []"
  have ok: "meta_ok ?s" "md_NodeID ?s = ''''"
    by (simp_all add: NewService_def meta_Load_def meta_ok_def time_ok_def demo_disk_def ascii_def zero_metadata_stats_def zero_time_def)
  obtain old s1 where a: "save_marshal demo_marshal 6 ?s = (Inr old, s1)" by (simp add: save_marshal_def demo_marshal_def Let_def)
  obtain new s2 where b: "save_marshal demo_marshal 7 (SetNodeID 7 ''node1'' s1) = (Inr new, s2)"
    by (simp add: save_marshal_def demo_marshal_def Let_def)
  have w: "\<exists>d' passed. save_write demo_disk x d = (None, d', passed)" for x d
    by (simp add: save_write_def WriteFile_def demo_disk_def Let_def)
  obtain d1 passed1 where c: "save_write demo_disk new [] = (None, d1, passed1)" using w by blast
  obtain d2 passed2 where e: "save_write demo_disk old d1 = (None, d2, passed2)" using w by blast
  have t: "time_ok 6" "time_ok 7" "\<not> de_fails demo_disk (OpRead metadata_file)" by (simp_all add: time_ok_def demo_disk_def)
  from save_race_stale [OF demo_metadata_codec ok(1) t(1,2) a b c e t(3)] ok(2) a b c e show ?thesis by auto
qed

text \<open>What a partial file leads to: a loaded object without statistics or configuration makes the counters
  and \<open>SetConfig\<close> panic.\<close>

lemma partial_metadata_panics:
  "meta_Load unmarshal env d s = (None, m) \<Longrightarrow> md_Stats m = None \<Longrightarrow> md_Config m = None \<Longrightarrow>
     RecordAdd m = Inl NilDereference \<and> RecordQuery m = Inl NilDereference \<and> SetConfig now k v m = Inl NilMapWrite"
  by (simp add: RecordAdd_def RecordQuery_def with_stats_def SetConfig_def)

text \<open>The node list is a set: adding twice changes nothing, and a removed node is gone.\<close>

lemma cluster_nodes_distinct:
  "distinct (md_ClusterNodes s) \<Longrightarrow> distinct (md_ClusterNodes (AddClusterNode now n s)) \<and> distinct (md_ClusterNodes (RemoveClusterNode now n s))
   \<and> n \<in> set (md_ClusterNodes (AddClusterNode now n s)) \<and> n \<notin> set (md_ClusterNodes (RemoveClusterNode now n s))"
  by (auto simp: AddClusterNode_def RemoveClusterNode_def list_ex_iff)

end
