(* ===== verification/Grpc_Context.thy ===== *)
theory Grpc_Context
  imports Go_Strings
begin

text \<open>
  What the interceptors of \<open>src/internal/grpc/\<close> see of a request: the peer and the metadata in its
  context, and the status they answer with. A context is the record \<open>ctx\<close>; \<open>'x\<close> is a parsed client
  certificate.
\<close>

type_synonym ip = bytes

text \<open>The peer: its address as text, its IP if the address is a TCP address, and the certificates of a TLS
  connection (\<open>None\<close> if the connection has no TLS).\<close>

record 'x peer_info =
  pe_addr :: string
  pe_ip :: "ip option"
  pe_tls :: "'x list option"

record 'x ctx =
  cx_peer :: "'x peer_info option"
  cx_md :: "(string \<times> string list) list option"
  cx_audit :: "(string \<times> string \<times> string) option"

text \<open>\<open>metadata.MD.Get\<close>: keys are stored in lower case.\<close>

definition md_Get :: "(string \<times> string list) list \<Rightarrow> string \<Rightarrow> string list" where
  "md_Get md key = (case map_of md (ToLower key) of None \<Rightarrow> [] | Some vs \<Rightarrow> vs)"

datatype grpc_code = Unauthenticated | ResourceExhausted | Unavailable | OtherCode string

definition code_String :: "grpc_code \<Rightarrow> string" where
  "code_String c = (case c of Unauthenticated \<Rightarrow> ''Unauthenticated'' | ResourceExhausted \<Rightarrow> ''ResourceExhausted''
     | Unavailable \<Rightarrow> ''Unavailable'' | OtherCode s \<Rightarrow> s)"

record status =
  st_Code :: grpc_code
  st_Message :: string

definition unauthenticated :: "string \<Rightarrow> status" where
  "unauthenticated msg = \<lparr>st_Code = Unauthenticated, st_Message = msg\<rparr>"

definition exhausted :: "string \<Rightarrow> status" where
  "exhausted msg = \<lparr>st_Code = ResourceExhausted, st_Message = msg\<rparr>"

end
