(* ===== verification/Grpc_Auth.thy ===== *)
theory Grpc_Auth
  imports Grpc_Context Tls_Config
begin

text \<open>
  \<open>src/internal/grpc/auth.go\<close>: authentication by client certificate, by token and by signed API key with
  replay protection. The HMAC with its base64 encoding is the parameter \<open>sign secret message\<close>, the JWT
  library is the record \<open>jwt_lib\<close> and the X.509 library the record \<open>tls_lib\<close>. Times are nanoseconds since
  1970, the timestamps of requests are 64-bit signed seconds. The detail that an error of a library adds
  to a status message is left out. A call is one step: its access to the map of seen requests is the
  atomic \<open>LoadOrStore\<close>, and the clock is read once.
\<close>

section \<open>Data\<close>

record APIMetadata =
  am_ApiKey :: string
  am_Timestamp :: u64
  am_Signature :: string

definition maxRequestAge :: int where "maxRequestAge = 5 * 60 * 10 ^ 9"
definition maxTimestampMapSize :: nat where "maxTimestampMapSize = 100000"

record AuthConfig =
  ac_EnableMTLS :: bool
  ac_CACertPath :: string
  ac_ServerCertPath :: string
  ac_ServerKeyPath :: string
  ac_EnableTokenAuth :: bool
  ac_JWTSecretKey :: string
  ac_TokenExpiry :: int
  ac_EnableAPIKeyAuth :: bool
  ac_APIKeys :: "(string \<times> string) list"

record TokenClaims =
  tk_NodeID :: string
  tk_Permissions :: "string list"
  tk_ExpiresAt :: "int option"
  tk_IssuedAt :: "int option"
  tk_Issuer :: string

type_synonym MemoryAPIKeyStore = "(string \<times> string) list"

definition NewMemoryAPIKeyStore :: MemoryAPIKeyStore where
  "NewMemoryAPIKeyStore = []"

definition AddKey :: "string \<Rightarrow> string \<Rightarrow> MemoryAPIKeyStore \<Rightarrow> MemoryAPIKeyStore" where
  "AddKey apiKey secret s = (apiKey, secret) # filter (\<lambda>e. fst e \<noteq> apiKey) s"

definition GetSecret :: "MemoryAPIKeyStore \<Rightarrow> string \<Rightarrow> string" where
  "GetSecret s apiKey = (case map_of s apiKey of None \<Rightarrow> '''' | Some secret \<Rightarrow> secret)"

text \<open>The requests seen are the keys of a \<open>sync.Map\<close>, here in some order without duplicates.\<close>

record 'x AuthInterceptor =
  ai_config :: AuthConfig
  ai_caCert :: "'x option"
  ai_keyStore :: "MemoryAPIKeyStore option"
  ai_seenRequests :: "string list"
  ai_timestampCount :: int
  ai_apiKeyEnabled :: bool
  ai_stopped :: bool

datatype auth_setup_error = ReadCACert | DecodeCACert | ParseCACert | SetupServerCert | SetupCAPool | SignToken

definition NewAuthInterceptor :: "('c, 'x) tls_lib \<Rightarrow> AuthConfig \<Rightarrow> auth_setup_error + 'x AuthInterceptor" where
  "NewAuthInterceptor L config =
     (let enabled = ac_EnableAPIKeyAuth config \<and> ac_APIKeys config \<noteq> [];
          store = (if enabled then Some (foldl (\<lambda>s (k, v). AddKey k v s) NewMemoryAPIKeyStore (ac_APIKeys config)) else None);
          interceptor = \<lparr>ai_config = config, ai_caCert = None, ai_keyStore = store, ai_seenRequests = [],
            ai_timestampCount = 0, ai_apiKeyEnabled = enabled, ai_stopped = False\<rparr>
      in if ac_EnableMTLS config \<and> ac_CACertPath config \<noteq> '''' then
           (case tls_ReadFile L (ac_CACertPath config) of
              None \<Rightarrow> Inl ReadCACert
            | Some caCertPEM \<Rightarrow> (case pem_Decode L caCertPEM of
                None \<Rightarrow> Inl DecodeCACert
              | Some (ty, der) \<Rightarrow>
                  if ty \<noteq> ''CERTIFICATE'' then Inl DecodeCACert
                  else (case ParseCertificate L der of
                      None \<Rightarrow> Inl ParseCACert
                    | Some caCert \<Rightarrow> Inr (interceptor\<lparr>ai_caCert := Some caCert\<rparr>))))
         else Inr interceptor)"

definition auth_Stop :: "'x AuthInterceptor \<Rightarrow> 'x AuthInterceptor" where
  "auth_Stop a = a\<lparr>ai_stopped := True\<rparr>"

definition GetTimestampCount :: "'x AuthInterceptor \<Rightarrow> int" where
  "GetTimestampCount a = ai_timestampCount a"

section \<open>API keys\<close>

definition computeSignature :: "(string \<Rightarrow> string \<Rightarrow> string) \<Rightarrow> string \<Rightarrow> u64 \<Rightarrow> string \<Rightarrow> string \<Rightarrow> string" where
  "computeSignature sign apiKey timestamp meth secret = sign secret (apiKey @ dec_int (sint timestamp) @ meth)"

definition replay_key :: "string \<Rightarrow> u64 \<Rightarrow> string" where
  "replay_key apiKey timestamp = apiKey @ '':'' @ dec_int (sint timestamp)"

text \<open>\<open>time.Unix(sec, 0)\<close> in nanoseconds: Go counts the seconds from the year 1, so the addition of the
  offset can wrap.\<close>

definition time_Unix :: "u64 \<Rightarrow> int" where
  "time_Unix sec = (sint (sec + 62135596800) - 62135596800) * 10 ^ 9"

definition validateAPIKeyAuth ::
  "(string \<Rightarrow> string \<Rightarrow> string) \<Rightarrow> int \<Rightarrow> 'x AuthInterceptor \<Rightarrow> APIMetadata \<Rightarrow> string
    \<Rightarrow> panic + (status option \<times> 'x AuthInterceptor)" where
  "validateAPIKeyAuth sign now a auth meth =
     (if am_ApiKey auth = '''' then Inr (Some (unauthenticated ''missing API key''), a)
      else case ai_keyStore a of
        None \<Rightarrow> Inl NilDereference
      | Some keyStore \<Rightarrow>
          let secret = GetSecret keyStore (am_ApiKey auth) in
          if secret = '''' then Inr (Some (unauthenticated ''invalid API key''), a)
          else if now - time_Unix (am_Timestamp auth) > maxRequestAge
          then Inr (Some (unauthenticated ''request timestamp too old''), a)
          else let replayKey = replay_key (am_ApiKey auth) (am_Timestamp auth) in
          if replayKey \<in> set (ai_seenRequests a) then Inr (Some (unauthenticated ''replay attack detected''), a)
          else let a1 = a\<lparr>ai_seenRequests := replayKey # ai_seenRequests a, ai_timestampCount := ai_timestampCount a + 1\<rparr> in
          if am_Signature auth \<noteq> computeSignature sign (am_ApiKey auth) (am_Timestamp auth) meth secret
          then Inr (Some (unauthenticated ''invalid signature''), a1)
          else Inr (None, a1))"

text \<open>\<open>fmt.Sscanf\<close> with \<open>%d\<close> into an \<open>int64\<close>: an optional sign, then digits; the rest of the string is
  ignored.\<close>

definition scan_int64 :: "string \<Rightarrow> int option" where
  "scan_int64 s =
     (let t = dropWhile is_blank s;
          (neg, u) = (case t of [] \<Rightarrow> (False, []) | c # cs \<Rightarrow> if c = CHR ''-'' then (True, cs) else if c = CHR ''+'' then (False, cs) else (False, t));
          ds = takeWhile is_digit u;
          v = (if neg then - int (digits_value ds) else int (digits_value ds))
      in if ds = [] \<or> v < - (2 ^ 63) \<or> v \<ge> 2 ^ 63 then None else Some v)"

definition key_timestamp :: "string \<Rightarrow> int option" where
  "key_timestamp keyStr =
     (let lastColon = LastIndexByte keyStr (CHR '':'') in
      if lastColon = - 1 then None else scan_int64 (drop (nat lastColon + 1) keyStr))"

text \<open>Neither the iteration over a \<open>sync.Map\<close> nor \<open>sort.Slice\<close> fixes the order of entries with the same
  timestamp; \<open>visit\<close> is the order the run takes.\<close>

definition cleanupOldTimestamps :: "(string list \<Rightarrow> string list) \<Rightarrow> int \<Rightarrow> 'x AuthInterceptor \<Rightarrow> 'x AuthInterceptor" where
  "cleanupOldTimestamps visit now a =
     (let cutoff = (now - maxRequestAge) div 10 ^ 9;
          totalCount = length (ai_seenRequests a);
          old = (\<lambda>k. case key_timestamp k of None \<Rightarrow> False | Some t \<Rightarrow> t < cutoff);
          seen1 = filter (\<lambda>k. \<not> old k) (ai_seenRequests a);
          a1 = a\<lparr>ai_seenRequests := seen1, ai_timestampCount := int totalCount\<rparr>
      in if totalCount > maxTimestampMapSize then
           let allEntries = sort_key (\<lambda>k. the (key_timestamp k)) (visit (filter (\<lambda>k. key_timestamp k \<noteq> None) seen1));
               removeCount = length allEntries div 2
           in if removeCount > 0 then
                a1\<lparr>ai_seenRequests := filter (\<lambda>k. k \<notin> set (take removeCount allEntries)) seen1,
                   ai_timestampCount := int totalCount - int removeCount\<rparr>
              else a1
         else a1)"

text \<open>The background loop over the events its \<open>select\<close> receives; the flag is that it has returned.\<close>

datatype cleanup_event = CleanupTick int | CleanupStop

fun auth_periodicCleanup ::
  "(string list \<Rightarrow> string list) \<Rightarrow> cleanup_event list \<Rightarrow> 'x AuthInterceptor \<Rightarrow> bool \<times> 'x AuthInterceptor" where
  "auth_periodicCleanup visit [] a = (False, a)"
| "auth_periodicCleanup visit (CleanupTick now # es) a = auth_periodicCleanup visit es (cleanupOldTimestamps visit now a)"
| "auth_periodicCleanup visit (CleanupStop # es) a = (True, a)"

definition GenerateAPIKeyToken :: "(string \<Rightarrow> string \<Rightarrow> string) \<Rightarrow> int \<Rightarrow> string \<Rightarrow> string \<Rightarrow> string \<Rightarrow> APIMetadata" where
  "GenerateAPIKeyToken sign now apiKey secret meth =
     (let timestamp = word_of_int (now div 10 ^ 9) in
      \<lparr>am_ApiKey = apiKey, am_Timestamp = timestamp,
       am_Signature = sign secret (apiKey @ dec_int (sint timestamp) @ meth)\<rparr>)"

section \<open>Certificates and tokens\<close>

definition validateMTLS :: "('c, 'x) tls_lib \<Rightarrow> 'x AuthInterceptor \<Rightarrow> 'x ctx \<Rightarrow> status option" where
  "validateMTLS L a ctx = (case cx_peer ctx of
      None \<Rightarrow> Some (unauthenticated ''TLS connection required'')
    | Some p \<Rightarrow> (case pe_tls p of
        None \<Rightarrow> Some (unauthenticated ''TLS connection required'')
      | Some [] \<Rightarrow> Some (unauthenticated ''client certificate required'')
      | Some (clientCert # _) \<Rightarrow> (case ai_caCert a of
          None \<Rightarrow> None
        | Some caCert \<Rightarrow>
            if x509_Verify L (Some [caCert]) clientCert then None
            else Some (unauthenticated ''invalid client certificate''))))"

text \<open>
  The JWT library: \<open>jwt_alg\<close> is whether the token's method is an HMAC (\<open>None\<close> if it cannot be parsed),
  \<open>jwt_verify\<close> checks signature and registered claims and yields the claims and the validity flag,
  \<open>jwt_sign\<close> signs with HS256.
\<close>

record jwt_lib =
  jwt_alg :: "string \<Rightarrow> bool option"
  jwt_verify :: "int \<Rightarrow> string \<Rightarrow> string \<Rightarrow> (TokenClaims \<times> bool) option"
  jwt_sign :: "TokenClaims \<Rightarrow> string \<Rightarrow> string option"

definition validateToken :: "jwt_lib \<Rightarrow> int \<Rightarrow> 'x AuthInterceptor \<Rightarrow> 'x ctx \<Rightarrow> status option" where
  "validateToken T now a ctx = (case cx_md ctx of
      None \<Rightarrow> Some (unauthenticated ''missing metadata'')
    | Some md \<Rightarrow> (case md_Get md ''authorization'' of
        [] \<Rightarrow> Some (unauthenticated ''missing authorization header'')
      | authHeader # _ \<Rightarrow>
          if \<not> HasPrefix authHeader ''Bearer '' then Some (unauthenticated ''invalid authorization format'')
          else let tokenString = drop 7 authHeader in
          if jwt_alg T tokenString \<noteq> Some True then Some (unauthenticated ''invalid token'')
          else (case jwt_verify T now tokenString (ac_JWTSecretKey (ai_config a)) of
              None \<Rightarrow> Some (unauthenticated ''invalid token'')
            | Some (claims, valid) \<Rightarrow>
                if \<not> valid then Some (unauthenticated ''invalid token'')
                else if (case tk_ExpiresAt claims of None \<Rightarrow> False | Some t \<Rightarrow> now > t) then Some (unauthenticated ''token expired'')
                else if tk_NodeID claims = '''' then Some (unauthenticated ''missing node_id in token'')
                else None)))"

text \<open>Numeric dates are truncated to seconds.\<close>

definition GenerateToken :: "jwt_lib \<Rightarrow> int \<Rightarrow> int \<Rightarrow> AuthConfig \<Rightarrow> string \<Rightarrow> string list \<Rightarrow> auth_setup_error + string" where
  "GenerateToken T now now1 config nodeID permissions =
     (let trunc = (\<lambda>t. t div 10 ^ 9 * 10 ^ 9);
          claims = \<lparr>tk_NodeID = nodeID, tk_Permissions = permissions, tk_ExpiresAt = Some (trunc (now + ac_TokenExpiry config)),
            tk_IssuedAt = Some (trunc now1), tk_Issuer = ''dbf-auth''\<rparr>
      in (case jwt_sign T claims (ac_JWTSecretKey config) of None \<Rightarrow> Inl SignToken | Some t \<Rightarrow> Inr t))"

definition LoadTLSCredentials :: "('c, 'x) tls_lib \<Rightarrow> AuthConfig \<Rightarrow> auth_setup_error + ('c, 'x) tls_Config" where
  "LoadTLSCredentials L config = (case LoadX509KeyPair L (ac_ServerCertPath config) (ac_ServerKeyPath config) of
      None \<Rightarrow> Inl SetupServerCert
    | Some cert \<Rightarrow> (case tls_ReadFile L (ac_CACertPath config) of
        None \<Rightarrow> Inl ReadCACert
      | Some caCertPEM \<Rightarrow>
          if pem_certs L caCertPEM = [] then Inl SetupCAPool
          else Inr \<lparr>tc_Certificates = [cert], tc_MinVersion = VersionTLS12, tc_CipherSuites = [],
            tc_ClientAuth = RequireAndVerifyClientCert, tc_ClientCAs = Some (pem_certs L caCertPEM), tc_RootCAs = None,
            tc_ServerName = '''', tc_InsecureSkipVerify = False\<rparr>))"

section \<open>The interceptors\<close>

definition authenticate :: "('c, 'x) tls_lib \<Rightarrow> jwt_lib \<Rightarrow> int \<Rightarrow> 'x AuthInterceptor \<Rightarrow> 'x ctx \<Rightarrow> status option" where
  "authenticate L T now a ctx =
     (if \<not> ac_EnableMTLS (ai_config a) \<and> \<not> ac_EnableTokenAuth (ai_config a) \<and> \<not> ai_apiKeyEnabled a then None
      else if ac_EnableMTLS (ai_config a) \<and> validateMTLS L a ctx = None then None
      else if ac_EnableTokenAuth (ai_config a) then validateToken T now a ctx
      else if ac_EnableMTLS (ai_config a) then Some (unauthenticated ''mTLS authentication required'')
      else None)"

text \<open>A unary call: \<open>auth\<close> is what the request's \<open>GetAuth\<close> yields (\<open>None\<close> if it has no such method or returns
  nil). The result is the error, or that the handler runs.\<close>

definition auth_Unary ::
  "('c, 'x) tls_lib \<Rightarrow> jwt_lib \<Rightarrow> (string \<Rightarrow> string \<Rightarrow> string) \<Rightarrow> int \<Rightarrow> 'x AuthInterceptor \<Rightarrow> 'x ctx \<Rightarrow> APIMetadata option \<Rightarrow> string
    \<Rightarrow> panic + (status option \<times> 'x AuthInterceptor)" where
  "auth_Unary L T sign now a ctx auth meth =
     (case (if ai_apiKeyEnabled a then auth else None) of
        Some m \<Rightarrow> if am_ApiKey m \<noteq> '''' then validateAPIKeyAuth sign now a m meth else Inr (authenticate L T now a ctx, a)
      | None \<Rightarrow> Inr (authenticate L T now a ctx, a))"

definition auth_Stream :: "('c, 'x) tls_lib \<Rightarrow> jwt_lib \<Rightarrow> int \<Rightarrow> 'x AuthInterceptor \<Rightarrow> 'x ctx \<Rightarrow> status option" where
  "auth_Stream L T now a ctx = authenticate L T now a ctx"

section \<open>Replay keys\<close>

lemma last_index_from_none: "c \<notin> set s \<Longrightarrow> last_index_from i r s c = r"
  by (induction s arbitrary: i r) auto

lemma last_index_from_append: "last_index_from i r (s @ t) c = last_index_from (i + length s) (last_index_from i r s c) t c"
  by (induction s arbitrary: i r) auto

lemma LastIndexByte_last: "c \<notin> set t \<Longrightarrow> LastIndexByte (s @ c # t) c = int (length s)"
  by (simp add: LastIndexByte_def last_index_from_append last_index_from_none)

lemma colon_notin_dec_int: "CHR '':'' \<notin> set (dec_int i)"
proof -
  have "\<not> is_digit (CHR '':'')" by (simp add: is_digit_def)
  then have "CHR '':'' \<notin> set (dec n)" for n using dec_digits [of n] by (auto simp: list_all_iff)
  then show ?thesis by (simp add: dec_int_def)
qed

lemma takeWhile_dec: "takeWhile is_digit (dec n) = dec n"
  using dec_digits [of n] by (simp add: list_all_iff)

lemma dropWhile_dec: "dropWhile is_blank (dec n) = dec n"
proof (cases "dec n")
  case (Cons c cs)
  then show ?thesis using dec_digits [of n] by (simp add: digit_not_blank)
qed simp

lemma scan_int64_dec_int:
  assumes "- (2 ^ 63) \<le> i" and "i < 2 ^ 63"
  shows "scan_int64 (dec_int i) = Some i"
proof (cases "i < 0")
  case True
  moreover have "\<not> is_blank (CHR ''-'')" by (simp add: is_blank_def is_space_def)
  ultimately show ?thesis using assms by (simp add: scan_int64_def dec_int_def takeWhile_dec)
next
  case False
  obtain c cs where c: "dec (nat i) = c # cs" by (cases "dec (nat i)") auto
  with dec_digits [of "nat i"] have "is_digit c" by simp
  then have "c \<noteq> CHR ''-''" "c \<noteq> CHR ''+''" by (auto simp: is_digit_def)
  with c False assms show ?thesis
    using takeWhile_dec [of "nat i"] dropWhile_dec [of "nat i"] digits_value_dec [of "nat i"]
    by (simp add: scan_int64_def dec_int_def del: digits_value_dec)
qed

lemma key_timestamp_replay_key [simp]: "key_timestamp (replay_key k t) = Some (sint t)"
proof -
  have "sint t < 2 ^ 63" "- (2 ^ 63) \<le> sint t" using sint_lt [of t] sint_ge [of t] by simp_all
  then show ?thesis
    by (simp add: key_timestamp_def replay_key_def LastIndexByte_last colon_notin_dec_int scan_int64_dec_int)
qed

lemma time_Unix_le: "time_Unix t \<le> sint t * 10 ^ 9"
proof -
  have "sint (62135596800 :: u64) = 62135596800" by simp
  then have "sint (t + 62135596800) = signed_take_bit 63 (sint t + 62135596800)"
    by (simp only: sint_word_ariths(1)) simp
  also have "\<dots> \<le> sint t + 62135596800"
    using sint_ge [of t] by (simp add: signed_take_bit_int_less_eq_self_iff)
  finally show ?thesis by (simp add: time_Unix_def)
qed

lemma time_Unix_word:
  assumes "0 \<le> s" and "s < 2 ^ 62"
  shows "time_Unix (word_of_int s) = s * 10 ^ 9"
proof -
  have "signed_take_bit 63 (s + 62135596800) = s + 62135596800"
    using assms by (simp add: signed_take_bit_int_eq_self_iff)
  moreover have "word_of_int s + 62135596800 = (word_of_int (s + 62135596800) :: u64)" by simp
  ultimately show ?thesis by (simp only: time_Unix_def sint_sbintrunc') simp
qed

section \<open>What a call lets through\<close>

text \<open>An API-key request is let through exactly if the key is known, the timestamp is at most five minutes
  old, the pair of key and timestamp has not been seen, and the signature is the one of the key's secret.\<close>

definition api_key_ok :: "(string \<Rightarrow> string \<Rightarrow> string) \<Rightarrow> int \<Rightarrow> 'x AuthInterceptor \<Rightarrow> APIMetadata \<Rightarrow> string \<Rightarrow> bool" where
  "api_key_ok sign now a m meth \<longleftrightarrow>
     (case ai_keyStore a of None \<Rightarrow> False | Some s \<Rightarrow>
        am_ApiKey m \<noteq> [] \<and> GetSecret s (am_ApiKey m) \<noteq> [] \<and> now - time_Unix (am_Timestamp m) \<le> maxRequestAge
        \<and> replay_key (am_ApiKey m) (am_Timestamp m) \<notin> set (ai_seenRequests a)
        \<and> am_Signature m = sign (GetSecret s (am_ApiKey m)) (am_ApiKey m @ dec_int (sint (am_Timestamp m)) @ meth))"

lemma validateAPIKeyAuth_ok_iff:
  "(\<exists>a'. validateAPIKeyAuth sign now a m meth = Inr (None, a')) \<longleftrightarrow> api_key_ok sign now a m meth"
  by (auto simp: validateAPIKeyAuth_def api_key_ok_def computeSignature_def Let_def split: option.splits)

lemma validateAPIKeyAuth_cases:
  assumes "validateAPIKeyAuth sign now a m meth = Inr (r, a')"
  shows "(a' = a \<and> r \<noteq> None) \<or>
     (replay_key (am_ApiKey m) (am_Timestamp m) \<notin> set (ai_seenRequests a) \<and> now - time_Unix (am_Timestamp m) \<le> maxRequestAge
      \<and> a' = a\<lparr>ai_seenRequests := replay_key (am_ApiKey m) (am_Timestamp m) # ai_seenRequests a,
           ai_timestampCount := ai_timestampCount a + 1\<rparr>)"
  using assms unfolding validateAPIKeyAuth_def Let_def
  by (simp only: not_le not_less split: option.splits if_splits) (simp; blast)+

lemma validateAPIKeyAuth_total: "ai_keyStore a \<noteq> None \<Longrightarrow> \<exists>r a'. validateAPIKeyAuth sign now a m meth = Inr (r, a')"
  by (auto simp: validateAPIKeyAuth_def Let_def)

lemma cleanup_fields [simp]:
  "ai_keyStore (cleanupOldTimestamps visit now a) = ai_keyStore a"
  "ai_config (cleanupOldTimestamps visit now a) = ai_config a"
  "ai_apiKeyEnabled (cleanupOldTimestamps visit now a) = ai_apiKeyEnabled a"
  by (simp_all add: cleanupOldTimestamps_def Let_def)

text \<open>Below the size limit a cleanup only forgets requests that are too old to be let through again.\<close>

lemma cleanup_keeps:
  assumes "length (ai_seenRequests a) \<le> maxTimestampMapSize"
    and "replay_key k t \<in> set (ai_seenRequests a)"
    and "now - time_Unix t \<le> maxRequestAge"
  shows "replay_key k t \<in> set (ai_seenRequests (cleanupOldTimestamps visit now a))"
proof -
  have "now - maxRequestAge \<le> sint t * 10 ^ 9" using time_Unix_le [of t] assms(3) by linarith
  then have "(now - maxRequestAge) div 10 ^ 9 \<le> sint t * 10 ^ 9 div 10 ^ 9" by (rule zdiv_mono1) simp
  then have "(now - maxRequestAge) div 10 ^ 9 \<le> sint t" by simp
  with assms(1,2) show ?thesis by (simp add: cleanupOldTimestamps_def Let_def)
qed

section \<open>Replay protection\<close>

text \<open>A history of the interceptor: API-key requests and the ticks of the cleanup, with their times. The run
  collects the key and timestamp of each request that is let through.\<close>

datatype auth_event = ARequest int APIMetadata string | ACleanup int

fun event_time :: "auth_event \<Rightarrow> int" where
  "event_time (ARequest now m meth) = now"
| "event_time (ACleanup now) = now"

fun auth_run ::
  "(string list \<Rightarrow> string list) \<Rightarrow> (string \<Rightarrow> string \<Rightarrow> string) \<Rightarrow> auth_event list \<Rightarrow> 'x AuthInterceptor
    \<Rightarrow> panic + ((string \<times> u64) list \<times> 'x AuthInterceptor)" where
  "auth_run visit sign [] a = Inr ([], a)"
| "auth_run visit sign (ARequest now m meth # es) a =
     go_bind (validateAPIKeyAuth sign now a m meth) (\<lambda>(r, a1).
     go_bind (auth_run visit sign es a1) (\<lambda>(acc, a2).
       Inr (if r = None then (am_ApiKey m, am_Timestamp m) # acc else acc, a2)))"
| "auth_run visit sign (ACleanup now # es) a = auth_run visit sign es (cleanupOldTimestamps visit now a)"

text \<open>At each cleanup the map is within its limit.\<close>

fun limit_kept :: "(string list \<Rightarrow> string list) \<Rightarrow> (string \<Rightarrow> string \<Rightarrow> string) \<Rightarrow> auth_event list \<Rightarrow> 'x AuthInterceptor \<Rightarrow> bool" where
  "limit_kept visit sign [] a = True"
| "limit_kept visit sign (ARequest now m meth # es) a =
     (case validateAPIKeyAuth sign now a m meth of Inl p \<Rightarrow> True | Inr (r, a1) \<Rightarrow> limit_kept visit sign es a1)"
| "limit_kept visit sign (ACleanup now # es) a =
     (length (ai_seenRequests a) \<le> maxTimestampMapSize \<and> limit_kept visit sign es (cleanupOldTimestamps visit now a))"

text \<open>The pair is remembered, or too old for every call from \<open>now\<close> on.\<close>

definition blocked :: "int \<Rightarrow> 'x AuthInterceptor \<Rightarrow> string \<times> u64 \<Rightarrow> bool" where
  "blocked now a p \<longleftrightarrow> replay_key (fst p) (snd p) \<in> set (ai_seenRequests a) \<or> now - time_Unix (snd p) > maxRequestAge"

lemma blocked_later: "blocked now a p \<Longrightarrow> now \<le> now' \<Longrightarrow> blocked now' a p"
  by (auto simp: blocked_def)

lemma validate_keeps_blocked:
  assumes "validateAPIKeyAuth sign now a m meth = Inr (r, a')" and "blocked now a p"
  shows "blocked now a' p" and "r = None \<Longrightarrow> p \<noteq> (am_ApiKey m, am_Timestamp m)"
  using validateAPIKeyAuth_cases [OF assms(1)] assms(2) by (auto simp: blocked_def)

lemma validate_blocks:
  "validateAPIKeyAuth sign now a m meth = Inr (None, a') \<Longrightarrow> blocked now a' (am_ApiKey m, am_Timestamp m)"
  using validateAPIKeyAuth_cases by (fastforce simp: blocked_def)

lemma cleanup_keeps_blocked:
  "length (ai_seenRequests a) \<le> maxTimestampMapSize \<Longrightarrow> blocked now a p \<Longrightarrow> blocked now (cleanupOldTimestamps visit now a) p"
  using cleanup_keeps [of a "fst p" "snd p" now visit] by (auto simp: blocked_def)

lemma validate_keyStore: "validateAPIKeyAuth sign now a m meth = Inr (r, a') \<Longrightarrow> ai_keyStore a' = ai_keyStore a"
  using validateAPIKeyAuth_cases by fastforce

lemma auth_run_blocked:
  assumes "auth_run visit sign es a = Inr (acc, a')" and "limit_kept visit sign es a"
    and "sorted (now # map event_time es)" and "blocked now a p"
  shows "p \<notin> set acc"
  using assms
proof (induction es arbitrary: a acc now)
  case (Cons e es)
  show ?case
  proof (cases e)
    case (ARequest t m meth)
    then obtain r a1 acc1 where v: "validateAPIKeyAuth sign t a m meth = Inr (r, a1)"
      and run: "auth_run visit sign es a1 = Inr (acc1, a')"
      and acc: "acc = (if r = None then (am_ApiKey m, am_Timestamp m) # acc1 else acc1)"
      using Cons.prems(1) by (auto simp: go_bind_eq_Inr_iff)
    have b: "blocked t a p" using Cons.prems(3,4) ARequest by (auto intro: blocked_later)
    have "p \<notin> set acc1"
      using Cons.IH [OF run, of t] validate_keeps_blocked(1) [OF v b] Cons.prems(2,3) ARequest v by simp
    then show ?thesis using validate_keeps_blocked(2) [OF v b] acc by auto
  next
    case (ACleanup t)
    have "blocked t a p" using Cons.prems(3,4) ACleanup by (auto intro: blocked_later)
    then have "blocked t (cleanupOldTimestamps visit t a) p"
      using Cons.prems(2) ACleanup by (simp add: cleanup_keeps_blocked)
    then show ?thesis using Cons.IH [of _ acc t] Cons.prems ACleanup by simp
  qed
qed simp

lemma auth_run_distinct:
  assumes "auth_run visit sign es a = Inr (acc, a')" and "limit_kept visit sign es a" and "sorted (map event_time es)"
  shows "distinct acc"
  using assms
proof (induction es arbitrary: a acc)
  case (Cons e es)
  show ?case
  proof (cases e)
    case (ARequest t m meth)
    then obtain r a1 acc1 where v: "validateAPIKeyAuth sign t a m meth = Inr (r, a1)"
      and run: "auth_run visit sign es a1 = Inr (acc1, a')"
      and acc: "acc = (if r = None then (am_ApiKey m, am_Timestamp m) # acc1 else acc1)"
      using Cons.prems(1) by (auto simp: go_bind_eq_Inr_iff)
    have lim: "limit_kept visit sign es a1" "sorted (t # map event_time es)" using Cons.prems(2,3) ARequest v by simp_all
    then have "distinct acc1" using Cons.IH [OF run] by simp
    moreover have "(am_ApiKey m, am_Timestamp m) \<notin> set acc1" if "r = None"
      using auth_run_blocked [OF run lim] validate_blocks v that by blast
    ultimately show ?thesis using acc by simp
  next
    case (ACleanup t)
    then show ?thesis using Cons by simp
  qed
qed simp

lemma auth_run_total: "ai_keyStore a \<noteq> None \<Longrightarrow> \<exists>acc a'. auth_run visit sign es a = Inr (acc, a')"
proof (induction es arbitrary: a)
  case (Cons e es)
  show ?case
  proof (cases e)
    case (ARequest t m meth)
    obtain r a1 where v: "validateAPIKeyAuth sign t a m meth = Inr (r, a1)"
      using validateAPIKeyAuth_total [OF Cons.prems] by blast
    with Cons.IH [of a1] Cons.prems obtain acc a2 where "auth_run visit sign es a1 = Inr (acc, a2)"
      using validate_keyStore [OF v] by auto
    then show ?thesis using v ARequest by (simp add: go_bind_def)
  next
    case (ACleanup t)
    then show ?thesis using Cons by simp
  qed
qed simp

text \<open>C4: over any history with a clock that does not go back, in which the map of seen requests is within its
  limit at every cleanup, no pair of API key and timestamp is let through twice, whatever the requests are
  and whatever the interceptor had seen before; and no call panics.\<close>

theorem no_replay:
  assumes "ai_keyStore a \<noteq> None" and "limit_kept visit sign es a" and "sorted (map event_time es)"
  shows "\<exists>acc a'. auth_run visit sign es a = Inr (acc, a') \<and> distinct acc"
  using auth_run_total [OF assms(1)] auth_run_distinct [OF _ assms(2,3)] by blast

definition demo_auth_config :: AuthConfig where
  "demo_auth_config = \<lparr>ac_EnableMTLS = False, ac_CACertPath = [], ac_ServerCertPath = [], ac_ServerKeyPath = [],
     ac_EnableTokenAuth = False, ac_JWTSecretKey = [], ac_TokenExpiry = 0, ac_EnableAPIKeyAuth = True,
     ac_APIKeys = [(''k'', ''s'')]\<rparr>"

definition demo_auth :: "nat AuthInterceptor" where
  "demo_auth = \<lparr>ai_config = demo_auth_config, ai_caCert = None, ai_keyStore = Some [(''k'', ''s'')], ai_seenRequests = [],
     ai_timestampCount = 0, ai_apiKeyEnabled = True, ai_stopped = False\<rparr>"

lemma demo_auth_new: "NewAuthInterceptor (demo_files True) demo_auth_config = Inr demo_auth"
  by (simp add: NewAuthInterceptor_def demo_auth_config_def demo_auth_def AddKey_def NewMemoryAPIKeyStore_def)

definition demo_sign :: "string \<Rightarrow> string \<Rightarrow> string" where
  "demo_sign secret message = secret @ message"

definition demo_history :: "auth_event list" where
  "demo_history = [ARequest (1000 * 10 ^ 9) \<lparr>am_ApiKey = ''k'', am_Timestamp = 999, am_Signature = ''sk999m''\<rparr> ''m'',
     ACleanup (1001 * 10 ^ 9),
     ARequest (1002 * 10 ^ 9) \<lparr>am_ApiKey = ''k'', am_Timestamp = 999, am_Signature = ''sk999m''\<rparr> ''m'']"

lemma cleanup_shrinks: "length (ai_seenRequests (cleanupOldTimestamps visit now a)) \<le> length (ai_seenRequests a)"
  by (auto simp: cleanupOldTimestamps_def Let_def intro: le_trans [OF length_filter_le])

lemma validate_grows:
  "validateAPIKeyAuth sign now a m meth = Inr (r, a') \<Longrightarrow> length (ai_seenRequests a') \<le> Suc (length (ai_seenRequests a))"
  using validateAPIKeyAuth_cases by fastforce

text \<open>A history of at most as many events as the limit keeps it.\<close>

lemma limit_kept_short: "length (ai_seenRequests a) + length es \<le> maxTimestampMapSize \<Longrightarrow> limit_kept visit sign es a"
proof (induction es arbitrary: a)
  case (Cons e es)
  show ?case
  proof (cases e)
    case (ARequest t m meth)
    have "limit_kept visit sign es a1" if "validateAPIKeyAuth sign t a m meth = Inr (r, a1)" for r a1
      using Cons.IH [of a1] Cons.prems validate_grows [OF that] by simp
    then show ?thesis using ARequest by (auto split: sum.splits)
  next
    case (ACleanup t)
    then show ?thesis using Cons.IH [of "cleanupOldTimestamps visit t a"] Cons.prems cleanup_shrinks [of visit t a] by simp
  qed
qed simp

lemma demo_history_limit: "limit_kept id demo_sign demo_history demo_auth"
  by (rule limit_kept_short) (simp add: demo_history_def demo_auth_def maxTimestampMapSize_def)

theorem no_replay_witness:
  "auth_run id demo_sign demo_history demo_auth \<noteq> Inl NilDereference
   \<and> (\<exists>acc a'. auth_run id demo_sign demo_history demo_auth = Inr (acc, a') \<and> distinct acc)"
proof -
  have "sorted (map event_time demo_history)" by (simp add: demo_history_def)
  from no_replay [OF _ demo_history_limit this] show ?thesis by (force simp: demo_auth_def)
qed

section \<open>The gate\<close>

text \<open>Where the API-key path is enabled there is a key store.\<close>

definition auth_inv :: "'x AuthInterceptor \<Rightarrow> bool" where
  "auth_inv a \<longleftrightarrow> (ai_apiKeyEnabled a \<longrightarrow> ai_keyStore a \<noteq> None)"

lemma auth_inv_New: "NewAuthInterceptor L config = Inr a \<Longrightarrow> auth_inv a"
  by (auto simp: NewAuthInterceptor_def auth_inv_def Let_def split: if_splits option.splits)

lemma auth_inv_cleanup: "auth_inv a \<Longrightarrow> auth_inv (cleanupOldTimestamps visit now a)"
  by (simp add: auth_inv_def)

lemma auth_Unary_total:
  assumes "auth_inv a"
  shows "\<exists>r a'. auth_Unary L T sign now a ctx auth meth = Inr (r, a') \<and> auth_inv a'"
proof -
  have "auth_inv a'" if "validateAPIKeyAuth sign now a m meth = Inr (r, a')" for m r a'
    using validateAPIKeyAuth_cases [OF that] assms by (auto simp: auth_inv_def)
  moreover have "\<exists>r a'. validateAPIKeyAuth sign now a m meth = Inr (r, a')" if "ai_apiKeyEnabled a" for m
    using validateAPIKeyAuth_total assms that unfolding auth_inv_def by blast
  ultimately show ?thesis using assms by (force simp: auth_Unary_def split: option.splits)
qed

lemma authenticate_iff:
  "authenticate L T now a ctx = None \<longleftrightarrow>
     (ac_EnableMTLS (ai_config a) \<and> validateMTLS L a ctx = None)
     \<or> (ac_EnableTokenAuth (ai_config a) \<and> validateToken T now a ctx = None)
     \<or> (\<not> ac_EnableMTLS (ai_config a) \<and> \<not> ac_EnableTokenAuth (ai_config a))"
  by (auto simp: authenticate_def)

lemma token_ok_iff:
  "validateToken T now a ctx = None \<longleftrightarrow>
     (\<exists>md token rest claims. cx_md ctx = Some md \<and> md_Get md ''authorization'' = (''Bearer '' @ token) # rest
        \<and> jwt_alg T token = Some True \<and> jwt_verify T now token (ac_JWTSecretKey (ai_config a)) = Some (claims, True)
        \<and> (\<forall>t. tk_ExpiresAt claims = Some t \<longrightarrow> now \<le> t) \<and> tk_NodeID claims \<noteq> [])"
  by (auto simp: validateToken_def HasPrefix_iff Let_def not_less split: option.splits list.splits if_splits prod.splits)



text \<open>C31: what \<open>GenerateAPIKeyToken\<close> produces is let through within five minutes, once.\<close>

theorem GenerateAPIKeyToken_accepted:
  assumes "ai_keyStore a = Some s" and "GetSecret s k = secret" and "secret \<noteq> []" and "k \<noteq> []"
    and "0 \<le> t" and "t < 2 ^ 62" and "t \<le> now" and "now \<le> t + 299 * 10 ^ 9"
    and "replay_key k (word_of_int (t div 10 ^ 9)) \<notin> set (ai_seenRequests a)"
  shows "\<exists>a'. validateAPIKeyAuth sign now a (GenerateAPIKeyToken sign t k secret meth) meth = Inr (None, a')
    \<and> validateAPIKeyAuth sign now a' (GenerateAPIKeyToken sign t k secret meth) meth
        = Inr (Some (unauthenticated ''replay attack detected''), a')"
proof -
  have "t div 10 ^ 9 < 2 ^ 62" "0 \<le> t div 10 ^ 9" using assms(5,6) by (simp_all add: pos_imp_zdiv_nonneg_iff div_less_dividend)
  then have "time_Unix (word_of_int (t div 10 ^ 9)) = t div 10 ^ 9 * 10 ^ 9" by (simp add: time_Unix_word)
  moreover have "t < t div 10 ^ 9 * 10 ^ 9 + 10 ^ 9" by (simp add: minus_mod_eq_div_mult [symmetric])
  ultimately have "\<not> now - time_Unix (word_of_int (t div 10 ^ 9)) > maxRequestAge"
    using assms(8) by (simp add: maxRequestAge_def)
  then show ?thesis using assms(1-4,9)
    by (simp add: validateAPIKeyAuth_def GenerateAPIKeyToken_def computeSignature_def Let_def)
qed

theorem GenerateAPIKeyToken_accepted_witness:
  "\<exists>a'. validateAPIKeyAuth demo_sign (1000 * 10 ^ 9) demo_auth (GenerateAPIKeyToken demo_sign (999 * 10 ^ 9) ''k'' ''s'' ''m'') ''m'' = Inr (None, a')
    \<and> validateAPIKeyAuth demo_sign (1000 * 10 ^ 9) a' (GenerateAPIKeyToken demo_sign (999 * 10 ^ 9) ''k'' ''s'' ''m'') ''m''
        = Inr (Some (unauthenticated ''replay attack detected''), a')"
  by (rule GenerateAPIKeyToken_accepted [where s = "[(''k'', ''s'')]"]) (simp_all add: demo_auth_def GetSecret_def)

end
