(* ===== verification/Grpc_RateLimit.thy ===== *)
theory Grpc_RateLimit
  imports Complex_Main Grpc_Context
begin

text \<open>
  \<open>src/internal/grpc/ratelimit.go\<close>: the interceptor with a global and per-client limiters, the choice of the
  client's identity, and the token bucket. The limiter of \<open>golang.org/x/time/rate\<close> is the record
  \<open>rate_lib\<close> with states \<open>'l\<close>; the textual forms of addresses are the record \<open>addr_lib\<close>. The token bucket's
  \<open>float64\<close> values are reals, without rounding. Times are nanoseconds.
\<close>

section \<open>Trusted proxies\<close>

record IPNet =
  net_IP :: ip
  net_Mask :: bytes

record addr_lib =
  ParseCIDR :: "string \<Rightarrow> IPNet option"
  ParseIP :: "string \<Rightarrow> ip option"
  IP_String :: "ip \<Rightarrow> string"
  SplitHostPort :: "string \<Rightarrow> (string \<times> string) option"

text \<open>\<open>IP.To4\<close>: an address of 4 bytes, or of 16 with the prefix of a mapped IPv4 address.\<close>

definition To4 :: "ip \<Rightarrow> ip option" where
  "To4 p = (if length p = 4 then Some p
     else if length p = 16 \<and> take 12 p = replicate 10 0 @ [255, 255] then Some (drop 12 p) else None)"

text \<open>\<open>IPNet.Contains\<close>: the address and the network in the same family, equal under the mask.\<close>

definition net_Contains :: "IPNet \<Rightarrow> ip \<Rightarrow> bool" where
  "net_Contains n p =
     (let nn = (case To4 (net_IP n) of None \<Rightarrow> net_IP n | Some q \<Rightarrow> q);
          m = (if length (net_Mask n) = 16 \<and> length nn = 4 then drop 12 (net_Mask n) else net_Mask n);
          x = (case To4 p of None \<Rightarrow> p | Some q \<Rightarrow> q)
      in if (length nn = 4 \<or> length nn = 16) \<and> length m = length nn
         then length x = length nn \<and> list_all (\<lambda>(a, b, c). a AND b = c AND b) (zip nn (zip m x))
         else x = [])"

definition default_ranges :: "string list" where
  "default_ranges = [''127.0.0.0/8'', ''::1/128'', ''10.0.0.0/8'', ''172.16.0.0/12'', ''192.168.0.0/16'',
     ''fc00::/7'', ''fe80::/10'']"

definition proxy_net :: "addr_lib \<Rightarrow> string \<Rightarrow> IPNet option" where
  "proxy_net N proxy =
     (if str_Contains proxy ''/'' then ParseCIDR N proxy
      else case ParseIP N proxy of
        None \<Rightarrow> None
      | Some p \<Rightarrow> if To4 p \<noteq> None then ParseCIDR N (proxy @ ''/32'') else ParseCIDR N (proxy @ ''/128''))"

definition initTrustedProxies :: "addr_lib \<Rightarrow> string list \<Rightarrow> IPNet list" where
  "initTrustedProxies N TrustedProxies =
     (if TrustedProxies = [] then List.map_filter (ParseCIDR N) default_ranges
      else List.map_filter (proxy_net N) TrustedProxies)"

definition isTrustedProxy :: "IPNet list \<Rightarrow> ip \<Rightarrow> bool" where
  "isTrustedProxy nets p = list_ex (\<lambda>n. net_Contains n p) nets"

section \<open>The client's identity\<close>

definition peer_IP :: "'x ctx \<Rightarrow> ip option" where
  "peer_IP ctx = (case cx_peer ctx of None \<Rightarrow> None | Some p \<Rightarrow> pe_ip p)"

definition trusted_peer :: "IPNet list \<Rightarrow> ip option \<Rightarrow> bool" where
  "trusted_peer nets peerIP = (case peerIP of None \<Rightarrow> False | Some p \<Rightarrow> isTrustedProxy nets p)"

text \<open>The identity from the headers, which only a trusted peer may set.\<close>

definition forwarded_id :: "IPNet list \<Rightarrow> ip option \<Rightarrow> (string \<times> string list) list option \<Rightarrow> string option" where
  "forwarded_id nets peerIP mdo = (case mdo of
      None \<Rightarrow> None
    | Some md \<Rightarrow>
        (case md_Get md ''x-forwarded-for'' of
           xff # _ \<Rightarrow> if trusted_peer nets peerIP then Some (TrimSpace (hd (split_on (CHR '','') xff)))
             else None
         | [] \<Rightarrow> (case md_Get md ''x-real-ip'' of
             xri # _ \<Rightarrow> if trusted_peer nets peerIP then Some xri else None
           | [] \<Rightarrow> None)))"

definition getClientID :: "addr_lib \<Rightarrow> IPNet list \<Rightarrow> 'x ctx \<Rightarrow> string" where
  "getClientID N nets ctx = (case forwarded_id nets (peer_IP ctx) (cx_md ctx) of
      Some s \<Rightarrow> s
    | None \<Rightarrow> (case peer_IP ctx of
        Some p \<Rightarrow> IP_String N p
      | None \<Rightarrow> (case cx_peer ctx of Some p \<Rightarrow> pe_addr p | None \<Rightarrow> ''unknown'')))"

definition GetClientIP :: "addr_lib \<Rightarrow> IPNet list \<Rightarrow> 'x ctx \<Rightarrow> string" where
  "GetClientIP N nets ctx = (case forwarded_id nets (peer_IP ctx) (cx_md ctx) of
      Some s \<Rightarrow> s
    | None \<Rightarrow> (case peer_IP ctx of
        Some p \<Rightarrow> IP_String N p
      | None \<Rightarrow> (case cx_peer ctx of Some p \<Rightarrow> pe_addr p | None \<Rightarrow> '''')))"

text \<open>The HTTP request: its remote address and the first values of its headers (empty if absent).\<close>

record http_request =
  hr_RemoteAddr :: string
  hr_XForwardedFor :: string
  hr_XRealIP :: string

definition GetClientHTTP :: "addr_lib \<Rightarrow> IPNet list \<Rightarrow> http_request \<Rightarrow> string" where
  "GetClientHTTP N nets r =
     (let remoteIP = (case SplitHostPort N (hr_RemoteAddr r) of None \<Rightarrow> hr_RemoteAddr r | Some (h, p) \<Rightarrow> h);
          p = ParseIP N remoteIP
      in if hr_XForwardedFor r \<noteq> '''' \<and> trusted_peer nets p then TrimSpace (hd (split_on (CHR '','') (hr_XForwardedFor r)))
         else if hr_XRealIP r \<noteq> '''' \<and> trusted_peer nets p then hr_XRealIP r
         else remoteIP)"

section \<open>The interceptor\<close>

record 'l rate_lib =
  rate_NewLimiter :: "int \<Rightarrow> int \<Rightarrow> 'l"
  rate_Allow :: "int \<Rightarrow> 'l \<Rightarrow> bool \<times> 'l"

record RateLimitConfig =
  rc_RequestsPerSecond :: int
  rc_BurstSize :: int
  rc_PerClientRPS :: int
  rc_PerClientBurst :: int
  rc_EnablePerClient :: bool

record 'l RateLimitInterceptor =
  ri_globalLimiter :: 'l
  ri_clientLimiters :: "string \<rightharpoonup> 'l"
  ri_clientLastSeen :: "string \<rightharpoonup> int"
  ri_stopped :: bool
  ri_rps :: int
  ri_burstSize :: int
  ri_perClientRPS :: int
  ri_perClientBurst :: int
  ri_enablePerClient :: bool

definition positive_or :: "int \<Rightarrow> int \<Rightarrow> int" where
  "positive_or x d = (if x \<le> 0 then d else x)"

definition NewRateLimitInterceptorWithConfig :: "'l rate_lib \<Rightarrow> RateLimitConfig \<Rightarrow> 'l RateLimitInterceptor" where
  "NewRateLimitInterceptorWithConfig R config =
     (let rps = positive_or (rc_RequestsPerSecond config) 100; burst = positive_or (rc_BurstSize config) 200;
          crps = positive_or (rc_PerClientRPS config) 20; cburst = positive_or (rc_PerClientBurst config) 40
      in \<lparr>ri_globalLimiter = rate_NewLimiter R rps burst, ri_clientLimiters = Map.empty, ri_clientLastSeen = Map.empty,
          ri_stopped = False, ri_rps = rps, ri_burstSize = burst, ri_perClientRPS = crps, ri_perClientBurst = cburst,
          ri_enablePerClient = rc_EnablePerClient config\<rparr>)"

definition NewRateLimitInterceptor :: "'l rate_lib \<Rightarrow> int \<Rightarrow> int \<Rightarrow> 'l RateLimitInterceptor" where
  "NewRateLimitInterceptor R requestsPerSecond burstSize =
     NewRateLimitInterceptorWithConfig R \<lparr>rc_RequestsPerSecond = requestsPerSecond, rc_BurstSize = burstSize,
       rc_PerClientRPS = 20, rc_PerClientBurst = 40, rc_EnablePerClient = False\<rparr>"

definition rate_Stop :: "'l RateLimitInterceptor \<Rightarrow> 'l RateLimitInterceptor" where
  "rate_Stop r = r\<lparr>ri_stopped := True\<rparr>"

definition clientLimiterTimeout :: int where "clientLimiterTimeout = 10 * 60 * 10 ^ 9"

definition cleanupInactiveClients :: "int \<Rightarrow> 'l RateLimitInterceptor \<Rightarrow> 'l RateLimitInterceptor" where
  "cleanupInactiveClients now r =
     (let inactive = (\<lambda>c. case ri_clientLastSeen r c of None \<Rightarrow> False | Some t \<Rightarrow> t < now - clientLimiterTimeout)
      in r\<lparr>ri_clientLimiters := (\<lambda>c. if inactive c then None else ri_clientLimiters r c),
           ri_clientLastSeen := (\<lambda>c. if inactive c then None else ri_clientLastSeen r c)\<rparr>)"

datatype limiter_event = LimiterTick int | LimiterStop

fun rate_periodicCleanup :: "limiter_event list \<Rightarrow> 'l RateLimitInterceptor \<Rightarrow> bool \<times> 'l RateLimitInterceptor" where
  "rate_periodicCleanup [] r = (False, r)"
| "rate_periodicCleanup (LimiterTick now # es) r = rate_periodicCleanup es (cleanupInactiveClients now r)"
| "rate_periodicCleanup (LimiterStop # es) r = (True, r)"

definition allowClient :: "'l rate_lib \<Rightarrow> int \<Rightarrow> string \<Rightarrow> 'l RateLimitInterceptor \<Rightarrow> bool \<times> 'l RateLimitInterceptor" where
  "allowClient R now clientID r =
     (let limiter = (case ri_clientLimiters r clientID of
            None \<Rightarrow> rate_NewLimiter R (ri_perClientRPS r) (ri_perClientBurst r) | Some l \<Rightarrow> l);
          (ok, limiter1) = rate_Allow R now limiter
      in (ok, r\<lparr>ri_clientLimiters := (ri_clientLimiters r)(clientID \<mapsto> limiter1),
                ri_clientLastSeen := (ri_clientLastSeen r)(clientID \<mapsto> now)\<rparr>))"

definition rate_Unary ::
  "'l rate_lib \<Rightarrow> addr_lib \<Rightarrow> IPNet list \<Rightarrow> int \<Rightarrow> 'x ctx \<Rightarrow> 'l RateLimitInterceptor \<Rightarrow> status option \<times> 'l RateLimitInterceptor" where
  "rate_Unary R N nets now ctx r =
     (let (ok, g) = rate_Allow R now (ri_globalLimiter r); r1 = r\<lparr>ri_globalLimiter := g\<rparr> in
      if \<not> ok then (Some (exhausted ''global rate limit exceeded''), r1)
      else if \<not> ri_enablePerClient r then (None, r1)
      else let clientID = getClientID N nets ctx in
      if clientID = '''' then (None, r1)
      else let (cok, r2) = allowClient R now clientID r1 in
      if cok then (None, r2)
      else (Some (exhausted (''per-client rate limit exceeded for '' @ clientID)), r2))"

text \<open>The stream interceptor makes the same checks on the stream's context.\<close>

definition rate_Stream ::
  "'l rate_lib \<Rightarrow> addr_lib \<Rightarrow> IPNet list \<Rightarrow> int \<Rightarrow> 'x ctx \<Rightarrow> 'l RateLimitInterceptor \<Rightarrow> status option \<times> 'l RateLimitInterceptor" where
  "rate_Stream R N nets now ctx r = rate_Unary R N nets now ctx r"

section \<open>The token bucket\<close>

record TokenBucketLimiter =
  tb_tokens :: real
  tb_maxTokens :: real
  tb_refillRate :: real
  tb_lastRefill :: int

definition NewTokenBucketLimiter :: "int \<Rightarrow> real \<Rightarrow> real \<Rightarrow> TokenBucketLimiter" where
  "NewTokenBucketLimiter now ratePerSecond burstSize =
     \<lparr>tb_tokens = burstSize, tb_maxTokens = burstSize, tb_refillRate = ratePerSecond, tb_lastRefill = now\<rparr>"

definition seconds :: "int \<Rightarrow> real" where
  "seconds d = real_of_int d / 10 ^ 9"

definition go_min :: "real \<Rightarrow> real \<Rightarrow> real" where
  "go_min a b = (if a < b then a else b)"

definition tb_Tokens :: "int \<Rightarrow> TokenBucketLimiter \<Rightarrow> real" where
  "tb_Tokens now t = go_min (tb_maxTokens t) (tb_tokens t + seconds (now - tb_lastRefill t) * tb_refillRate t)"

definition tb_Allow :: "int \<Rightarrow> TokenBucketLimiter \<Rightarrow> bool \<times> TokenBucketLimiter" where
  "tb_Allow now t =
     (let tokens = go_min (tb_maxTokens t) (tb_tokens t + seconds (now - tb_lastRefill t) * tb_refillRate t) in
      if tokens \<ge> 1 then (True, t\<lparr>tb_tokens := tokens - 1, tb_lastRefill := now\<rparr>)
      else (False, t\<lparr>tb_tokens := tokens, tb_lastRefill := now\<rparr>))"

text \<open>\<open>Wait\<close> over the events its \<open>select\<close> receives: the timer, with the time of the next attempt, or the end of
  the context with its error. The outer option is \<open>None\<close> while it still waits.\<close>

datatype token_event = TimeAfter int | CtxDone string

fun tb_Wait :: "int \<Rightarrow> token_event list \<Rightarrow> TokenBucketLimiter \<Rightarrow> string option option \<times> TokenBucketLimiter" where
  "tb_Wait now es t =
     (let (ok, t1) = tb_Allow now t in
      if ok then (Some None, t1)
      else (case es of
          [] \<Rightarrow> (None, t1)
        | TimeAfter now1 # es1 \<Rightarrow> tb_Wait now1 es1 t1
        | CtxDone err # es1 \<Rightarrow> (Some (Some err), t1)))"

declare tb_Wait.simps [simp del]

section \<open>The bound of the token bucket\<close>

definition tb_inv :: "TokenBucketLimiter \<Rightarrow> bool" where
  "tb_inv t \<longleftrightarrow> 0 \<le> tb_tokens t \<and> tb_tokens t \<le> tb_maxTokens t \<and> 0 \<le> tb_refillRate t"

lemma seconds_nonneg: "0 \<le> d \<Longrightarrow> 0 \<le> seconds d"
  by (simp add: seconds_def)

lemma seconds_add: "seconds (a + b) = seconds a + seconds b"
  by (simp add: seconds_def add_divide_distrib)

lemma tb_inv_New: "0 \<le> burst \<Longrightarrow> 0 \<le> rate \<Longrightarrow> tb_inv (NewTokenBucketLimiter now rate burst)"
  by (simp add: tb_inv_def NewTokenBucketLimiter_def)

text \<open>A call keeps the configuration, sets the time of the last refill, keeps the invariant, and adds at most
  what the elapsed time refills.\<close>

lemma tb_Allow_step:
  assumes "tb_inv t" and "tb_lastRefill t \<le> now" and "tb_Allow now t = (ok, t1)"
  shows "tb_inv t1" and "tb_lastRefill t1 = now" and "tb_refillRate t1 = tb_refillRate t"
    and "tb_maxTokens t1 = tb_maxTokens t"
    and "(if ok then 1 else 0) + tb_tokens t1 \<le> tb_tokens t + seconds (now - tb_lastRefill t) * tb_refillRate t"
proof -
  have "0 \<le> seconds (now - tb_lastRefill t) * tb_refillRate t"
    using assms(1,2) by (simp add: tb_inv_def seconds_nonneg)
  then show "tb_inv t1" using assms by (auto simp: tb_Allow_def tb_inv_def go_min_def Let_def split: if_splits)
qed (use assms(3) in \<open>auto simp: tb_Allow_def go_min_def Let_def split: if_splits\<close>)

fun tb_run :: "int list \<Rightarrow> TokenBucketLimiter \<Rightarrow> nat \<times> TokenBucketLimiter" where
  "tb_run [] t = (0, t)"
| "tb_run (now # nows) t = (let (ok, t1) = tb_Allow now t; (n, t2) = tb_run nows t1 in (if ok then Suc n else n, t2))"

lemma tb_run_bound:
  assumes "tb_inv t" and "sorted (tb_lastRefill t # nows)" and "tb_run nows t = (n, t')"
  shows "tb_inv t' \<and> real n + tb_tokens t' \<le> tb_tokens t + seconds (last (tb_lastRefill t # nows) - tb_lastRefill t) * tb_refillRate t"
  using assms
proof (induction nows arbitrary: t n t')
  case (Cons now nows)
  obtain ok t1 where s: "tb_Allow now t = (ok, t1)" by fastforce
  obtain m t2 where r: "tb_run nows t1 = (m, t2)" by fastforce
  note step = tb_Allow_step [OF Cons.prems(1) _ s]
  have le: "tb_lastRefill t \<le> now" using Cons.prems(2) by simp
  let ?e = "last (now # nows)"
  have ih: "tb_inv t2 \<and> real m + tb_tokens t2 \<le> tb_tokens t1 + seconds (?e - now) * tb_refillRate t"
    using Cons.IH [OF _ _ r] step [OF le] Cons.prems(2) by simp
  have "seconds (?e - tb_lastRefill t) = seconds (?e - now) + seconds (now - tb_lastRefill t)"
    using seconds_add [of "?e - now" "now - tb_lastRefill t"] by simp
  then have "seconds (?e - tb_lastRefill t) * tb_refillRate t
      = seconds (?e - now) * tb_refillRate t + seconds (now - tb_lastRefill t) * tb_refillRate t"
    by (simp add: distrib_right)
  with ih step(5) [OF le] Cons.prems(3) show ?case by (auto simp: s r split: if_splits)
qed (simp add: seconds_def)



section \<open>Waiting for a token\<close>

lemma tb_Wait_tokens:
  assumes "tb_inv t" and "1 \<le> tb_maxTokens t" and "tb_lastRefill t \<le> now"
    and "successively (\<lambda>a b. a + 10 ^ 7 \<le> b) (now # nows)"
    and "1 \<le> tb_tokens t + seconds (now - tb_lastRefill t) * tb_refillRate t + real (length nows) * (tb_refillRate t / 100)"
  shows "fst (tb_Wait now (map TimeAfter nows) t) = Some None"
  using assms
proof (induction nows arbitrary: now t)
  case Nil
  then show ?case by (subst tb_Wait.simps) (simp add: tb_Allow_def go_min_def)
next
  case (Cons now1 nows)
  obtain ok t1 where s: "tb_Allow now t = (ok, t1)" by fastforce
  show ?case
  proof (cases ok)
    case True
    then show ?thesis by (subst tb_Wait.simps) (simp add: s)
  next
    case False
    note step = tb_Allow_step [OF Cons.prems(1,3) s]
    have tok: "tb_tokens t1 = tb_tokens t + seconds (now - tb_lastRefill t) * tb_refillRate t"
      using s False Cons.prems(2) by (auto simp: tb_Allow_def go_min_def Let_def split: if_splits)
    have gap: "now + 10 ^ 7 \<le> now1" using Cons.prems(4) by simp
    then have "1 / 100 \<le> seconds (now1 - now)" by (simp add: seconds_def)
    then have "tb_refillRate t / 100 \<le> seconds (now1 - now) * tb_refillRate t"
      using mult_right_mono [of "1 / 100" "seconds (now1 - now)" "tb_refillRate t"] Cons.prems(1) by (simp add: tb_inv_def)
    then have "1 \<le> tb_tokens t1 + seconds (now1 - tb_lastRefill t1) * tb_refillRate t1 + real (length nows) * (tb_refillRate t1 / 100)"
    proof -
      have "real (length (now1 # nows)) * (tb_refillRate t / 100) = tb_refillRate t / 100 + real (length nows) * (tb_refillRate t / 100)"
        by (simp add: distrib_right)
      then have "1 \<le> tb_tokens t1 + tb_refillRate t / 100 + real (length nows) * (tb_refillRate t / 100)"
        using Cons.prems(5) tok by linarith
      with \<open>tb_refillRate t / 100 \<le> seconds (now1 - now) * tb_refillRate t\<close> show ?thesis
        unfolding step(2,3) by linarith
    qed
    then have "fst (tb_Wait now1 (map TimeAfter nows) t1) = Some None"
      using Cons.IH [OF step(1), of now1] Cons.prems(2,4) step gap by simp
    then show ?thesis using False by (subst tb_Wait.simps) (simp add: s)
  qed
qed



section \<open>Clients\<close>

text \<open>The headers of a peer that is not a trusted proxy have no influence on its identity.\<close>

lemma getClientID_unspoofed:
  assumes "\<not> trusted_peer nets (peer_IP ctx)"
  shows "getClientID N nets (ctx\<lparr>cx_md := md\<rparr>) = getClientID N nets ctx"
    and "GetClientIP N nets (ctx\<lparr>cx_md := md\<rparr>) = GetClientIP N nets ctx"
proof -
  have "forwarded_id nets (peer_IP ctx) m = None" for m
    using assms by (auto simp: forwarded_id_def split: option.splits list.splits)
  then show "getClientID N nets (ctx\<lparr>cx_md := md\<rparr>) = getClientID N nets ctx"
    "GetClientIP N nets (ctx\<lparr>cx_md := md\<rparr>) = GetClientIP N nets ctx"
    by (simp_all add: getClientID_def GetClientIP_def peer_IP_def split: option.splits)
qed

text \<open>The calls of \<open>allowClient\<close> in order, and one limiter on its own.\<close>

fun allow_run :: "'l rate_lib \<Rightarrow> (int \<times> string) list \<Rightarrow> 'l RateLimitInterceptor \<Rightarrow> (string \<times> bool) list \<times> 'l RateLimitInterceptor" where
  "allow_run R [] r = ([], r)"
| "allow_run R ((now, c) # cs) r = (let (ok, r1) = allowClient R now c r; (oks, r2) = allow_run R cs r1 in ((c, ok) # oks, r2))"

fun limiter_run :: "'l rate_lib \<Rightarrow> int list \<Rightarrow> 'l \<Rightarrow> bool list" where
  "limiter_run R [] l = []"
| "limiter_run R (now # nows) l = (let (ok, l1) = rate_Allow R now l in ok # limiter_run R nows l1)"

definition client_limiter :: "'l rate_lib \<Rightarrow> 'l RateLimitInterceptor \<Rightarrow> string \<Rightarrow> 'l" where
  "client_limiter R r c = (case ri_clientLimiters r c of
     None \<Rightarrow> rate_NewLimiter R (ri_perClientRPS r) (ri_perClientBurst r) | Some l \<Rightarrow> l)"

lemma allowClient_limiter:
  assumes "allowClient R now c r = (ok, r1)"
  shows "rate_Allow R now (client_limiter R r c) = (ok, client_limiter R r1 c)"
    and "d \<noteq> c \<Longrightarrow> client_limiter R r1 d = client_limiter R r d"
  using assms by (auto simp: allowClient_def client_limiter_def Let_def split: prod.splits option.splits)

text \<open>C28: clients do not affect each other: whatever the limiter library, the answers a client gets are those of one
  limiter that sees this client's calls only.\<close>

theorem per_client_isolated:
  "map snd (filter (\<lambda>a. fst a = c) (fst (allow_run R calls r)))
   = limiter_run R (map fst (filter (\<lambda>a. snd a = c) calls)) (client_limiter R r c)"
proof (induction calls arbitrary: r)
  case (Cons call calls)
  obtain now d where call: "call = (now, d)" by fastforce
  obtain ok r1 where s: "allowClient R now d r = (ok, r1)" by fastforce
  obtain oks r2 where r: "allow_run R calls r1 = (oks, r2)" by fastforce
  from Cons.IH [of r1] allowClient_limiter [OF s] show ?case by (auto simp: call s r)
qed simp

end
