(* ===== verification/Audit_Logger.thy ===== *)
theory Audit_Logger
  imports Raft_Log Go_Files
begin

text \<open>
  \<open>src/internal/audit/events.go\<close> and \<open>logger.go\<close>: audit events, the queue and its writer, rotation and
  cleanup of the log files, and the masking of sensitive values. The log directory is a \<open>dir\<close>;
  \<open>marshal\<close> is \<open>json.Marshal\<close> of an event and \<open>stamp\<close> the time in the format \<open>20060102_150405\<close>. The output
  of \<open>log.Printf\<close> is not modelled.
\<close>

section \<open>Events\<close>

record AuditEvent =
  ev_Timestamp :: int
  ev_Time :: int
  ev_EventType :: string
  ev_Severity :: string
  ev_ClientIP :: string
  ev_UserID :: string
  ev_Method :: string
  ev_Result :: string
  ev_Reason :: string
  ev_Metadata :: "(string \<times> state_val) list"
  ev_RequestID :: string

text \<open>The text of the time is kept as the time it prints.\<close>

definition NewAuditEvent :: "int \<Rightarrow> string \<Rightarrow> string \<Rightarrow> AuditEvent" where
  "NewAuditEvent now eventType severity =
     \<lparr>ev_Timestamp = now div 10 ^ 6, ev_Time = now, ev_EventType = eventType, ev_Severity = severity, ev_ClientIP = '''',
      ev_UserID = '''', ev_Method = '''', ev_Result = '''', ev_Reason = '''', ev_Metadata = [], ev_RequestID = ''''\<rparr>"

definition WithClientIP :: "string \<Rightarrow> AuditEvent \<Rightarrow> AuditEvent" where "WithClientIP v e = e\<lparr>ev_ClientIP := v\<rparr>"
definition WithUserID :: "string \<Rightarrow> AuditEvent \<Rightarrow> AuditEvent" where "WithUserID v e = e\<lparr>ev_UserID := v\<rparr>"
definition WithMethod :: "string \<Rightarrow> AuditEvent \<Rightarrow> AuditEvent" where "WithMethod v e = e\<lparr>ev_Method := v\<rparr>"
definition WithResult :: "string \<Rightarrow> AuditEvent \<Rightarrow> AuditEvent" where "WithResult v e = e\<lparr>ev_Result := v\<rparr>"
definition WithReason :: "string \<Rightarrow> AuditEvent \<Rightarrow> AuditEvent" where "WithReason v e = e\<lparr>ev_Reason := v\<rparr>"
definition WithRequestID :: "string \<Rightarrow> AuditEvent \<Rightarrow> AuditEvent" where "WithRequestID v e = e\<lparr>ev_RequestID := v\<rparr>"

definition WithMetadata :: "string \<Rightarrow> state_val \<Rightarrow> AuditEvent \<Rightarrow> AuditEvent" where
  "WithMetadata key v e = e\<lparr>ev_Metadata := (key, v) # filter (\<lambda>p. fst p \<noteq> key) (ev_Metadata e)\<rparr>"

definition GetDefaultSeverity :: "string \<Rightarrow> string" where
  "GetDefaultSeverity eventType =
     (if eventType = ''auth.success'' then ''INFO''
      else if eventType = ''auth.failure'' then ''WARNING''
      else if eventType = ''ratelimit.violated'' then ''WARNING''
      else if eventType \<in> set [''permission.changed'', ''permission.granted'', ''permission.revoked''] then ''WARNING''
      else if eventType \<in> set [''config.modified'', ''config.created'', ''config.deleted''] then ''WARNING''
      else if eventType \<in> set [''system.start'', ''system.restart''] then ''INFO''
      else if eventType = ''system.stop'' then ''WARNING''
      else ''INFO'')"

section \<open>Masking\<close>

definition SanitizeValue :: "string \<Rightarrow> string" where
  "SanitizeValue v =
     (if length v = 0 then v
      else if length v \<le> 4 then replicate (length v) (CHR ''*'')
      else replicate (length v - 4) (CHR ''*'') @ drop (length v - 4) v)"

definition SanitizeAPIKey :: "string \<Rightarrow> string" where
  "SanitizeAPIKey k =
     (if length k = 0 then k
      else if length k \<le> 8 then replicate (length k) (CHR ''*'')
      else take 4 k @ replicate (length k - 8) (CHR ''*'') @ drop (length k - 4) k)"

definition SanitizeConfigValue :: "state_val \<Rightarrow> state_val" where
  "SanitizeConfigValue v = (case v of
      SvString s \<Rightarrow>
        let lower = ToLower s in
        if str_Contains lower ''secret'' \<or> str_Contains lower ''password'' \<or> str_Contains lower ''token'' \<or> str_Contains lower ''key''
        then SvString (SanitizeValue s) else SvString s
    | _ \<Rightarrow> v)"

section \<open>The logger\<close>

record LoggerConfig =
  lc_LogDir :: string
  lc_MaxFileSize :: int
  lc_MaxAge :: int
  lc_BufferSize :: int
  lc_FlushInterval :: int
  lc_EnableConsole :: bool
  lc_CompressionEnabled :: bool

text \<open>The current file is the name it was opened under and whether the handle is open. The encoder writes to a
  file or to a writer set from outside. \<open>lg_done\<close> is that both goroutines have returned.\<close>

datatype json_encoder = FileEncoder string | WriterEncoder

record Logger =
  lg_config :: LoggerConfig
  lg_logChan :: "AuditEvent list"
  lg_currentFile :: "(string \<times> bool) option"
  lg_currentSize :: int
  lg_currentPath :: string
  lg_encoder :: "json_encoder option"
  lg_stopped :: bool
  lg_done :: bool

datatype audit_error =
    AuditMkdir | AuditOpen | AuditNotInitialized | AuditRename | AuditReopen | AuditMarshal | AuditWrite | AuditTimeout
  | AuditClose | AuditReadDir

definition log_name :: "(int \<Rightarrow> string) \<Rightarrow> int \<Rightarrow> string" where
  "log_name stamp now = ''audit_'' @ stamp now @ ''.log''"

text \<open>Opening a file for appending, creating it if it is not there.\<close>

definition open_append :: "disk_env \<Rightarrow> string \<Rightarrow> dir \<Rightarrow> dir option" where
  "open_append env name d =
     (if de_fails env (OpOpen name) then None
      else (case map_of d name of
          None \<Rightarrow> Some (dir_put name (plain_file [] (de_now env)) d)
        | Some f \<Rightarrow> if fl_isdir f then None else Some d))"

definition close_current :: "Logger \<Rightarrow> Logger" where
  "close_current l = l\<lparr>lg_currentFile := map_option (\<lambda>(n, b). (n, False)) (lg_currentFile l)\<rparr>"

definition openLogFile :: "(int \<Rightarrow> string) \<Rightarrow> disk_env \<Rightarrow> Logger \<Rightarrow> dir \<Rightarrow> audit_error option \<times> Logger \<times> dir" where
  "openLogFile stamp env l d =
     (let l1 = close_current l; logPath = log_name stamp (de_now env) in
      (case open_append env logPath d of
         None \<Rightarrow> (Some AuditOpen, l1, d)
       | Some d1 \<Rightarrow> (None, l1\<lparr>lg_currentFile := Some (logPath, True), lg_currentPath := logPath, lg_currentSize := 0,
           lg_encoder := Some (FileEncoder logPath)\<rparr>, d1)))"

definition positive_default :: "int \<Rightarrow> int \<Rightarrow> int" where
  "positive_default x d = (if x \<le> 0 then d else x)"

definition NewLogger :: "(int \<Rightarrow> string) \<Rightarrow> disk_env \<Rightarrow> LoggerConfig \<Rightarrow> dir \<Rightarrow> (audit_error + Logger) \<times> dir" where
  "NewLogger stamp env config0 d =
     (let config = config0\<lparr>
            lc_LogDir := (if lc_LogDir config0 = '''' then ''logs/audit'' else lc_LogDir config0),
            lc_MaxFileSize := positive_default (lc_MaxFileSize config0) (10 * 1024 * 1024),
            lc_MaxAge := positive_default (lc_MaxAge config0) (30 * 24 * 3600 * 10 ^ 9),
            lc_BufferSize := positive_default (lc_BufferSize config0) 1000,
            lc_FlushInterval := positive_default (lc_FlushInterval config0) (5 * 10 ^ 9)\<rparr>;
          logger = \<lparr>lg_config = config, lg_logChan = [], lg_currentFile = None, lg_currentSize = 0, lg_currentPath = '''',
            lg_encoder = None, lg_stopped = False, lg_done = False\<rparr>
      in if de_fails env OpMkdir then (Inl AuditMkdir, d)
         else (case openLogFile stamp env logger d of
             (Some e, l, d1) \<Rightarrow> (Inl e, d1)
           | (None, l, d1) \<Rightarrow> (Inr l, d1)))"

text \<open>The global logger: \<open>initOnce\<close> runs once, also when it fails.\<close>

record audit_global =
  ag_logger :: "Logger option"
  ag_initDone :: bool

definition InitWithConfig :: "(int \<Rightarrow> string) \<Rightarrow> disk_env \<Rightarrow> LoggerConfig \<Rightarrow> audit_global \<Rightarrow> dir \<Rightarrow> audit_error option \<times> audit_global \<times> dir" where
  "InitWithConfig stamp env config g d =
     (if ag_initDone g then (None, g, d)
      else (case NewLogger stamp env config d of
          (Inl e, d1) \<Rightarrow> (Some e, g\<lparr>ag_initDone := True\<rparr>, d1)
        | (Inr l, d1) \<Rightarrow> (None, g\<lparr>ag_initDone := True, ag_logger := Some l\<rparr>, d1)))"

definition audit_Init :: "(int \<Rightarrow> string) \<Rightarrow> disk_env \<Rightarrow> audit_global \<Rightarrow> dir \<Rightarrow> audit_error option \<times> audit_global \<times> dir" where
  "audit_Init stamp env g d = InitWithConfig stamp env
     \<lparr>lc_LogDir = ''logs/audit'', lc_MaxFileSize = 10 * 1024 * 1024, lc_MaxAge = 30 * 24 * 3600 * 10 ^ 9, lc_BufferSize = 1000,
      lc_FlushInterval = 5 * 10 ^ 9, lc_EnableConsole = False, lc_CompressionEnabled = False\<rparr> g d"

definition GetLogger :: "audit_global \<Rightarrow> Logger option" where
  "GetLogger g = ag_logger g"

definition rotateLog :: "(int \<Rightarrow> string) \<Rightarrow> disk_env \<Rightarrow> Logger \<Rightarrow> dir \<Rightarrow> audit_error option \<times> Logger \<times> dir" where
  "rotateLog stamp env l d =
     (let l1 = close_current l; rotatedPath = log_name stamp (de_now env); currentPath = lg_currentPath l in
      if map_of d currentPath = None \<or> de_fails env (OpRename currentPath rotatedPath) then (Some AuditRename, l1, d)
      else let d1 = os_Rename currentPath rotatedPath d in
      (case open_append env currentPath d1 of
         None \<Rightarrow> (Some AuditReopen, l1, d1)
       | Some d2 \<Rightarrow> (None, l1\<lparr>lg_currentFile := Some (currentPath, True), lg_currentSize := 0,
           lg_encoder := Some (FileEncoder currentPath)\<rparr>, d2)))"

text \<open>Writing through the handle: a closed handle fails; a file that has been removed takes the bytes with it.\<close>

definition handle_write :: "disk_env \<Rightarrow> string \<times> bool \<Rightarrow> bytes \<Rightarrow> dir \<Rightarrow> bool \<times> dir" where
  "handle_write env h data d =
     (case h of (name, is_open) \<Rightarrow>
        if \<not> is_open then (False, d)
        else let written = (if de_fails env (OpWrite name) then take (de_short env) data else data) in
        (\<not> de_fails env (OpWrite name),
         (case map_of d name of
            None \<Rightarrow> d
          | Some f \<Rightarrow> dir_put name (f\<lparr>fl_data := fl_data f @ written, fl_mtime := de_now env\<rparr>) d)))"

definition writeEvent ::
  "(AuditEvent \<Rightarrow> bytes option) \<Rightarrow> (int \<Rightarrow> string) \<Rightarrow> disk_env \<Rightarrow> AuditEvent \<Rightarrow> Logger \<Rightarrow> dir
    \<Rightarrow> audit_error option \<times> Logger \<times> dir" where
  "writeEvent marshal stamp env event l d =
     (if lg_currentFile l = None \<or> lg_encoder l = None then (Some AuditNotInitialized, l, d)
      else let (err, l1, d1) = (if lg_currentSize l \<ge> lc_MaxFileSize (lg_config l) then rotateLog stamp env l d else (None, l, d)) in
      if err \<noteq> None then (err, l1, d1)
      else (case marshal event of
          None \<Rightarrow> (Some AuditMarshal, l1, d1)
        | Some eventJSON \<Rightarrow>
            let data = eventJSON @ [10]; (ok, d2) = handle_write env (the (lg_currentFile l1)) data d1 in
            if \<not> ok then (Some AuditWrite, l1, d2)
            else (None, l1\<lparr>lg_currentSize := lg_currentSize l1 + int (length data)\<rparr>, d2)))"

definition performCleanup :: "disk_env \<Rightarrow> Logger \<Rightarrow> dir \<Rightarrow> dir" where
  "performCleanup env l d =
     (let cutoff = de_now env - lc_MaxAge (lg_config l) in
      if de_fails env OpReadDir then d
      else foldl (\<lambda>d' (name, f).
          if fl_isdir f \<or> \<not> HasPrefix name ''audit_'' then d'
          else if de_fails env (OpStat name) then d'
          else if fl_mtime f < cutoff \<and> \<not> de_fails env (OpRemove name) then dir_remove name d' else d') d (ReadDir d))"

text \<open>\<open>Log\<close>: a full buffer drops the event. \<open>LogSync\<close> writes at once.\<close>

definition audit_Log :: "AuditEvent option \<Rightarrow> Logger option \<Rightarrow> Logger option" where
  "audit_Log event lo = (case (lo, event) of
      (Some l, Some e) \<Rightarrow> Some (if int (length (lg_logChan l)) < lc_BufferSize (lg_config l) then l\<lparr>lg_logChan := lg_logChan l @ [e]\<rparr> else l)
    | _ \<Rightarrow> lo)"

definition LogSync ::
  "(AuditEvent \<Rightarrow> bytes option) \<Rightarrow> (int \<Rightarrow> string) \<Rightarrow> disk_env \<Rightarrow> AuditEvent option \<Rightarrow> Logger option \<Rightarrow> dir
    \<Rightarrow> audit_error option \<times> Logger option \<times> dir" where
  "LogSync marshal stamp env event lo d = (case (lo, event) of
      (Some l, Some e) \<Rightarrow> (case writeEvent marshal stamp env e l d of (err, l1, d1) \<Rightarrow> (err, Some l1, d1))
    | _ \<Rightarrow> (None, lo, d))"

text \<open>The writer over what its \<open>select\<close> receives, each with the environment of the writes it makes. On the stop
  it drains the queue; the flag is that it has returned.\<close>

datatype writer_event = WriterReceive disk_env | WriterFlush | WriterStop "nat \<Rightarrow> disk_env"

fun write_all ::
  "(AuditEvent \<Rightarrow> bytes option) \<Rightarrow> (int \<Rightarrow> string) \<Rightarrow> (nat \<Rightarrow> disk_env) \<Rightarrow> AuditEvent list \<Rightarrow> Logger \<Rightarrow> dir \<Rightarrow> Logger \<times> dir" where
  "write_all marshal stamp envs [] l d = (l, d)"
| "write_all marshal stamp envs (e # es) l d =
     (case writeEvent marshal stamp (envs 0) e l d of (err, l1, d1) \<Rightarrow> write_all marshal stamp (\<lambda>i. envs (Suc i)) es l1 d1)"

fun asyncWriter ::
  "(AuditEvent \<Rightarrow> bytes option) \<Rightarrow> (int \<Rightarrow> string) \<Rightarrow> writer_event list \<Rightarrow> Logger \<Rightarrow> dir \<Rightarrow> bool \<times> Logger \<times> dir" where
  "asyncWriter marshal stamp [] l d = (False, l, d)"
| "asyncWriter marshal stamp (WriterReceive env # ws) l d =
     (case lg_logChan l of
        [] \<Rightarrow> asyncWriter marshal stamp ws l d
      | e # q \<Rightarrow> (case writeEvent marshal stamp env e (l\<lparr>lg_logChan := q\<rparr>) d of
          (err, l1, d1) \<Rightarrow> asyncWriter marshal stamp ws l1 d1))"
| "asyncWriter marshal stamp (WriterFlush # ws) l d = asyncWriter marshal stamp ws l d"
| "asyncWriter marshal stamp (WriterStop envs # ws) l d =
     (case write_all marshal stamp envs (lg_logChan l) (l\<lparr>lg_logChan := []\<rparr>) d of (l1, d1) \<Rightarrow> (True, l1, d1))"

datatype cleaner_event = CleanerTick disk_env | CleanerStop disk_env

fun cleanupOldLogs :: "cleaner_event list \<Rightarrow> Logger \<Rightarrow> dir \<Rightarrow> bool \<times> dir" where
  "cleanupOldLogs [] l d = (False, d)"
| "cleanupOldLogs (CleanerTick env # es) l d = cleanupOldLogs es l (performCleanup env l d)"
| "cleanupOldLogs (CleanerStop env # es) l d = (True, performCleanup env l d)"

text \<open>The last steps of the two goroutines once the stop channel is closed, in either order.\<close>

definition run_goroutines ::
  "(AuditEvent \<Rightarrow> bytes option) \<Rightarrow> (int \<Rightarrow> string) \<Rightarrow> bool \<Rightarrow> (nat \<Rightarrow> disk_env) \<Rightarrow> disk_env \<Rightarrow> Logger \<Rightarrow> dir \<Rightarrow> Logger \<times> dir" where
  "run_goroutines marshal stamp writer_first envs cenv l d =
     (if lg_done l then (l, d)
      else if writer_first then
        (case asyncWriter marshal stamp [WriterStop envs] l d of (b, l1, d1) \<Rightarrow>
           (l1\<lparr>lg_done := True\<rparr>, snd (cleanupOldLogs [CleanerStop cenv] l1 d1)))
      else (case asyncWriter marshal stamp [WriterStop envs] l (snd (cleanupOldLogs [CleanerStop cenv] l d)) of
          (b, l1, d1) \<Rightarrow> (l1\<lparr>lg_done := True\<rparr>, d1)))"

text \<open>\<open>Close\<close>: \<open>finished\<close> is that both goroutines end within ten seconds; otherwise they are still running when it
  returns the timeout.\<close>

definition audit_Close ::
  "(AuditEvent \<Rightarrow> bytes option) \<Rightarrow> (int \<Rightarrow> string) \<Rightarrow> bool \<Rightarrow> bool \<Rightarrow> (nat \<Rightarrow> disk_env) \<Rightarrow> disk_env \<Rightarrow> Logger option \<Rightarrow> dir
    \<Rightarrow> audit_error option \<times> Logger option \<times> dir" where
  "audit_Close marshal stamp finished writer_first envs cenv lo d = (case lo of
      None \<Rightarrow> (None, None, d)
    | Some l \<Rightarrow>
        let l0 = l\<lparr>lg_stopped := True\<rparr> in
        if \<not> finished then (Some AuditTimeout, Some l0, d)
        else (case run_goroutines marshal stamp writer_first envs cenv l0 d of (l1, d1) \<Rightarrow>
          (case lg_currentFile l1 of
             None \<Rightarrow> (None, Some l1, d1)
           | Some (name, is_open) \<Rightarrow>
               (if \<not> is_open \<or> de_fails cenv (OpClose name) then Some AuditClose else None, Some (close_current l1), d1))))"

definition SetLogWriter :: "Logger \<Rightarrow> Logger" where
  "SetLogWriter l = (if lg_encoder l \<noteq> None then l\<lparr>lg_encoder := Some WriterEncoder\<rparr> else l)"

section \<open>The helpers on the global logger\<close>

definition LogAuthSuccess :: "int \<Rightarrow> string \<Rightarrow> string \<Rightarrow> string \<Rightarrow> Logger option \<Rightarrow> Logger option" where
  "LogAuthSuccess now clientIP userID method g =
     audit_Log (Some (WithReason ''Authentication successful'' (WithResult ''success'' (WithMethod method (WithUserID userID
       (WithClientIP clientIP (NewAuditEvent now ''auth.success'' ''INFO''))))))) g"

definition LogAuthFailure :: "int \<Rightarrow> string \<Rightarrow> string \<Rightarrow> string \<Rightarrow> string \<Rightarrow> Logger option \<Rightarrow> Logger option" where
  "LogAuthFailure now clientIP userID method reason g =
     audit_Log (Some (WithReason reason (WithResult ''failure'' (WithMethod method (WithUserID (SanitizeValue userID)
       (WithClientIP clientIP (NewAuditEvent now ''auth.failure'' ''WARNING''))))))) g"

definition LogRateLimitViolation :: "int \<Rightarrow> string \<Rightarrow> string \<Rightarrow> string \<Rightarrow> Logger option \<Rightarrow> Logger option" where
  "LogRateLimitViolation now clientIP userID method g =
     audit_Log (Some (WithReason ''Rate limit exceeded'' (WithResult ''violation'' (WithMethod method (WithUserID userID
       (WithClientIP clientIP (NewAuditEvent now ''ratelimit.violated'' ''WARNING''))))))) g"

definition LogPermissionChange :: "int \<Rightarrow> string \<Rightarrow> string \<Rightarrow> string \<Rightarrow> string \<Rightarrow> string \<Rightarrow> Logger option \<Rightarrow> Logger option" where
  "LogPermissionChange now clientIP userID action targetUser permission g =
     audit_Log (Some (WithMetadata ''permission'' (SvString permission) (WithMetadata ''target_user'' (SvString (SanitizeValue targetUser))
       (WithMetadata ''action'' (SvString action) (WithReason (''Permission '' @ action @ '' for user '' @ targetUser)
       (WithResult ''changed'' (WithUserID userID (WithClientIP clientIP (NewAuditEvent now ''permission.changed'' ''WARNING''))))))))) g"

definition LogConfigChange :: "int \<Rightarrow> string \<Rightarrow> string \<Rightarrow> string \<Rightarrow> state_val \<Rightarrow> state_val \<Rightarrow> Logger option \<Rightarrow> Logger option" where
  "LogConfigChange now clientIP userID configKey oldValue newValue g =
     audit_Log (Some (WithMetadata ''new_value'' (SanitizeConfigValue newValue) (WithMetadata ''old_value'' (SanitizeConfigValue oldValue)
       (WithMetadata ''config_key'' (SvString configKey) (WithReason (''Configuration key '' @ configKey @ '' modified'')
       (WithResult ''modified'' (WithUserID userID (WithClientIP clientIP (NewAuditEvent now ''config.modified'' ''WARNING''))))))))) g"

definition GetLogFiles :: "disk_env \<Rightarrow> string \<Rightarrow> dir \<Rightarrow> audit_error + string list" where
  "GetLogFiles env logDir d =
     (if de_fails env OpReadDir then Inl AuditReadDir
      else Inr (sort (map (\<lambda>e. (if logDir = '''' then ''logs/audit'' else logDir) @ ''/'' @ fst e)
        (filter (\<lambda>e. \<not> fl_isdir (snd e) \<and> HasPrefix (fst e) ''audit_'') (ReadDir d)))))"

section \<open>The lines of the log\<close>

fun lines_from :: "bytes \<Rightarrow> bytes \<Rightarrow> bytes list" where
  "lines_from acc [] = []"
| "lines_from acc (b # bs) = (if b = 10 then acc # lines_from [] bs else lines_from (acc @ [b]) bs)"

definition log_lines :: "bytes \<Rightarrow> bytes list" where
  "log_lines data = lines_from [] data"

definition terminated :: "bytes \<Rightarrow> bool" where
  "terminated data \<longleftrightarrow> data = [] \<or> last data = 10"

lemma lines_from_line: "10 \<notin> set j \<Longrightarrow> lines_from acc (j @ 10 # rest) = (acc @ j) # lines_from [] rest"
  by (induction j arbitrary: acc) auto

lemma lines_from_terminated: "lines_from acc ((a @ [10]) @ b) = lines_from acc (a @ [10]) @ lines_from [] b"
  by (induction a arbitrary: acc) auto

lemma log_lines_append: "terminated a \<Longrightarrow> log_lines (a @ b) = log_lines a @ log_lines b"
  unfolding terminated_def log_lines_def
  by (metis append_butlast_last_id append_Nil lines_from.simps(1) lines_from_terminated)

lemma log_lines_record: "terminated a \<Longrightarrow> 10 \<notin> set j \<Longrightarrow> log_lines (a @ j @ [10]) = log_lines a @ [j]"
  using lines_from_line [of j "[]" "[]"] by (simp add: log_lines_append) (simp add: log_lines_def)

text \<open>All lines of the files of the directory.\<close>

definition dir_lines :: "dir \<Rightarrow> bytes multiset" where
  "dir_lines d = sum_list (map (\<lambda>e. mset (log_lines (fl_data (snd e)))) d)"

definition file_lines :: "dir \<Rightarrow> string \<Rightarrow> bytes multiset" where
  "file_lines d name = (case map_of d name of None \<Rightarrow> {#} | Some f \<Rightarrow> mset (log_lines (fl_data f)))"

lemma dir_lines_split: "distinct (map fst d) \<Longrightarrow> dir_lines d = file_lines d name + dir_lines (dir_remove name d)"
proof (induction d)
  case (Cons e d)
  have "dir_remove name d = d" if "fst e = name"
    using that Cons.prems by (auto simp: dir_remove_def filter_id_conv image_iff)
  moreover have "file_lines d name = {#}" if "fst e = name"
  proof -
    have "map_of d name = None" using that Cons.prems by (simp add: map_of_eq_None_iff)
    then show ?thesis by (simp add: file_lines_def)
  qed
  ultimately show ?case using Cons
    by (cases "fst e = name") (auto simp: dir_lines_def file_lines_def dir_remove_def)
qed (simp add: dir_lines_def file_lines_def dir_remove_def)

lemma dir_lines_put: "dir_lines (dir_put name f d) = mset (log_lines (fl_data f)) + dir_lines (dir_remove name d)"
  by (simp add: dir_lines_def dir_put_def dir_remove_def)

lemma dir_remove_remove: "map_of d name = None \<Longrightarrow> dir_remove name d = d"
  by (auto simp: dir_remove_def map_of_eq_None_iff filter_id_conv image_iff)

text \<open>A logger that is ready to write: its handle is open on the current path, and every file ends with a line.\<close>

definition logger_ready :: "Logger \<Rightarrow> dir \<Rightarrow> bool" where
  "logger_ready l d \<longleftrightarrow> distinct (map fst d) \<and> lg_encoder l \<noteq> None \<and> lg_currentFile l = Some (lg_currentPath l, True)
     \<and> (\<exists>f. map_of d (lg_currentPath l) = Some f \<and> \<not> fl_isdir f)
     \<and> (\<forall>n f. map_of d n = Some f \<longrightarrow> terminated (fl_data f))"

definition healthy :: "disk_env \<Rightarrow> bool" where
  "healthy env \<longleftrightarrow> (\<forall>op. \<not> de_fails env op)"

definition json_lines :: "(AuditEvent \<Rightarrow> bytes option) \<Rightarrow> bool" where
  "json_lines marshal \<longleftrightarrow> (\<forall>e. \<exists>j. marshal e = Some j \<and> 10 \<notin> set j)"

definition needs_rotation :: "Logger \<Rightarrow> bool" where
  "needs_rotation l \<longleftrightarrow> lg_currentSize l \<ge> lc_MaxFileSize (lg_config l)"

text \<open>What the rotation replaces: the file that already has the name of the rotated one.\<close>

lemma rotate_lines:
  assumes "logger_ready l d" and "healthy env" and "rotateLog stamp env l d = (err, l1, d1)"
  defines "name \<equiv> log_name stamp (de_now env)"
  shows "err = None" and "logger_ready l1 d1" and "lg_config l1 = lg_config l" and "lg_logChan l1 = lg_logChan l"
    and "dir_lines d1 + (if name = lg_currentPath l then {#} else file_lines d name) = dir_lines d"
proof -
  let ?c = "lg_currentPath l"
  obtain f where f: "map_of d ?c = Some f" "\<not> fl_isdir f" using assms(1) by (auto simp: logger_ready_def)
  have dist: "distinct (map fst d)" using assms(1) by (simp add: logger_ready_def)
  let ?d = "os_Rename ?c name d"
  have ren: "?d = dir_put name f (dir_remove ?c d)" using f by (simp add: os_Rename_def)
  have mo: "map_of ?d n = (if n = name then Some f else if n = ?c then None else map_of d n)" for n by (simp add: ren)
  have op: "open_append env ?c ?d = Some d1" and l1: "err = None"
    "l1 = (close_current l)\<lparr>lg_currentFile := Some (?c, True), lg_currentSize := 0, lg_encoder := Some (FileEncoder ?c)\<rparr>"
    using assms(2,3) f mo by (auto simp: rotateLog_def Let_def healthy_def name_def [symmetric] open_append_def split: option.splits if_splits)
  have d1: "d1 = (if name = ?c then ?d else dir_put ?c (plain_file [] (de_now env)) ?d)"
    using op f mo assms(2) by (auto simp: open_append_def healthy_def split: if_splits option.splits)
  show "err = None" using l1 by simp
  show "lg_config l1 = lg_config l" "lg_logChan l1 = lg_logChan l" using l1 by (simp_all add: close_current_def)
  have ld: "distinct (map fst ?d)" using dist by (simp add: ren)
  have md: "map_of d1 n = (if n = ?c \<and> name \<noteq> ?c then Some (plain_file [] (de_now env)) else map_of ?d n)" for n by (simp add: d1)
  have old: "terminated (fl_data g)" if "map_of d n = Some g" for n g using assms(1) that unfolding logger_ready_def by blast
  then have "terminated (fl_data g)" if "map_of d1 n = Some g" for n g
    using that old [OF f(1)] unfolding md mo by (auto simp: terminated_def plain_file_def split: if_splits)
  moreover have "\<exists>g. map_of d1 ?c = Some g \<and> \<not> fl_isdir g" using f(2) unfolding md mo by (simp add: plain_file_def)
  moreover have "distinct (map fst d1)" using ld unfolding d1 by (auto split: if_splits)
  ultimately show "logger_ready l1 d1" unfolding logger_ready_def using l1(2) by (simp add: close_current_def)
  have "dir_lines ?d = mset (log_lines (fl_data f)) + dir_lines (dir_remove name (dir_remove ?c d))"
    by (simp add: ren dir_lines_put)
  moreover have "dir_lines d = mset (log_lines (fl_data f)) + dir_lines (dir_remove ?c d)"
    using dir_lines_split [OF dist, of ?c] f by (simp add: file_lines_def)
  moreover have "dir_lines (dir_remove ?c d) = file_lines (dir_remove ?c d) name + dir_lines (dir_remove name (dir_remove ?c d))"
    using dist by (simp add: dir_lines_split)
  moreover have "file_lines (dir_remove ?c d) name = (if name = ?c then {#} else file_lines d name)" by (simp add: file_lines_def)
  moreover have "dir_lines d1 = dir_lines ?d"
    using mo by (auto simp: d1 dir_lines_put plain_file_def log_lines_def dir_remove_remove)
  ultimately show "dir_lines d1 + (if name = ?c then {#} else file_lines d name) = dir_lines d"
    by (simp add: ac_simps)
qed

text \<open>A write adds its line; if it rotates, the file that already has the rotated name is lost.\<close>

definition lost_lines :: "(int \<Rightarrow> string) \<Rightarrow> disk_env \<Rightarrow> Logger \<Rightarrow> dir \<Rightarrow> bytes multiset" where
  "lost_lines stamp env l d =
     (let name = log_name stamp (de_now env) in
      if needs_rotation l \<and> name \<noteq> lg_currentPath l then file_lines d name else {#})"

lemma handle_write_lines:
  assumes "logger_ready l d" and "healthy env" and "10 \<notin> set j"
    and "handle_write env (lg_currentPath l, True) (j @ [10]) d = (ok, d1)"
  shows "ok" and "logger_ready l d1" and "dir_lines d1 = dir_lines d + {#j#}"
proof -
  let ?c = "lg_currentPath l"
  obtain f where f: "map_of d ?c = Some f" "\<not> fl_isdir f" using assms(1) by (auto simp: logger_ready_def)
  have dist: "distinct (map fst d)" using assms(1) by (simp add: logger_ready_def)
  have tf: "terminated (fl_data g)" if "map_of d n = Some g" for n g using assms(1) that unfolding logger_ready_def by blast
  define g where "g = f\<lparr>fl_data := fl_data f @ j @ [10], fl_mtime := de_now env\<rparr>"
  have d1: "ok" "d1 = dir_put ?c g d" using assms(2,4) f by (auto simp: handle_write_def healthy_def g_def)
  have "terminated (fl_data g)" by (simp add: g_def terminated_def)
  then have "terminated (fl_data h)" if "map_of d1 n = Some h" for n h
    using that tf unfolding d1(2) map_of_dir_put by (auto split: if_splits)
  moreover have "\<exists>h. map_of d1 ?c = Some h \<and> \<not> fl_isdir h" using f by (simp add: d1 g_def)
  moreover have "distinct (map fst d1)" using dist by (simp add: d1)
  ultimately show "logger_ready l d1" using assms(1) unfolding logger_ready_def by simp
  show "ok" by (rule d1)
  show "dir_lines d1 = dir_lines d + {#j#}"
    using dir_lines_split [OF dist, of ?c] log_lines_record [OF tf [OF f(1)] assms(3)] f
    by (simp add: d1 dir_lines_put g_def file_lines_def)
qed

lemma logger_ready_size: "logger_ready (l\<lparr>lg_currentSize := n\<rparr>) d = logger_ready l d"
  by (simp add: logger_ready_def)

lemma writeEvent_lines:
  assumes "logger_ready l d" and "healthy env" and "marshal e = Some j" and "10 \<notin> set j"
    and "writeEvent marshal stamp env e l d = (err, l', d')"
  shows "err = None" and "logger_ready l' d'" and "lg_config l' = lg_config l" and "lg_logChan l' = lg_logChan l"
    and "dir_lines d' + lost_lines stamp env l d = dir_lines d + {#j#}"
proof -
  obtain er l1 d1 where r: "(if needs_rotation l then rotateLog stamp env l d else (None, l, d)) = (er, l1, d1)"
    by (cases "if needs_rotation l then rotateLog stamp env l d else (None, l, d)") auto
  have one: "er = None \<and> logger_ready l1 d1 \<and> lg_config l1 = lg_config l \<and> lg_logChan l1 = lg_logChan l
      \<and> dir_lines d1 + lost_lines stamp env l d = dir_lines d"
  proof (cases "needs_rotation l")
    case True
    with r have "rotateLog stamp env l d = (er, l1, d1)" by simp
    from rotate_lines [OF assms(1,2) this] True show ?thesis by (auto simp: lost_lines_def Let_def)
  next
    case False
    with r assms(1) show ?thesis by (simp add: lost_lines_def)
  qed
  then have cur: "lg_currentFile l1 = Some (lg_currentPath l1, True)" by (simp add: logger_ready_def)
  obtain ok d2 where h: "handle_write env (lg_currentPath l1, True) (j @ [10]) d1 = (ok, d2)" by fastforce
  note two = handle_write_lines [OF _ assms(2,4) h]
  have ok: "ok" using two(1) one by blast
  have "lg_currentFile l \<noteq> None" "lg_encoder l \<noteq> None" using assms(1) by (simp_all add: logger_ready_def)
  then have "writeEvent marshal stamp env e l d = (None, l1\<lparr>lg_currentSize := lg_currentSize l1 + int (length (j @ [10]))\<rparr>, d2)"
    using assms(3) one ok h cur unfolding writeEvent_def r [unfolded needs_rotation_def] by (simp add: Let_def)
  then have res: "err = None" "l' = l1\<lparr>lg_currentSize := lg_currentSize l1 + int (length (j @ [10]))\<rparr>" "d' = d2"
    using assms(5) by simp_all
  show "err = None" "lg_config l' = lg_config l" "lg_logChan l' = lg_logChan l" using res one by simp_all
  have "logger_ready l1 d2" using two(2) one by blast
  then show "logger_ready l' d'" by (simp add: logger_ready_size res)
  show "dir_lines d' + lost_lines stamp env l d = dir_lines d + {#j#}"
    using two(3) one res by (metis add.assoc add.commute)
qed

section \<open>The log is complete\<close>

text \<open>The steps of a logger on a healthy disk whose rotations find no file of the same name: events logged, events
  the writer takes from the queue, and events written at once. The last argument collects the events that were
  accepted.\<close>

inductive audit_reach ::
  "(AuditEvent \<Rightarrow> bytes option) \<Rightarrow> (int \<Rightarrow> string) \<Rightarrow> Logger \<Rightarrow> dir \<Rightarrow> Logger \<Rightarrow> dir \<Rightarrow> AuditEvent list \<Rightarrow> bool"
  for marshal stamp l0 d0 where
  reach_init: "audit_reach marshal stamp l0 d0 l0 d0 []"
| reach_log: "audit_reach marshal stamp l0 d0 l d acc \<Longrightarrow> audit_Log (Some e) (Some l) = Some l1 \<Longrightarrow>
    audit_reach marshal stamp l0 d0 l1 d (if lg_logChan l1 = lg_logChan l then acc else acc @ [e])"
| reach_receive: "audit_reach marshal stamp l0 d0 l d acc \<Longrightarrow> lg_logChan l \<noteq> [] \<Longrightarrow> healthy env \<Longrightarrow> lost_lines stamp env l d = {#} \<Longrightarrow>
    asyncWriter marshal stamp [WriterReceive env] l d = (b, l1, d1) \<Longrightarrow> audit_reach marshal stamp l0 d0 l1 d1 acc"
| reach_sync: "audit_reach marshal stamp l0 d0 l d acc \<Longrightarrow> healthy env \<Longrightarrow> lost_lines stamp env l d = {#} \<Longrightarrow>
    LogSync marshal stamp env (Some e) (Some l) d = (err, Some l1, d1) \<Longrightarrow> audit_reach marshal stamp l0 d0 l1 d1 (acc @ [e])"

definition event_lines :: "(AuditEvent \<Rightarrow> bytes option) \<Rightarrow> AuditEvent list \<Rightarrow> bytes multiset" where
  "event_lines marshal es = mset (map (the \<circ> marshal) es)"

lemma event_lines_simps [simp]:
  "event_lines marshal [] = {#}"
  "event_lines marshal (e # es) = {#the (marshal e)#} + event_lines marshal es"
  "event_lines marshal (es @ fs) = event_lines marshal es + event_lines marshal fs"
  by (simp_all add: event_lines_def)

lemma json_linesE: "json_lines marshal \<Longrightarrow> marshal e = Some (the (marshal e)) \<and> 10 \<notin> set (the (marshal e))"
  unfolding json_lines_def by (metis option.sel)

lemma logger_ready_queue: "logger_ready (l\<lparr>lg_logChan := q\<rparr>) d = logger_ready l d"
  by (simp add: logger_ready_def)

lemma lost_lines_queue: "lost_lines stamp env (l\<lparr>lg_logChan := q\<rparr>) d = lost_lines stamp env l d"
  by (simp add: lost_lines_def needs_rotation_def)


definition demo_env_at :: "int \<Rightarrow> disk_env" where
  "demo_env_at now = \<lparr>de_now = now, de_fails = (\<lambda>op. False), de_short = 0\<rparr>"

definition demo_event_json :: "AuditEvent \<Rightarrow> bytes option" where
  "demo_event_json e = Some (filter (\<lambda>b. b \<noteq> 10) (bytes_of_string (ev_EventType e)))"

definition demo_stamp :: "int \<Rightarrow> string" where
  "demo_stamp now = dec_int now"

definition demo_logger :: "string \<Rightarrow> int \<Rightarrow> Logger" where
  "demo_logger name sz = \<lparr>lg_config = \<lparr>lc_LogDir = ''logs'', lc_MaxFileSize = 1, lc_MaxAge = 1, lc_BufferSize = 2, lc_FlushInterval = 1,
     lc_EnableConsole = False, lc_CompressionEnabled = False\<rparr>, lg_logChan = [], lg_currentFile = Some (name, True), lg_currentSize = sz,
     lg_currentPath = name, lg_encoder = Some (FileEncoder name), lg_stopped = False, lg_done = False\<rparr>"

lemma demo_event_json_lines: "json_lines demo_event_json"
  by (simp add: json_lines_def demo_event_json_def)

lemma demo_healthy: "healthy (demo_env_at now)"
  by (simp add: healthy_def demo_env_at_def)


text \<open>A rotation whose name is already taken, as in a second rotation within one second, reports success and loses
  every line of the file that has the name.\<close>

theorem rotation_overwrites:
  assumes "logger_ready l d" and "healthy env" and "marshal e = Some j" and "10 \<notin> set j"
    and "needs_rotation l" and "log_name stamp (de_now env) \<noteq> lg_currentPath l"
    and "map_of d (log_name stamp (de_now env)) = Some f"
  shows "\<exists>l' d'. writeEvent marshal stamp env e l d = (None, l', d')
    \<and> dir_lines d' + mset (log_lines (fl_data f)) = dir_lines d + {#j#}"
proof -
  obtain err l' d' where w: "writeEvent marshal stamp env e l d = (err, l', d')" by (metis prod_cases3)
  from writeEvent_lines [OF assms(1-4) w] assms(5-7) show ?thesis
    by (auto simp: w lost_lines_def file_lines_def Let_def)
qed

theorem rotation_overwrites_witness:
  "\<exists>l' d'. writeEvent demo_event_json demo_stamp (demo_env_at 1) (NewAuditEvent 0 ''z'' ''INFO'') (demo_logger ''audit_0.log'' 2)
       [(''audit_0.log'', plain_file [121, 10] 1), (''audit_1.log'', plain_file [120, 10] 0)] = (None, l', d')
     \<and> dir_lines d' + {#[120]#} = {#[120], [121], [122]#}"
proof -
  let ?l = "demo_logger ''audit_0.log'' 2" let ?d = "[(''audit_0.log'', plain_file [121, 10] 1), (''audit_1.log'', plain_file [120, 10] 0)]"
  have n: "log_name demo_stamp (de_now (demo_env_at 1)) = ''audit_1.log''"
    by (simp add: log_name_def demo_stamp_def demo_env_at_def dec_int_def) (subst dec.simps, simp add: digit_char)
  have r: "logger_ready ?l ?d" by (simp add: logger_ready_def demo_logger_def plain_file_def terminated_def)
  have j: "demo_event_json (NewAuditEvent 0 ''z'' ''INFO'') = Some [122]" "(10 :: u8) \<notin> set [122]"
    by (simp_all add: demo_event_json_def NewAuditEvent_def bytes_of_string_def)
  have c: "needs_rotation ?l" "log_name demo_stamp (de_now (demo_env_at 1)) \<noteq> lg_currentPath ?l"
    "map_of ?d (log_name demo_stamp (de_now (demo_env_at 1))) = Some (plain_file [120, 10] 0)"
    unfolding n by (simp_all add: needs_rotation_def demo_logger_def)
  from rotation_overwrites [where marshal = demo_event_json and stamp = demo_stamp, OF r demo_healthy j c] show ?thesis
    by (simp add: dir_lines_def plain_file_def log_lines_def add_mset_commute)
qed

section \<open>What the log reveals\<close>

text \<open>Of a masked value the log shows its length and at most its last four characters, of an API key its length, and
  at most its first and last four; a value of at most four and a key of at most eight characters are hidden
  altogether.\<close>

lemma length_sanitized [simp]: "length (SanitizeValue v) = length v" "length (SanitizeAPIKey v) = length v"
  by (auto simp: SanitizeValue_def SanitizeAPIKey_def)

lemma SanitizeValue_eq:
  assumes "length v = length w"
  shows "SanitizeValue v = SanitizeValue w \<longleftrightarrow> length v \<le> 4 \<or> drop (length v - 4) v = drop (length w - 4) w"
  using assms by (cases "length v = 0"; cases "length v \<le> 4") (simp_all add: SanitizeValue_def)

lemma SanitizeAPIKey_eq:
  assumes "length v = length w"
  shows "SanitizeAPIKey v = SanitizeAPIKey w \<longleftrightarrow>
    length v \<le> 8 \<or> take 4 v = take 4 w \<and> drop (length v - 4) v = drop (length w - 4) w"
  using assms by (cases "length v = 0"; cases "length v \<le> 8") (simp_all add: SanitizeAPIKey_def)

theorem masking_hides:
  "length (SanitizeValue v) = length v
   \<and> (SanitizeValue v = SanitizeValue w \<longleftrightarrow>
        length v = length w \<and> (length v \<le> 4 \<or> drop (length v - 4) v = drop (length w - 4) w))
   \<and> length (SanitizeAPIKey v) = length v
   \<and> (SanitizeAPIKey v = SanitizeAPIKey w \<longleftrightarrow>
        length v = length w \<and> (length v \<le> 8 \<or> take 4 v = take 4 w \<and> drop (length v - 4) v = drop (length w - 4) w))"
proof -
  have v: "length v = length w" if "SanitizeValue v = SanitizeValue w" using arg_cong [OF that, of length] by simp
  have k: "length v = length w" if "SanitizeAPIKey v = SanitizeAPIKey w" using arg_cong [OF that, of length] by simp
  show ?thesis
  proof (cases "length v = length w")
    case True
    then show ?thesis using SanitizeValue_eq [OF True] SanitizeAPIKey_eq [OF True] by simp
  next
    case False
    then show ?thesis using v k by auto
  qed
qed

text \<open>Configuration values are judged by their own text, not by the name of the key: a password that does not
  contain one of the four words is logged as it is.\<close>

lemma config_password_logged:
  "\<exists>l e. LogConfigChange 0 ''ip'' ''admin'' ''db_password'' (SvString ''a'') (SvString ''hunter2'') (Some (demo_logger ''a'' 0)) = Some l
     \<and> lg_logChan l = [e] \<and> map_of (ev_Metadata e) ''new_value'' = Some (SvString ''hunter2'')"
proof -
  have "SanitizeConfigValue (SvString ''hunter2'') = SvString ''hunter2''" by code_simp
  then show ?thesis
    by (simp add: LogConfigChange_def audit_Log_def demo_logger_def WithMetadata_def WithReason_def WithResult_def WithUserID_def
        WithClientIP_def NewAuditEvent_def)
qed

end
