(* ===== verification/Grpc_Audit.thy ===== *)
theory Grpc_Audit
  imports Grpc_Auth Grpc_RateLimit Audit_Logger
begin

text \<open>
  \<open>src/internal/grpc/audit_interceptor.go\<close>: the interceptors that write audit events around a call, and the audit
  information of a context from \<open>src/internal/audit/logger.go\<close>. A handler maps a context and a state \<open>'s\<close> to an
  error or a response \<open>'r\<close> and the state after it; its errors are gRPC statuses. Of a request only its method
  \<open>GetAuth\<close> matters. The request identifier of the \<open>uuid\<close> package is an argument.
\<close>

section \<open>Audit information of a context\<close>

definition ContextWithAuditInfo :: "'x ctx \<Rightarrow> string \<Rightarrow> string \<Rightarrow> string \<Rightarrow> 'x ctx" where
  "ContextWithAuditInfo ctx requestID clientIP userID = ctx\<lparr>cx_audit := Some (requestID, clientIP, userID)\<rparr>"

definition GetAuditInfoFromContext :: "'x ctx \<Rightarrow> string \<times> string \<times> string" where
  "GetAuditInfoFromContext ctx = (case cx_audit ctx of None \<Rightarrow> ('''', '''', '''') | Some i \<Rightarrow> i)"

section \<open>Requests and handlers\<close>

text \<open>The method \<open>GetAuth\<close> of a request's type: there is none, it returns a pointer to \<open>APIMetadata\<close>, or it returns an
  \<open>interface{}\<close>, which may be nil, and which may have a method \<open>GetApiKey\<close>.\<close>

datatype get_auth = NoGetAuth | GetAuthMeta "APIMetadata option" | GetAuthIface "string option option"

type_synonym ('x, 'r, 's) handler = "'x ctx \<Rightarrow> 's \<Rightarrow> (status + 'r) \<times> 's"

definition api_metadata :: "get_auth \<Rightarrow> APIMetadata option" where
  "api_metadata g = (case g of GetAuthMeta m \<Rightarrow> m | _ \<Rightarrow> None)"

text \<open>\<open>Error\<close> of a status.\<close>

definition status_Error :: "status \<Rightarrow> string" where
  "status_Error st = ''rpc error: code = '' @ code_String (st_Code st) @ '' desc = '' @ st_Message st"

definition auth_call ::
  "('c, 'x) tls_lib \<Rightarrow> jwt_lib \<Rightarrow> (string \<Rightarrow> string \<Rightarrow> string) \<Rightarrow> int \<Rightarrow> 'x ctx \<Rightarrow> get_auth \<Rightarrow> string \<Rightarrow> ('x, 'r, 's) handler
    \<Rightarrow> 'x AuthInterceptor \<Rightarrow> 's \<Rightarrow> panic + ((status + 'r) \<times> 'x AuthInterceptor \<times> 's)" where
  "auth_call L T sign now ctx req method handler a s =
     go_bind (auth_Unary L T sign now a ctx (api_metadata req) method) (\<lambda>(err, a1).
       Inr (case err of
           Some e \<Rightarrow> (Inl e, a1, s)
         | None \<Rightarrow> (case handler ctx s of (r, s1) \<Rightarrow> (r, a1, s1))))"

definition rate_call ::
  "'l rate_lib \<Rightarrow> addr_lib \<Rightarrow> IPNet list \<Rightarrow> int \<Rightarrow> 'x ctx \<Rightarrow> ('x, 'r, 's) handler \<Rightarrow> 'l RateLimitInterceptor \<Rightarrow> 's
    \<Rightarrow> (status + 'r) \<times> 'l RateLimitInterceptor \<times> 's" where
  "rate_call R N nets now ctx handler rl s =
     (case rate_Unary R N nets now ctx rl of
        (Some e, rl1) \<Rightarrow> (Inl e, rl1, s)
      | (None, rl1) \<Rightarrow> (case handler ctx s of (r, s1) \<Rightarrow> (r, rl1, s1)))"

section \<open>AuditInterceptor\<close>

definition methodToEventType :: "string \<Rightarrow> string" where
  "methodToEventType method = ''rpc.'' @ method"

definition extractUserID :: "'x ctx \<Rightarrow> string" where
  "extractUserID ctx = (case cx_md ctx of
      None \<Rightarrow> ''''
    | Some md \<Rightarrow> (case md_Get md ''user-id'' of
        u # _ \<Rightarrow> u
      | [] \<Rightarrow> if md_Get md ''authorization'' \<noteq> [] then ''authenticated'' else ''''))"

definition logRPCEvent :: "int \<Rightarrow> string \<Rightarrow> string \<Rightarrow> string \<Rightarrow> string \<Rightarrow> int \<Rightarrow> status option \<Rightarrow> Logger option \<Rightarrow> Logger option" where
  "logRPCEvent now clientIP userID method result duration err logger =
     (if logger = None then None
      else let event = WithMetadata ''duration_ms'' (SvInt64 (duration div 10 ^ 6)) (WithResult result (WithMethod method
             (WithUserID userID (WithClientIP clientIP (NewAuditEvent now (methodToEventType method) ''INFO'')))));
               event1 = (case err of
                   None \<Rightarrow> event
                 | Some st \<Rightarrow> WithReason (st_Message st) (WithMetadata ''error_code'' (SvString (code_String (st_Code st))) event))
           in audit_Log (Some event1) logger)"

text \<open>The call: \<open>start\<close> and \<open>finish\<close> are the times before and after the handler.\<close>

definition audit_Unary ::
  "addr_lib \<Rightarrow> IPNet list \<Rightarrow> string \<Rightarrow> int \<Rightarrow> int \<Rightarrow> 'x ctx \<Rightarrow> string \<Rightarrow> ('x, 'r, 's) handler \<Rightarrow> Logger option \<Rightarrow> 's
    \<Rightarrow> (status + 'r) \<times> Logger option \<times> 's" where
  "audit_Unary N nets requestID start finish ctx method handler logger s =
     (let clientIP = GetClientIP N nets ctx; userID = extractUserID ctx;
          ctx1 = ContextWithAuditInfo ctx requestID clientIP userID;
          (r, s1) = handler ctx1 s;
          err = (case r of Inl e \<Rightarrow> Some e | Inr _ \<Rightarrow> None);
          result = (if err \<noteq> None then ''failure'' else ''success'')
      in (r, logRPCEvent finish clientIP userID method result (finish - start) err logger, s1))"

text \<open>The stream interceptor does the same around the handler of the stream, whose wrapped stream yields the new
  context.\<close>

definition audit_Stream ::
  "addr_lib \<Rightarrow> IPNet list \<Rightarrow> string \<Rightarrow> int \<Rightarrow> int \<Rightarrow> 'x ctx \<Rightarrow> string \<Rightarrow> ('x, unit, 's) handler \<Rightarrow> Logger option \<Rightarrow> 's
    \<Rightarrow> (status + unit) \<times> Logger option \<times> 's" where
  "audit_Stream N nets requestID start finish ctx method handler logger s =
     audit_Unary N nets requestID start finish ctx method handler logger s"

section \<open>AuditAuthInterceptor\<close>

definition extractAPIKey :: "get_auth \<Rightarrow> string" where
  "extractAPIKey req = (case req of GetAuthIface (Some (Some k)) \<Rightarrow> k | _ \<Rightarrow> '''')"

definition callAuthInterceptor ::
  "('c, 'x) tls_lib \<Rightarrow> jwt_lib \<Rightarrow> (string \<Rightarrow> string \<Rightarrow> string) \<Rightarrow> int \<Rightarrow> 'x ctx \<Rightarrow> get_auth \<Rightarrow> string \<Rightarrow> ('x, 'r, 's) handler
    \<Rightarrow> 'x AuthInterceptor option \<Rightarrow> 's \<Rightarrow> panic + ((status + 'r) \<times> 'x AuthInterceptor option \<times> 's)" where
  "callAuthInterceptor L T sign now ctx req method handler ao s = (case ao of
      None \<Rightarrow> Inr (case handler ctx s of (r, s1) \<Rightarrow> (r, None, s1))
    | Some a \<Rightarrow> go_bind (auth_call L T sign now ctx req method handler a s) (\<lambda>(r, a1, s1). Inr (r, Some a1, s1)))"

text \<open>The events go to the global logger, not to the one the interceptor was created with.\<close>

definition audit_auth_Unary ::
  "('c, 'x) tls_lib \<Rightarrow> jwt_lib \<Rightarrow> (string \<Rightarrow> string \<Rightarrow> string) \<Rightarrow> addr_lib \<Rightarrow> IPNet list \<Rightarrow> int \<Rightarrow> int \<Rightarrow> 'x ctx \<Rightarrow> get_auth \<Rightarrow> string
    \<Rightarrow> ('x, 'r, 's) handler \<Rightarrow> 'x AuthInterceptor option \<Rightarrow> Logger option \<Rightarrow> 's
    \<Rightarrow> panic + ((status + 'r) \<times> 'x AuthInterceptor option \<times> Logger option \<times> 's)" where
  "audit_auth_Unary L T sign N nets now finish ctx req method handler ao g s =
     (let clientIP = GetClientIP N nets ctx; apiKey = extractAPIKey req in
      go_bind (callAuthInterceptor L T sign now ctx req method handler ao s) (\<lambda>(r, ao1, s1).
        Inr (r, ao1,
             (case r of
                Inl e \<Rightarrow> LogAuthFailure finish clientIP (SanitizeAPIKey apiKey) method (status_Error e) g
              | Inr _ \<Rightarrow> LogAuthSuccess finish clientIP (SanitizeAPIKey apiKey) method g), s1)))"

section \<open>AuditRateLimitInterceptor\<close>

definition rate_extractUserID :: "'x ctx \<Rightarrow> string" where
  "rate_extractUserID ctx = (case GetAuditInfoFromContext ctx of (requestID, clientIP, userID) \<Rightarrow>
     if userID \<noteq> '''' then userID else if clientIP \<noteq> '''' then clientIP else '''')"

definition callRateLimitInterceptor ::
  "'l rate_lib \<Rightarrow> addr_lib \<Rightarrow> IPNet list \<Rightarrow> int \<Rightarrow> 'x ctx \<Rightarrow> ('x, 'r, 's) handler \<Rightarrow> 'l RateLimitInterceptor option \<Rightarrow> 's
    \<Rightarrow> (status + 'r) \<times> 'l RateLimitInterceptor option \<times> 's" where
  "callRateLimitInterceptor R N nets now ctx handler ro s = (case ro of
      None \<Rightarrow> (case handler ctx s of (r, s1) \<Rightarrow> (r, None, s1))
    | Some rl \<Rightarrow> (case rate_call R N nets now ctx handler rl s of (r, rl1, s1) \<Rightarrow> (r, Some rl1, s1)))"

definition audit_rate_Unary ::
  "'l rate_lib \<Rightarrow> addr_lib \<Rightarrow> IPNet list \<Rightarrow> int \<Rightarrow> int \<Rightarrow> 'x ctx \<Rightarrow> string \<Rightarrow> ('x, 'r, 's) handler \<Rightarrow> 'l RateLimitInterceptor option
    \<Rightarrow> Logger option \<Rightarrow> 's \<Rightarrow> (status + 'r) \<times> 'l RateLimitInterceptor option \<times> Logger option \<times> 's" where
  "audit_rate_Unary R N nets now finish ctx method handler ro g s =
     (let clientIP = GetClientIP N nets ctx; userID = rate_extractUserID ctx in
      (case callRateLimitInterceptor R N nets now ctx handler ro s of (r, ro1, s1) \<Rightarrow>
        (r, ro1,
         (case r of
            Inl e \<Rightarrow> if code_String (st_Code e) = ''ResourceExhausted'' then LogRateLimitViolation finish clientIP userID method g else g
          | Inr _ \<Rightarrow> g), s1)))"

section \<open>What the audit trail says\<close>

definition accepts :: "Logger \<Rightarrow> bool" where
  "accepts l \<longleftrightarrow> int (length (lg_logChan l)) < lc_BufferSize (lg_config l)"

lemma audit_Log_accepts: "accepts l \<Longrightarrow> audit_Log (Some e) (Some l) = Some (l\<lparr>lg_logChan := lg_logChan l @ [e]\<rparr>)"
  by (simp add: audit_Log_def accepts_def)


definition demo_addr :: addr_lib where
  "demo_addr = \<lparr>ParseCIDR = (\<lambda>_. None), ParseIP = (\<lambda>_. None), IP_String = (\<lambda>_. []), SplitHostPort = (\<lambda>_. None)\<rparr>"

definition demo_jwt :: jwt_lib where
  "demo_jwt = \<lparr>jwt_alg = (\<lambda>s. None), jwt_verify = (\<lambda>n s k. None), jwt_sign = (\<lambda>c k. None)\<rparr>"

definition demo_request :: get_auth where
  "demo_request = GetAuthMeta (Some \<lparr>am_ApiKey = ''k'', am_Timestamp = 999, am_Signature = ''bad''\<rparr>)"

definition demo_ctx :: "nat ctx" where
  "demo_ctx = \<lparr>cx_peer = None, cx_md = None, cx_audit = None\<rparr>"

definition demo_handler :: "(nat, unit, unit) handler" where
  "demo_handler c s = (Inr (), s)"


text \<open>The audited rate limit is transparent, and records a violation only for calls refused or answered as exhausted.\<close>

lemma audit_rate_transparent:
  "audit_rate_Unary R N nets now finish ctx method handler (Some rl) g s = (r, ro1, g1, s1) \<Longrightarrow>
     (\<exists>rl1. ro1 = Some rl1 \<and> rate_call R N nets now ctx handler rl s = (r, rl1, s1))
     \<and> (g1 \<noteq> g \<longrightarrow> (\<exists>e. r = Inl e \<and> code_String (st_Code e) = ''ResourceExhausted''))"
  by (auto simp: audit_rate_Unary_def callRateLimitInterceptor_def Let_def split: prod.splits sum.splits if_splits)

text \<open>The audit interceptor passes the audit information to the handler, from where the rate limit reads it.\<close>

lemma audit_info_passed:
  "GetAuditInfoFromContext (ContextWithAuditInfo ctx q i u) = (q, i, u)"
  "u \<noteq> [] \<Longrightarrow> rate_extractUserID (ContextWithAuditInfo ctx q i u) = u"
  by (simp_all add: GetAuditInfoFromContext_def ContextWithAuditInfo_def rate_extractUserID_def)

end
