(* ===== verification/Grpc_Service.thy ===== *)
theory Grpc_Service
  imports Raft_Node Grpc_Auth
begin

text \<open>
  \<open>src/internal/grpc/service.go\<close> and \<open>server.go\<close>, and the start of the program in \<open>src/cmd/server/main.go\<close>.
  \<open>DBFService\<close> works on any implementation of the interface \<open>raft.RaftNode\<close>, here the record \<open>raft_iface\<close> on
  states \<open>'n\<close>; \<open>DBFServer\<close> works on a \<open>raft.Node\<close>, and what the Raft library answers to the \<open>i\<close>-th command of a
  call is the argument \<open>raft_apply i\<close>. A missing and an empty item are both the empty list. The gRPC runtime
  and the sockets are not modelled.
\<close>

section \<open>Messages\<close>

record AddResponse =
  ar_Success :: bool
  ar_Error :: string

record ContainsResponse =
  cn_Exists :: bool
  cn_Error :: string

record BatchAddResponse =
  ba_SuccessCount :: int
  ba_FailureCount :: int
  ba_Errors :: "string list"

record BatchContainsResponse =
  bc_Results :: "bool list"
  bc_Error :: string

record GetStatsResponse =
  gs_NodeId :: string
  gs_IsLeader :: bool
  gs_RaftState :: string
  gs_Leader :: string
  gs_BloomSize :: int
  gs_BloomK :: int
  gs_BloomCount :: int
  gs_RaftPort :: int
  gs_Error :: string

text \<open>\<open>int32(x)\<close>.\<close>

definition int32 :: "int \<Rightarrow> int" where
  "int32 x = signed_take_bit 31 x"

text \<open>Type assertions on the values of the state map.\<close>

definition as_string :: "(string \<times> state_val) list \<Rightarrow> string \<Rightarrow> string option" where
  "as_string s k = (case map_of s k of Some (SvString v) \<Rightarrow> Some v | _ \<Rightarrow> None)"

definition as_bool :: "(string \<times> state_val) list \<Rightarrow> string \<Rightarrow> bool option" where
  "as_bool s k = (case map_of s k of Some (SvBool v) \<Rightarrow> Some v | _ \<Rightarrow> None)"

definition as_int :: "(string \<times> state_val) list \<Rightarrow> string \<Rightarrow> int option" where
  "as_int s k = (case map_of s k of Some (SvInt v) \<Rightarrow> Some v | _ \<Rightarrow> None)"

definition as_int64 :: "(string \<times> state_val) list \<Rightarrow> string \<Rightarrow> int option" where
  "as_int64 s k = (case map_of s k of Some (SvInt64 v) \<Rightarrow> Some v | _ \<Rightarrow> None)"

definition the_or :: "'a \<Rightarrow> 'a option \<Rightarrow> 'a" where
  "the_or d x = (case x of None \<Rightarrow> d | Some v \<Rightarrow> v)"

section \<open>DBFService\<close>

record 'n raft_iface =
  rn_IsLeader :: "'n \<Rightarrow> bool"
  rn_Add :: "bytes \<Rightarrow> 'n \<Rightarrow> string option \<times> 'n"
  rn_Remove :: "bytes \<Rightarrow> 'n \<Rightarrow> string option \<times> 'n"
  rn_Contains :: "bytes \<Rightarrow> 'n \<Rightarrow> bool"
  rn_BatchAdd :: "bytes list \<Rightarrow> 'n \<Rightarrow> (int \<times> int \<times> string list) \<times> 'n"
  rn_BatchContains :: "bytes list \<Rightarrow> 'n \<Rightarrow> bool list"
  rn_GetState :: "'n \<Rightarrow> (string \<times> state_val) list"

definition getLeaderInfo :: "(string \<times> state_val) list \<Rightarrow> string \<times> string" where
  "getLeaderInfo state = (the_or ''unknown'' (as_string state ''leader''), the_or '''' (as_string state ''leader_address''))"

definition redirect_message :: "(string \<times> state_val) list \<Rightarrow> string" where
  "redirect_message state = (let (leaderID, leaderAddr) = getLeaderInfo state in
     ''not the leader, redirect to: '' @ leaderID @ '' ('' @ leaderAddr @ '')'')"

definition svc_Add :: "'n raft_iface \<Rightarrow> bytes \<Rightarrow> 'n \<Rightarrow> AddResponse \<times> 'n" where
  "svc_Add R item n =
     (if item = [] then (\<lparr>ar_Success = False, ar_Error = ''item cannot be empty''\<rparr>, n)
      else if \<not> rn_IsLeader R n then (\<lparr>ar_Success = False, ar_Error = redirect_message (rn_GetState R n)\<rparr>, n)
      else let (err, n1) = rn_Add R item n in
      (case err of
         Some e \<Rightarrow> (\<lparr>ar_Success = False, ar_Error = ''failed to add item: '' @ e\<rparr>, n1)
       | None \<Rightarrow> (\<lparr>ar_Success = True, ar_Error = ''''\<rparr>, n1)))"

definition svc_Remove :: "'n raft_iface \<Rightarrow> bytes \<Rightarrow> 'n \<Rightarrow> AddResponse \<times> 'n" where
  "svc_Remove R item n =
     (if item = [] then (\<lparr>ar_Success = False, ar_Error = ''item cannot be empty''\<rparr>, n)
      else if \<not> rn_IsLeader R n then (\<lparr>ar_Success = False, ar_Error = redirect_message (rn_GetState R n)\<rparr>, n)
      else let (err, n1) = rn_Remove R item n in
      (case err of
         Some e \<Rightarrow> (\<lparr>ar_Success = False, ar_Error = ''failed to remove item: '' @ e\<rparr>, n1)
       | None \<Rightarrow> (\<lparr>ar_Success = True, ar_Error = ''''\<rparr>, n1)))"

definition svc_Contains :: "'n raft_iface \<Rightarrow> bytes \<Rightarrow> 'n \<Rightarrow> ContainsResponse" where
  "svc_Contains R item n =
     (if item = [] then \<lparr>cn_Exists = False, cn_Error = ''item cannot be empty''\<rparr>
      else \<lparr>cn_Exists = rn_Contains R item n, cn_Error = ''''\<rparr>)"

definition svc_BatchAdd :: "'n raft_iface \<Rightarrow> bytes list \<Rightarrow> 'n \<Rightarrow> BatchAddResponse \<times> 'n" where
  "svc_BatchAdd R items n =
     (if items = [] then (\<lparr>ba_SuccessCount = 0, ba_FailureCount = 0, ba_Errors = [''no items provided'']\<rparr>, n)
      else if \<not> rn_IsLeader R n then
        (\<lparr>ba_SuccessCount = 0, ba_FailureCount = int32 (int (length items)), ba_Errors = [redirect_message (rn_GetState R n)]\<rparr>, n)
      else let ((s, f, errs), n1) = rn_BatchAdd R items n in
        (\<lparr>ba_SuccessCount = int32 s, ba_FailureCount = int32 f, ba_Errors = errs\<rparr>, n1))"

definition svc_BatchContains :: "'n raft_iface \<Rightarrow> bytes list \<Rightarrow> 'n \<Rightarrow> BatchContainsResponse" where
  "svc_BatchContains R items n =
     (if items = [] then \<lparr>bc_Results = [], bc_Error = ''no items provided''\<rparr>
      else \<lparr>bc_Results = rn_BatchContains R items n, bc_Error = ''''\<rparr>)"


definition svc_GetStats :: "(string \<times> state_val) list \<Rightarrow> GetStatsResponse" where
  "svc_GetStats state =
     \<lparr>gs_NodeId = the_or ''unknown'' (as_string state ''node_id''), gs_IsLeader = the_or False (as_bool state ''is_leader''),
      gs_RaftState = the_or ''unknown'' (as_string state ''raft_state''),
      gs_Leader = (case as_string state ''leader_address'' of Some l \<Rightarrow> l | None \<Rightarrow> the_or '''' (as_string state ''leader'')),
      gs_BloomSize = the_or 0 (as_int state ''bloom_size''), gs_BloomK = int32 (the_or 0 (as_int state ''bloom_k'')),
      gs_BloomCount = the_or 0 (as_int64 state ''bloom_count''), gs_RaftPort = int32 (the_or 0 (as_int state ''raft_port'')), gs_Error = ''''\<rparr>"

section \<open>DBFServer\<close>

record ServerConfig =
  sc_Port :: int
  sc_EnableMTLS :: bool
  sc_CACertPath :: string
  sc_ServerCertPath :: string
  sc_ServerKeyPath :: string
  sc_EnableTokenAuth :: bool
  sc_JWTSecretKey :: string
  sc_TokenExpiry :: int
  sc_EnableTLS :: bool
  sc_TLSMinVersion :: u16
  sc_TLSCertPath :: string
  sc_TLSKeyPath :: string
  sc_TLSCAPath :: string
  sc_TLSReloadInterval :: int

record ('c, 'x) DBFServer =
  ds_raftNode :: "('c, 'x) Node"
  ds_authInterceptor :: "'x AuthInterceptor option"

definition NewDBFServer :: "('c, 'x) Node \<Rightarrow> ('c, 'x) DBFServer" where
  "NewDBFServer n = \<lparr>ds_raftNode = n, ds_authInterceptor = None\<rparr>"

definition NewDBFServerWithAuth :: "('c, 'x) tls_lib \<Rightarrow> ('c, 'x) Node \<Rightarrow> ServerConfig \<Rightarrow> auth_setup_error + ('c, 'x) DBFServer" where
  "NewDBFServerWithAuth L n config =
     go_bind (NewAuthInterceptor L \<lparr>ac_EnableMTLS = sc_EnableMTLS config, ac_CACertPath = sc_CACertPath config,
         ac_ServerCertPath = sc_ServerCertPath config, ac_ServerKeyPath = sc_ServerKeyPath config,
         ac_EnableTokenAuth = sc_EnableTokenAuth config, ac_JWTSecretKey = sc_JWTSecretKey config,
         ac_TokenExpiry = sc_TokenExpiry config, ac_EnableAPIKeyAuth = False, ac_APIKeys = []\<rparr>)
       (\<lambda>a. Inr \<lparr>ds_raftNode = n, ds_authInterceptor = Some a\<rparr>)"

definition node_error_String :: "node_error \<Rightarrow> string" where
  "node_error_String e = (case e of RaftNodeNotStarted \<Rightarrow> ''raft node not started'' | CommandMarshal \<Rightarrow> ''failed to marshal command''
     | ApplyFailed s \<Rightarrow> ''failed to apply command: '' @ s)"

type_synonym raft_answer = "bytes \<Rightarrow> int \<Rightarrow> string + u64"

definition srv_Add :: "json_codec \<Rightarrow> raft_answer \<Rightarrow> ('c, 'x) Node \<Rightarrow> bytes \<Rightarrow> AddResponse" where
  "srv_Add J raft_apply n item =
     (if item = [] then \<lparr>ar_Success = False, ar_Error = ''item cannot be empty''\<rparr>
      else (case node_Add J raft_apply n item of
          Some e \<Rightarrow> \<lparr>ar_Success = False, ar_Error = ''failed to add item: '' @ node_error_String e\<rparr>
        | None \<Rightarrow> \<lparr>ar_Success = True, ar_Error = ''''\<rparr>))"

definition srv_Remove :: "json_codec \<Rightarrow> raft_answer \<Rightarrow> ('c, 'x) Node \<Rightarrow> bytes \<Rightarrow> AddResponse" where
  "srv_Remove J raft_apply n item =
     (if item = [] then \<lparr>ar_Success = False, ar_Error = ''item cannot be empty''\<rparr>
      else (case node_Remove J raft_apply n item of
          Some e \<Rightarrow> \<lparr>ar_Success = False, ar_Error = ''failed to remove item: '' @ node_error_String e\<rparr>
        | None \<Rightarrow> \<lparr>ar_Success = True, ar_Error = ''''\<rparr>))"

definition srv_Contains :: "(bytes \<Rightarrow> u32) \<Rightarrow> ('c, 'x) Node \<Rightarrow> bytes \<Rightarrow> panic + ContainsResponse" where
  "srv_Contains murmur n item =
     (if item = [] then Inr \<lparr>cn_Exists = False, cn_Error = ''item cannot be empty''\<rparr>
      else go_bind (node_Contains murmur n item) (\<lambda>b. Inr \<lparr>cn_Exists = b, cn_Error = ''''\<rparr>))"

text \<open>The loop of \<open>BatchAdd\<close> with its counters and the errors so far.\<close>

fun batch_loop ::
  "json_codec \<Rightarrow> (nat \<Rightarrow> raft_answer) \<Rightarrow> ('c, 'x) Node \<Rightarrow> nat \<Rightarrow> bytes list \<Rightarrow> int \<Rightarrow> int \<Rightarrow> string list \<Rightarrow> int \<times> int \<times> string list" where
  "batch_loop J raft_apply n i [] s f errs = (s, f, errs)"
| "batch_loop J raft_apply n i (item # items) s f errs =
     (if item = [] then batch_loop J raft_apply n (Suc i) items s (f + 1) (errs[i := ''item cannot be empty''])
      else (case node_Add J (raft_apply i) n item of
          Some e \<Rightarrow> batch_loop J raft_apply n (Suc i) items s (f + 1) (errs[i := ''failed to add item: '' @ node_error_String e])
        | None \<Rightarrow> batch_loop J raft_apply n (Suc i) items (s + 1) f errs))"

definition srv_BatchAdd :: "json_codec \<Rightarrow> (nat \<Rightarrow> raft_answer) \<Rightarrow> ('c, 'x) Node \<Rightarrow> bytes list \<Rightarrow> BatchAddResponse" where
  "srv_BatchAdd J raft_apply n items =
     (if items = [] then \<lparr>ba_SuccessCount = 0, ba_FailureCount = 0, ba_Errors = [''no items provided'']\<rparr>
      else let (s, f, errs) = batch_loop J raft_apply n 0 items 0 0 (replicate (length items) '''') in
        \<lparr>ba_SuccessCount = int32 s, ba_FailureCount = int32 f, ba_Errors = errs\<rparr>)"

fun batch_contains_loop :: "(bytes \<Rightarrow> u32) \<Rightarrow> ('c, 'x) Node \<Rightarrow> bytes list \<Rightarrow> panic + bool list" where
  "batch_contains_loop murmur n [] = Inr []"
| "batch_contains_loop murmur n (item # items) =
     go_bind (if item = [] then Inr False else node_Contains murmur n item) (\<lambda>b.
     go_bind (batch_contains_loop murmur n items) (\<lambda>bs. Inr (b # bs)))"

definition srv_BatchContains :: "(bytes \<Rightarrow> u32) \<Rightarrow> ('c, 'x) Node \<Rightarrow> bytes list \<Rightarrow> panic + BatchContainsResponse" where
  "srv_BatchContains murmur n items =
     (if items = [] then Inr \<lparr>bc_Results = [], bc_Error = ''no items provided''\<rparr>
      else go_bind (batch_contains_loop murmur n items) (\<lambda>bs. Inr \<lparr>bc_Results = bs, bc_Error = ''''\<rparr>))"

definition srv_GetStats :: "('c, 'x) Node \<Rightarrow> GetStatsResponse" where
  "srv_GetStats n =
     (let state = node_GetState n in
     \<lparr>gs_NodeId = the_or ''unknown'' (as_string state ''node_id''), gs_IsLeader = the_or False (as_bool state ''is_leader''),
      gs_RaftState = the_or ''unknown'' (as_string state ''raft_state''), gs_Leader = the_or '''' (as_string state ''leader''),
      gs_BloomSize = the_or 0 (as_int state ''bloom_size''), gs_BloomK = int32 (the_or 0 (as_int state ''bloom_k'')),
      gs_BloomCount = (case as_int state ''bloom_size'' of Some v \<Rightarrow> if v > 0 then v div 8 else 0 | None \<Rightarrow> 0),
      gs_RaftPort = int32 (the_or 0 (as_int state ''raft_port'')), gs_Error = ''''\<rparr>)"

section \<open>Starting the server\<close>

datatype server_error =
    LoadCredentials auth_setup_error | ServerReloader tls_error | ServerGetConfig tls_error | ServerBuildConfig tls_error
  | ServerListen | ServeFailed

text \<open>\<open>listen\<close> is whether the port can be bound.\<close>

definition createTLSListener ::
  "('c, 'x) tls_lib \<Rightarrow> int \<Rightarrow> bool \<Rightarrow> ServerConfig \<Rightarrow> panic + (server_error + ('c, 'x) tls_Config)" where
  "createTLSListener L now listen config =
     (let tlsConfig = \<lparr>cf_CertPath = sc_TLSCertPath config, cf_KeyPath = sc_TLSKeyPath config, cf_CAPath = sc_TLSCAPath config,
            cf_MinVersion = (if sc_TLSMinVersion config = 0 then VersionTLS13 else sc_TLSMinVersion config),
            cf_CipherSuites = [], cf_ClientAuth = RequireAndVerifyClientCert\<rparr>
      in if sc_TLSReloadInterval config > 0 then
           (case NewCertReloader L now tlsConfig (sc_TLSReloadInterval config) of
              Inl err \<Rightarrow> Inr (Inl (ServerReloader err))
            | Inr reloader \<Rightarrow> go_bind (GetTLSConfig L now reloader) (\<lambda>(res, reloader').
                case res of Inl err \<Rightarrow> Inr (Inl (ServerGetConfig err))
                | Inr t \<Rightarrow> Inr (if listen then Inr t else Inl ServerListen)))
         else (case BuildTLSConfig L tlsConfig of
              Inl err \<Rightarrow> Inr (Inl (ServerBuildConfig err))
            | Inr t \<Rightarrow> Inr (if listen then Inr t else Inl ServerListen)))"

text \<open>What a server runs with: the TLS configuration of its listener, the credentials of its transport, and its
  interceptor.\<close>

record ('c, 'x) running_server =
  rs_listenerTLS :: "('c, 'x) tls_Config option"
  rs_creds :: "('c, 'x) tls_Config option"
  rs_auth :: "'x AuthInterceptor option"

definition StartWithConfig ::
  "('c, 'x) tls_lib \<Rightarrow> int \<Rightarrow> bool \<Rightarrow> ServerConfig \<Rightarrow> ('c, 'x) DBFServer \<Rightarrow> panic + (server_error + ('c, 'x) running_server)" where
  "StartWithConfig L now listen config s =
     (case (if sc_EnableMTLS config
            then (case LoadTLSCredentials L \<lparr>ac_EnableMTLS = False, ac_CACertPath = sc_CACertPath config,
                ac_ServerCertPath = sc_ServerCertPath config, ac_ServerKeyPath = sc_ServerKeyPath config, ac_EnableTokenAuth = False,
                ac_JWTSecretKey = '''', ac_TokenExpiry = 0, ac_EnableAPIKeyAuth = False, ac_APIKeys = []\<rparr> of
                Inl e \<Rightarrow> Inl e | Inr t \<Rightarrow> Inr (Some t))
            else Inr None) of
        Inl e \<Rightarrow> Inr (Inl (LoadCredentials e))
      | Inr creds \<Rightarrow>
          if sc_EnableTLS config then
            go_bind (createTLSListener L now listen config) (\<lambda>r. case r of
                Inl e \<Rightarrow> Inr (Inl e)
              | Inr t \<Rightarrow> Inr (Inr \<lparr>rs_listenerTLS = Some t, rs_creds = creds, rs_auth = ds_authInterceptor s\<rparr>))
          else if \<not> listen then Inr (Inl ServerListen)
          else Inr (Inr \<lparr>rs_listenerTLS = None, rs_creds = creds, rs_auth = ds_authInterceptor s\<rparr>))"

definition srv_Start ::
  "('c, 'x) tls_lib \<Rightarrow> int \<Rightarrow> bool \<Rightarrow> int \<Rightarrow> ('c, 'x) DBFServer \<Rightarrow> panic + (server_error + ('c, 'x) running_server)" where
  "srv_Start L now listen port s = StartWithConfig L now listen \<lparr>sc_Port = port, sc_EnableMTLS = False, sc_CACertPath = '''',
     sc_ServerCertPath = '''', sc_ServerKeyPath = '''', sc_EnableTokenAuth = False, sc_JWTSecretKey = '''', sc_TokenExpiry = 0,
     sc_EnableTLS = False, sc_TLSMinVersion = 0, sc_TLSCertPath = '''', sc_TLSKeyPath = '''', sc_TLSCAPath = '''',
     sc_TLSReloadInterval = 0\<rparr> s"

section \<open>The program\<close>

record server_flags =
  fg_port :: int
  fg_raftPort :: int
  fg_dataDir :: string
  fg_nodeID :: string
  fg_k :: int
  fg_m :: int
  fg_bootstrap :: bool
  fg_enableMTLS :: bool
  fg_caCertPath :: string
  fg_serverCertPath :: string
  fg_serverKeyPath :: string
  fg_enableTokenAuth :: bool
  fg_jwtSecretKey :: string
  fg_tokenExpiry :: int

datatype fatal =
    FatalDataDir | FatalEncryptor wal_error | FatalStart start_error | FatalNoCertificates | FatalNoSecret
  | FatalAuth auth_setup_error | FatalServer server_error

definition server_config_of :: "server_flags \<Rightarrow> ServerConfig" where
  "server_config_of fl = \<lparr>sc_Port = fg_port fl, sc_EnableMTLS = fg_enableMTLS fl, sc_CACertPath = fg_caCertPath fl,
     sc_ServerCertPath = fg_serverCertPath fl, sc_ServerKeyPath = fg_serverKeyPath fl, sc_EnableTokenAuth = fg_enableTokenAuth fl,
     sc_JWTSecretKey = fg_jwtSecretKey fl, sc_TokenExpiry = fg_tokenExpiry fl, sc_EnableTLS = False, sc_TLSMinVersion = 0,
     sc_TLSCertPath = '''', sc_TLSKeyPath = '''', sc_TLSCAPath = '''', sc_TLSReloadInterval = 0\<rparr>"

definition main_server :: "('c, 'x) tls_lib \<Rightarrow> server_flags \<Rightarrow> ('c, 'x) Node \<Rightarrow> fatal + ('c, 'x) DBFServer" where
  "main_server L fl n =
     (if fg_enableMTLS fl then
        (if fg_caCertPath fl = '''' \<or> fg_serverCertPath fl = '''' \<or> fg_serverKeyPath fl = '''' then Inl FatalNoCertificates
         else (case NewDBFServerWithAuth L n (server_config_of fl) of Inl e \<Rightarrow> Inl (FatalAuth e) | Inr s \<Rightarrow> Inr s))
      else if fg_enableTokenAuth fl then
        (if fg_jwtSecretKey fl = '''' then Inl FatalNoSecret
         else (case NewDBFServerWithAuth L n (server_config_of fl) of Inl e \<Rightarrow> Inl (FatalAuth e) | Inr s \<Rightarrow> Inr s))
      else Inr (NewDBFServer n))"

text \<open>\<open>main\<close> up to the running server; after the signal the node is shut down.\<close>

definition server_main ::
  "('c, 'x) tls_lib \<Rightarrow> ('c, 'x) node_env \<Rightarrow> (nat \<Rightarrow> bytes option) \<Rightarrow> int \<Rightarrow> bool \<Rightarrow> bool \<Rightarrow> server_flags
    \<Rightarrow> panic + (fatal + ('c, 'x) running_server \<times> ('c, 'x) Node)" where
  "server_main L E rand now mkdir listen fl =
     (if \<not> mkdir then Inr (Inl FatalDataDir)
      else (case NewWALEncryptor (\<lambda>_ _. None) rand now '''' of
          Inl e \<Rightarrow> Inr (Inl (FatalEncryptor e))
        | Inr walEncryptor \<Rightarrow>
            go_bind (NewCountingBloomFilter (fg_m fl) (fg_k fl)) (\<lambda>bloomFilter.
              let (err, n) = node_Start E (fg_bootstrap fl) (NewNode (fg_nodeID fl) (fg_raftPort fl) (fg_dataDir fl) bloomFilter (Some walEncryptor))
              in (case err of
                  Some e \<Rightarrow> Inr (Inl (FatalStart e))
                | None \<Rightarrow> (case main_server L fl n of
                    Inl e \<Rightarrow> Inr (Inl e)
                  | Inr s \<Rightarrow> go_bind (StartWithConfig L now listen (server_config_of fl) s) (\<lambda>r. case r of
                      Inl e \<Rightarrow> Inr (Inl (FatalServer e))
                    | Inr rs \<Rightarrow> Inr (Inr (rs, n))))))))"

definition main_shutdown :: "('c, 'x) Node \<Rightarrow> ('c, 'x) Node" where
  "main_shutdown n = node_Shutdown n"

section \<open>Batches\<close>

lemma node_Add_none_ok: "node_Add J raft_apply n item = None \<longleftrightarrow>
    nd_raftNode n \<noteq> None \<and> (\<exists>data index. marshal_Command J \<lparr>cmd_Type = ''add'', cmd_Item = item, cmd_Timestamp = zero_time\<rparr> = Some data
      \<and> raft_apply data 0 = Inr index)"
  by (auto simp: node_Add_def split: option.splits sum.splits)

definition item_error :: "json_codec \<Rightarrow> (nat \<Rightarrow> raft_answer) \<Rightarrow> ('c, 'x) Node \<Rightarrow> nat \<Rightarrow> bytes \<Rightarrow> string" where
  "item_error J raft_apply n i item = ar_Error (srv_Add J (raft_apply i) n item)"

lemma srv_Add_error: "ar_Error (srv_Add J ra n item) = [] \<longleftrightarrow> ar_Success (srv_Add J ra n item)"
  by (auto simp: srv_Add_def split: option.splits)

lemma batch_loop_result:
  assumes "length errs = i + length items" and "drop i errs = replicate (length items) []"
  shows "batch_loop J raft_apply n i items s f errs =
    (s + int (length (filter (\<lambda>j. ar_Success (srv_Add J (raft_apply (i + j)) n (items ! j))) [0 ..< length items])),
     f + int (length (filter (\<lambda>j. \<not> ar_Success (srv_Add J (raft_apply (i + j)) n (items ! j))) [0 ..< length items])),
     take i errs @ map (\<lambda>j. item_error J raft_apply n (i + j) (items ! j)) [0 ..< length items])"
  using assms
proof (induction items arbitrary: i s f errs)
  case (Cons item items)
  let ?e = "item_error J raft_apply n i item"
  have hd: "errs ! i = []" using Cons.prems by (metis Cons_nth_drop_Suc length_Cons list.sel(1) replicate_Suc less_add_same_cancel1 zero_less_Suc)
  have tl: "drop (Suc i) errs = replicate (length items) []" using Cons.prems by (metis drop_Suc length_Cons list.sel(3) replicate_Suc tl_drop)
  let ?errs = "errs[i := ?e]"
  have ih: "batch_loop J raft_apply n (Suc i) items s' f' ?errs =
    (s' + int (length (filter (\<lambda>j. ar_Success (srv_Add J (raft_apply (Suc i + j)) n (items ! j))) [0 ..< length items])),
     f' + int (length (filter (\<lambda>j. \<not> ar_Success (srv_Add J (raft_apply (Suc i + j)) n (items ! j))) [0 ..< length items])),
     take (Suc i) ?errs @ map (\<lambda>j. item_error J raft_apply n (Suc i + j) (items ! j)) [0 ..< length items])" for s' f'
    by (rule Cons.IH) (use Cons.prems tl in simp_all)
  have up: "[0 ..< length (item # items)] = 0 # map Suc [0 ..< length items]" by (simp add: upt_conv_Cons map_Suc_upt del: upt_Suc)
  have tk: "take (Suc i) ?errs = take i errs @ [?e]" using Cons.prems by (simp add: take_Suc_conv_app_nth)
  have step: "batch_loop J raft_apply n i (item # items) s f errs =
      batch_loop J raft_apply n (Suc i) items (s + (if ar_Success (srv_Add J (raft_apply i) n item) then 1 else 0))
        (f + (if ar_Success (srv_Add J (raft_apply i) n item) then 0 else 1)) ?errs"
    using hd list_update_id [of errs i] by (auto simp: item_error_def srv_Add_def split: option.splits)
  show ?case unfolding step ih tk up by (simp add: filter_map comp_def)
qed simp

text \<open>C23: a batch is as its items one by one: it counts the items that were accepted and the others, and the \<open>i\<close>-th
  error is the one of adding the \<open>i\<close>-th item alone, empty exactly for the accepted ones.\<close>

theorem BatchAdd_itemwise:
  assumes "items \<noteq> []" and "length items < 2 ^ 31"
  shows "ba_Errors (srv_BatchAdd J raft_apply n items) = map (\<lambda>i. ar_Error (srv_Add J (raft_apply i) n (items ! i))) [0 ..< length items]
    \<and> ba_SuccessCount (srv_BatchAdd J raft_apply n items) = int (card {i. i < length items \<and> ar_Success (srv_Add J (raft_apply i) n (items ! i))})
    \<and> ba_SuccessCount (srv_BatchAdd J raft_apply n items) + ba_FailureCount (srv_BatchAdd J raft_apply n items) = int (length items)"
proof -
  let ?P = "\<lambda>i. ar_Success (srv_Add J (raft_apply i) n (items ! i))"
  have c: "length (filter ?P [0 ..< length items]) = card {i. i < length items \<and> ?P i}"
    by (auto simp: length_filter_conv_card intro: arg_cong [where f = card])
  have sum: "length (filter ?P [0 ..< length items]) + length (filter (\<lambda>i. \<not> ?P i) [0 ..< length items]) = length items"
    using sum_length_filter_compl [of ?P "[0 ..< length items]"] by simp
  have small: "int32 (int k) = int k" if "k \<le> length items" for k
    using that assms(2) by (simp add: int32_def signed_take_bit_int_eq_self_iff)
  have "srv_BatchAdd J raft_apply n items = \<lparr>ba_SuccessCount = int32 (int (length (filter ?P [0 ..< length items]))),
      ba_FailureCount = int32 (int (length (filter (\<lambda>i. \<not> ?P i) [0 ..< length items]))),
      ba_Errors = map (\<lambda>i. ar_Error (srv_Add J (raft_apply i) n (items ! i))) [0 ..< length items]\<rparr>"
    using assms(1) batch_loop_result [of "replicate (length items) []" 0 items J raft_apply n 0 0]
    by (simp add: srv_BatchAdd_def item_error_def)
  moreover have "int32 (int (length (filter ?P [0 ..< length items]))) = int (length (filter ?P [0 ..< length items]))"
    "int32 (int (length (filter (\<lambda>i. \<not> ?P i) [0 ..< length items]))) = int (length (filter (\<lambda>i. \<not> ?P i) [0 ..< length items]))"
    using sum by (intro small; simp)+
  ultimately show ?thesis using c sum by simp
qed

theorem BatchAdd_itemwise_witness:
  "ba_Errors (srv_BatchAdd demo_json (\<lambda>i _ _. Inr 1) demo_node [[1], []]) = [''failed to add item: raft node not started'', ''item cannot be empty'']
   \<and> ba_SuccessCount (srv_BatchAdd demo_json (\<lambda>i _ _. Inr 1) demo_node [[1], []]) = 0
   \<and> ba_FailureCount (srv_BatchAdd demo_json (\<lambda>i _ _. Inr 1) demo_node [[1], []]) = 2"
proof -
  let ?a = "\<lambda>i. srv_Add demo_json (\<lambda>_ _. Inr 1) demo_node ([[1], []] ! i)"
  have a: "?a 0 = \<lparr>ar_Success = False, ar_Error = ''failed to add item: raft node not started''\<rparr>"
    "?a (Suc 0) = \<lparr>ar_Success = False, ar_Error = ''item cannot be empty''\<rparr>"
    by (simp_all add: srv_Add_def node_Add_def demo_node_def NewNode_def node_error_String_def)
  have "\<not> ar_Success (?a i)" if "i < 2" for i
  proof -
    from that have "i = 0 \<or> i = Suc 0" by linarith
    then show ?thesis using a by (elim disjE) simp_all
  qed
  then have none: "{i. i < 2 \<and> ar_Success (?a i)} = {}" by blast
  have l: "[[1], []] \<noteq> ([] :: bytes list)" "length ([[1], []] :: bytes list) < 2 ^ 31" by simp_all
  have "length ([[1], []] :: bytes list) = 2" "[0 ..< 2] = [0, Suc 0]" by (simp_all add: numeral_2_eq_2)
  with BatchAdd_itemwise [OF l, of demo_json "\<lambda>i _ _. Inr 1" demo_node] a none
  show ?thesis by (simp only: card.empty list.map) simp
qed

text \<open>An addition that succeeded was accepted by the consensus library.\<close>

lemma srv_Add_success:
  assumes "json_ok J" and "ar_Success (srv_Add J raft_apply n item)"
  obtains data index where "raft_apply data 0 = Inr index"
    "unmarshal_Command J data = Some \<lparr>cmd_Type = ''add'', cmd_Item = item, cmd_Timestamp = zero_time\<rparr>" "item \<noteq> []"
proof -
  obtain data where d: "marshal_Command J \<lparr>cmd_Type = ''add'', cmd_Item = item, cmd_Timestamp = zero_time\<rparr> = Some data"
    "unmarshal_Command J data = Some \<lparr>cmd_Type = ''add'', cmd_Item = item, cmd_Timestamp = zero_time\<rparr>"
    by (rule json_Command [OF assms(1), of "\<lparr>cmd_Type = ''add'', cmd_Item = item, cmd_Timestamp = zero_time\<rparr>"])
      (auto simp: ascii_def time_ok_def zero_time_def)
  with assms(2) show ?thesis
    by (auto simp: srv_Add_def node_Add_def intro: that split: if_splits option.splits sum.splits)
qed

section \<open>Statistics\<close>

text \<open>What the server reports of a node is what the node has, except for the count, which is an eighth of the size
  whatever the filter holds.\<close>

lemma GetStats_node:
  assumes "0 \<le> HashCount (nd_bloomFilter n)" and "HashCount (nd_bloomFilter n) < 2 ^ 31" and "0 < Size (nd_bloomFilter n)"
  shows "gs_NodeId (srv_GetStats n) = nd_nodeID n" and "gs_IsLeader (srv_GetStats n) = node_IsLeader n"
    and "gs_BloomSize (srv_GetStats n) = Size (nd_bloomFilter n)" and "gs_BloomK (srv_GetStats n) = HashCount (nd_bloomFilter n)"
    and "gs_BloomCount (srv_GetStats n) = Size (nd_bloomFilter n) div 8"
  using assms by (simp_all add: srv_GetStats_def node_GetState_def the_or_def as_string_def as_bool_def as_int_def int32_def
      signed_take_bit_int_eq_self_iff)

section \<open>The redirect\<close>

text \<open>A follower changes nothing.\<close>

lemma follower_unchanged:
  assumes "\<not> rn_IsLeader R n"
  shows "snd (svc_Add R item n) = n" and "snd (svc_Remove R item n) = n" and "snd (svc_BatchAdd R items n) = n"
  using assms by (simp_all add: svc_Add_def svc_Remove_def svc_BatchAdd_def)

text \<open>The state map of a \<open>raft.Node\<close> has no leader address, so the redirect names none.\<close>

lemma node_redirect_empty: "redirect_message (node_GetState n) =
    ''not the leader, redirect to: '' @ the_or ''unknown'' (as_string (node_GetState n) ''leader'') @ '' ()''"
proof -
  have "as_string (node_GetState n) ''leader_address'' = None"
    by (simp add: as_string_def node_GetState_def split: option.splits)
  then show ?thesis by (simp add: redirect_message_def getLeaderInfo_def the_or_def [of "[]"])
qed

section \<open>The program's authentication\<close>

lemma NewAuthInterceptor_config: "NewAuthInterceptor L c = Inr a \<Longrightarrow> ai_config a = c \<and> ai_apiKeyEnabled a = (ac_EnableAPIKeyAuth c \<and> ac_APIKeys c \<noteq> [])
    \<and> (ac_EnableMTLS c \<and> ac_CACertPath c \<noteq> [] \<longrightarrow> ai_caCert a \<noteq> None)"
  by (auto simp: NewAuthInterceptor_def Let_def split: if_splits option.splits)

lemma NewDBFServerWithAuth_auth:
  assumes "NewDBFServerWithAuth L n config = Inr s"
  shows "\<exists>a. ds_authInterceptor s = Some a \<and> auth_inv a \<and> \<not> ai_apiKeyEnabled a \<and> ac_EnableMTLS (ai_config a) = sc_EnableMTLS config
    \<and> ac_EnableTokenAuth (ai_config a) = sc_EnableTokenAuth config \<and> ac_JWTSecretKey (ai_config a) = sc_JWTSecretKey config
    \<and> (sc_EnableMTLS config \<and> sc_CACertPath config \<noteq> [] \<longrightarrow> ai_caCert a \<noteq> None)"
proof -
  from assms obtain a where a: "ds_authInterceptor s = Some a" and new: "NewAuthInterceptor L \<lparr>ac_EnableMTLS = sc_EnableMTLS config,
      ac_CACertPath = sc_CACertPath config, ac_ServerCertPath = sc_ServerCertPath config, ac_ServerKeyPath = sc_ServerKeyPath config,
      ac_EnableTokenAuth = sc_EnableTokenAuth config, ac_JWTSecretKey = sc_JWTSecretKey config,
      ac_TokenExpiry = sc_TokenExpiry config, ac_EnableAPIKeyAuth = False, ac_APIKeys = []\<rparr> = Inr a"
    by (auto simp: NewDBFServerWithAuth_def go_bind_eq_Inr_iff)
  with auth_inv_New [OF new] NewAuthInterceptor_config [OF new] show ?thesis by simp
qed

lemma server_main_parts:
  fixes L :: "('c, 'x) tls_lib"
  assumes "server_main L E rand now mkdir listen fl = Inr (Inr (rs, n))"
  obtains s where "main_server L fl n = Inr s" and "StartWithConfig L now listen (server_config_of fl) s = Inr (Inr rs)"
proof -
  obtain enc where "NewWALEncryptor (\<lambda>_ _. None) rand now '''' = Inr enc"
    using assms by (auto simp: server_main_def split: if_splits sum.splits)
  with assms obtain bf where run: "(let (err, n) = node_Start E (fg_bootstrap fl) (NewNode (fg_nodeID fl) (fg_raftPort fl) (fg_dataDir fl) bf (Some enc))
            in (case err of
                Some e \<Rightarrow> Inr (Inl (FatalStart e))
              | None \<Rightarrow> (case main_server L fl n of
                  Inl e \<Rightarrow> Inr (Inl e)
                | Inr s \<Rightarrow> go_bind (StartWithConfig L now listen (server_config_of fl) s) (\<lambda>r. case r of
                    Inl e \<Rightarrow> Inr (Inl (FatalServer e))
                  | Inr rs \<Rightarrow> Inr (Inr (rs, n)))))) = Inr (Inr (rs, n))"
    by (auto simp: server_main_def go_bind_eq_Inr_iff split: if_splits)
  obtain err and n1 :: "('c, 'x) Node" where
    start: "node_Start E (fg_bootstrap fl) (NewNode (fg_nodeID fl) (fg_raftPort fl) (fg_dataDir fl) bf (Some enc)) = (err, n1)"
    by fastforce
  have "err = None" "main_server L fl n1 \<noteq> Inl e" for e using run by (auto simp: start split: option.splits)
  then obtain s where s: "err = None" "main_server L fl n1 = Inr s" by (metis sum.exhaust)
  with run have "go_bind (StartWithConfig L now listen (server_config_of fl) s)
      (\<lambda>r. case r of Inl e \<Rightarrow> Inr (Inl (FatalServer e)) | Inr rs \<Rightarrow> Inr (Inr (rs, n1))) = Inr (Inr (rs, n))"
    by (simp add: start)
  then have "StartWithConfig L now listen (server_config_of fl) s = Inr (Inr rs)" "n1 = n"
    by (auto simp: go_bind_def split: sum.splits)
  with s show thesis using that by blast
qed

text \<open>C18: if the program runs with mutual TLS, its transport demands and verifies client certificates against a
  non-empty pool and its interceptor has the CA's certificate; if it runs with tokens, its interceptor
  checks them, with a non-empty secret unless mutual TLS is enabled too; and it runs without an
  interceptor only if neither was asked for. The listener itself has no TLS.\<close>

theorem server_main_authenticates:
  fixes L :: "('c, 'x) tls_lib"
  assumes "server_main L E rand now mkdir listen fl = Inr (Inr (rs, n))"
  shows "rs_listenerTLS rs = None
    \<and> (rs_auth rs = None \<longleftrightarrow> \<not> fg_enableMTLS fl \<and> \<not> fg_enableTokenAuth fl)
    \<and> (fg_enableMTLS fl \<longrightarrow> (\<exists>t a pool. rs_creds rs = Some t \<and> tc_ClientAuth t = RequireAndVerifyClientCert
          \<and> tc_ClientCAs t = Some pool \<and> pool \<noteq> [] \<and> rs_auth rs = Some a \<and> ac_EnableMTLS (ai_config a) \<and> ai_caCert a \<noteq> None))
    \<and> (fg_enableTokenAuth fl \<longrightarrow> (\<exists>a. rs_auth rs = Some a \<and> ac_EnableTokenAuth (ai_config a)
          \<and> ac_JWTSecretKey (ai_config a) = fg_jwtSecretKey fl \<and> (fg_jwtSecretKey fl \<noteq> [] \<or> fg_enableMTLS fl)))"
proof -
  obtain s where m: "main_server L fl n = Inr s" and st: "StartWithConfig L now listen (server_config_of fl) s = Inr (Inr rs)"
    using assms by (rule server_main_parts)
  have tls: "sc_EnableTLS (server_config_of fl) = False" "sc_EnableMTLS (server_config_of fl) = fg_enableMTLS fl"
    by (simp_all add: server_config_of_def)
  have rs: "rs_listenerTLS rs = None" "rs_auth rs = ds_authInterceptor s"
    and creds: "fg_enableMTLS fl \<Longrightarrow> \<exists>t pool. rs_creds rs = Some t \<and> tc_ClientAuth t = RequireAndVerifyClientCert
        \<and> tc_ClientCAs t = Some pool \<and> pool \<noteq> []"
    using st tls by (auto simp: StartWithConfig_def LoadTLSCredentials_def split: if_splits sum.splits option.splits)
  show ?thesis
  proof (cases "fg_enableMTLS fl \<or> fg_enableTokenAuth fl")
    case True
    then have "NewDBFServerWithAuth L n (server_config_of fl) = Inr s"
      and "fg_enableMTLS fl \<or> fg_jwtSecretKey fl \<noteq> []" "fg_enableMTLS fl \<Longrightarrow> fg_caCertPath fl \<noteq> []"
      using m by (auto simp: main_server_def split: if_splits sum.splits)
    with NewDBFServerWithAuth_auth [OF this(1)] rs creds True show ?thesis by (auto simp: server_config_of_def)
  next
    case False
    with m rs show ?thesis by (auto simp: main_server_def NewDBFServer_def)
  qed
qed

definition demo_flags :: server_flags where
  "demo_flags = \<lparr>fg_port = 8080, fg_raftPort = 8081, fg_dataDir = ''data'', fg_nodeID = ''node1'', fg_k = 3, fg_m = 10, fg_bootstrap = False,
     fg_enableMTLS = True, fg_caCertPath = ''ca'', fg_serverCertPath = ''crt'', fg_serverKeyPath = ''key'', fg_enableTokenAuth = False,
     fg_jwtSecretKey = [], fg_tokenExpiry = 0\<rparr>"

definition demo_raft_env :: "(nat, nat) node_env" where
  "demo_raft_env = demo_node_env\<lparr>ne_NewRaft := (\<lambda>_. Some \<lparr>ri_state = Leader, ri_leader = ''node1''\<rparr>)\<rparr>"

theorem server_main_authenticates_witness:
  "\<exists>rs n t. server_main (demo_files True) demo_raft_env (\<lambda>k. Some (replicate k 1)) 0 True True demo_flags = Inr (Inr (rs, n))
    \<and> rs_creds rs = Some t \<and> tc_ClientAuth t = RequireAndVerifyClientCert"
proof -
  have "\<exists>rs n. server_main (demo_files True) demo_raft_env (\<lambda>k. Some (replicate k 1)) 0 True True demo_flags = Inr (Inr (rs, n))"
    by (simp add: server_main_def NewWALEncryptor_def NewCountingBloomFilter_def demo_flags_def go_bind_def demo_raft_env_def demo_node_env_def
        node_Start_def NewNode_def main_server_def NewDBFServerWithAuth_def NewAuthInterceptor_def StartWithConfig_def LoadTLSCredentials_def
        demo_files_def server_config_of_def)
  then obtain rs n where r: "server_main (demo_files True) demo_raft_env (\<lambda>k. Some (replicate k 1)) 0 True True demo_flags = Inr (Inr (rs, n))"
    by blast
  moreover have "fg_enableMTLS demo_flags" by (simp add: demo_flags_def)
  ultimately show ?thesis using server_main_authenticates [OF r] by blast
qed

end
