(* ===== verification/Sdk_Client.thy ===== *)
theory Sdk_Client
  imports Grpc_Service
begin

text \<open>
  \<open>src/sdk/client.go\<close>: the client with its connections, its retries and the switch to the leader. What the server
  at an address answers to the \<open>i\<close>-th attempt of a call is the argument \<open>rpc i address\<close>, \<open>Inl\<close> for an error of the
  transport. The record \<open>dial_lib\<close> says which credentials load, which addresses can be dialled and which
  connections close without an error; \<open>wait\<close> is the error of the context if it ends during the pause after an
  attempt. The maps are association lists.
\<close>

section \<open>State\<close>

record ClientConfig =
  cl_Addresses :: "string list"
  cl_APIKey :: string
  cl_APISecret :: string
  cl_TLSCertFile :: string
  cl_EnableTLS :: bool
  cl_MaxRetries :: int
  cl_RetryDelay :: int
  cl_Timeout :: int

record Client =
  ct_config :: ClientConfig
  ct_client :: "string option"
  ct_connections :: "string list"
  ct_leaderAddress :: string

record dial_lib =
  dl_creds :: "string \<Rightarrow> bool"
  dl_dial :: "string \<Rightarrow> bool"
  dl_close :: "string \<Rightarrow> string option"

datatype sdk_error =
    NoAddresses | ConnectFailed | CredentialsFailed | DialFailed string | NoConnection | NoLeaderAddress string
  | SwitchFailed sdk_error | ContextDone string | ErrLeaderRedirect string | CallFailed string | TransportFailed string

definition DefaultClientConfig :: ClientConfig where
  "DefaultClientConfig = \<lparr>cl_Addresses = [], cl_APIKey = '''', cl_APISecret = '''', cl_TLSCertFile = '''', cl_EnableTLS = False,
     cl_MaxRetries = 3, cl_RetryDelay = 100 * 10 ^ 6, cl_Timeout = 5 * 10 ^ 9\<rparr>"

section \<open>Connections\<close>

definition sdk_connect :: "dial_lib \<Rightarrow> string \<Rightarrow> Client \<Rightarrow> sdk_error option \<times> Client" where
  "sdk_connect D address c =
     (if address \<in> set (ct_connections c) then (None, c\<lparr>ct_client := Some address\<rparr>)
      else if cl_EnableTLS (ct_config c) \<and> cl_TLSCertFile (ct_config c) \<noteq> '''' \<and> \<not> dl_creds D (cl_TLSCertFile (ct_config c))
      then (Some CredentialsFailed, c)
      else if \<not> dl_dial D address then (Some (DialFailed address), c)
      else (None, c\<lparr>ct_connections := address # ct_connections c, ct_client := Some address\<rparr>))"

fun connect_first :: "dial_lib \<Rightarrow> string list \<Rightarrow> Client \<Rightarrow> sdk_error option \<times> Client" where
  "connect_first D [] c = (Some ConnectFailed, c)"
| "connect_first D (addr # addrs) c = (case sdk_connect D addr c of
      (None, c1) \<Rightarrow> (None, c1)
    | (Some e, c1) \<Rightarrow> connect_first D addrs c1)"

definition connectToFirstAvailable :: "dial_lib \<Rightarrow> Client \<Rightarrow> sdk_error option \<times> Client" where
  "connectToFirstAvailable D c = connect_first D (cl_Addresses (ct_config c)) c"

definition NewClient :: "dial_lib \<Rightarrow> ClientConfig \<Rightarrow> sdk_error + Client" where
  "NewClient D config0 =
     (if cl_Addresses config0 = [] then Inl NoAddresses
      else let config = config0\<lparr>
             cl_MaxRetries := (if cl_MaxRetries config0 = 0 then 3 else cl_MaxRetries config0),
             cl_RetryDelay := (if cl_RetryDelay config0 = 0 then 100 * 10 ^ 6 else cl_RetryDelay config0),
             cl_Timeout := (if cl_Timeout config0 = 0 then 5 * 10 ^ 9 else cl_Timeout config0)\<rparr>
      in (case connectToFirstAvailable D \<lparr>ct_config = config, ct_client = None, ct_connections = [], ct_leaderAddress = ''''\<rparr> of
            (None, c) \<Rightarrow> Inr c
          | (Some e, c) \<Rightarrow> Inl e))"

text \<open>\<open>Close\<close> returns the last error of its connections, in the order the map yields them.\<close>

definition sdk_Close :: "dial_lib \<Rightarrow> Client \<Rightarrow> string option \<times> Client" where
  "sdk_Close D c =
     (foldl (\<lambda>lastErr a. case dl_close D a of Some e \<Rightarrow> Some e | None \<Rightarrow> lastErr) None (ct_connections c),
      c\<lparr>ct_connections := [], ct_client := None\<rparr>)"

section \<open>Redirects\<close>

definition isLeaderRedirect :: "string \<Rightarrow> bool" where
  "isLeaderRedirect msg =
     (if length msg < 14 then False else take 14 msg = ''not the leader'' \<or> take 14 msg = ''Not the leader'')"

fun find_parens :: "nat \<Rightarrow> int \<Rightarrow> string \<Rightarrow> int \<times> int" where
  "find_parens i start [] = (start, - 1)"
| "find_parens i start (ch # s) =
     (if ch = CHR ''('' then find_parens (Suc i) (int i + 1) s
      else if ch = CHR '')'' \<and> start \<noteq> - 1 then (start, int i)
      else find_parens (Suc i) start s)"

definition extractLeaderAddress :: "string \<Rightarrow> string" where
  "extractLeaderAddress errorMsg =
     (let (start, end) = find_parens 0 (- 1) errorMsg in
      if start \<noteq> - 1 \<and> end \<noteq> - 1 \<and> end > start then take (nat (end - start)) (drop (nat start) errorMsg) else '''')"

definition switchToLeader :: "dial_lib \<Rightarrow> string \<Rightarrow> Client \<Rightarrow> sdk_error option \<times> Client" where
  "switchToLeader D errorMsg c =
     (let leaderAddr = extractLeaderAddress errorMsg in
      if leaderAddr = '''' then (Some (NoLeaderAddress errorMsg), c)
      else sdk_connect D leaderAddr (c\<lparr>ct_leaderAddress := leaderAddr\<rparr>))"

section \<open>Retries\<close>

text \<open>\<open>As\<close>: the message of a redirect.\<close>

definition sdk_As :: "sdk_error \<Rightarrow> string option" where
  "sdk_As err = (case err of ErrLeaderRedirect msg \<Rightarrow> Some msg | _ \<Rightarrow> None)"

text \<open>The loop of \<open>executeWithRetry\<close>: \<open>left\<close> iterations remain. The result is the error, the value of the last
  successful call, the client and the addresses that were called, in order.\<close>

fun retry_loop ::
  "dial_lib \<Rightarrow> (nat \<Rightarrow> string option) \<Rightarrow> (nat \<Rightarrow> string \<Rightarrow> sdk_error + 'v) \<Rightarrow> nat \<Rightarrow> nat \<Rightarrow> sdk_error option \<Rightarrow> Client
    \<Rightarrow> sdk_error option \<times> 'v option \<times> Client \<times> string list" where
  "retry_loop D wait fn 0 attempt lastErr c = (lastErr, None, c, [])"
| "retry_loop D wait fn (Suc left) attempt lastErr c =
     (case ct_client c of
        None \<Rightarrow> (Some NoConnection, None, c, [])
      | Some addr \<Rightarrow>
          (case fn attempt addr of
             Inr v \<Rightarrow> (None, Some v, c, [addr])
           | Inl e \<Rightarrow>
               (case sdk_As e of
                  Some msg \<Rightarrow>
                    (case switchToLeader D msg c of
                       (Some e', c1) \<Rightarrow> (Some (SwitchFailed e'), None, c1, [addr])
                     | (None, c1) \<Rightarrow>
                         (case retry_loop D wait fn left (Suc attempt) (Some e) c1 of
                            (err, v, c2, calls) \<Rightarrow> (err, v, c2, addr # calls)))
                | None \<Rightarrow>
                    (case (if left > 0 then wait attempt else None) of
                       Some d \<Rightarrow> (Some (ContextDone d), None, c, [addr])
                     | None \<Rightarrow>
                         (case retry_loop D wait fn left (Suc attempt) (Some e) c of
                            (err, v, c2, calls) \<Rightarrow> (err, v, c2, addr # calls))))))"

definition executeWithRetry ::
  "dial_lib \<Rightarrow> (nat \<Rightarrow> string option) \<Rightarrow> (nat \<Rightarrow> string \<Rightarrow> sdk_error + 'v) \<Rightarrow> Client \<Rightarrow> sdk_error option \<times> 'v option \<times> Client \<times> string list" where
  "executeWithRetry D wait fn c = retry_loop D wait fn (nat (cl_MaxRetries (ct_config c) + 1)) 0 None c"

section \<open>Operations\<close>

definition add_call :: "string \<Rightarrow> (nat \<Rightarrow> string \<Rightarrow> string + AddResponse) \<Rightarrow> nat \<Rightarrow> string \<Rightarrow> sdk_error + unit" where
  "add_call what rpc i addr = (case rpc i addr of
      Inl e \<Rightarrow> Inl (TransportFailed e)
    | Inr resp \<Rightarrow>
        if ar_Success resp then Inr ()
        else if isLeaderRedirect (ar_Error resp) then Inl (ErrLeaderRedirect (ar_Error resp))
        else Inl (CallFailed (what @ '' failed: '' @ ar_Error resp)))"

definition AddWithTimeout where
  "AddWithTimeout D wait rpc c = executeWithRetry D wait (add_call ''add'' rpc) c"

definition RemoveWithTimeout where
  "RemoveWithTimeout D wait rpc c = executeWithRetry D wait (add_call ''remove'' rpc) c"

definition contains_call :: "(nat \<Rightarrow> string \<Rightarrow> string + ContainsResponse) \<Rightarrow> nat \<Rightarrow> string \<Rightarrow> sdk_error + bool" where
  "contains_call rpc i addr = (case rpc i addr of
      Inl e \<Rightarrow> Inl (TransportFailed e)
    | Inr resp \<Rightarrow> if cn_Error resp \<noteq> '''' then Inl (CallFailed (''contains failed: '' @ cn_Error resp)) else Inr (cn_Exists resp))"

definition ContainsWithTimeout :: "dial_lib \<Rightarrow> (nat \<Rightarrow> string option) \<Rightarrow> (nat \<Rightarrow> string \<Rightarrow> string + ContainsResponse) \<Rightarrow> Client
    \<Rightarrow> bool \<times> sdk_error option \<times> Client" where
  "ContainsWithTimeout D wait rpc c = (case executeWithRetry D wait (contains_call rpc) c of
      (err, v, c1, calls) \<Rightarrow> (the_or False v, err, c1))"

definition batch_add_call :: "nat \<Rightarrow> (nat \<Rightarrow> string \<Rightarrow> string + BatchAddResponse) \<Rightarrow> nat \<Rightarrow> string \<Rightarrow> sdk_error + unit" where
  "batch_add_call keys rpc i addr = (case rpc i addr of
      Inl e \<Rightarrow> Inl (TransportFailed e)
    | Inr resp \<Rightarrow>
        if ba_FailureCount resp = int32 (int keys) \<and> ba_Errors resp \<noteq> [] \<and> isLeaderRedirect (hd (ba_Errors resp))
        then Inl (ErrLeaderRedirect (hd (ba_Errors resp)))
        else if ba_FailureCount resp > 0
        then Inl (CallFailed (''batch add partially failed: '' @ dec_int (ba_SuccessCount resp) @ '' successes, ''
          @ dec_int (ba_FailureCount resp) @ '' failures''))
        else Inr ())"

definition BatchAddWithTimeout where
  "BatchAddWithTimeout D wait keys rpc c = executeWithRetry D wait (batch_add_call (length (keys :: string list)) rpc) c"

text \<open>The results by key: a later result of the same key replaces an earlier one, and missing ones are left out.\<close>

definition results_map :: "string list \<Rightarrow> bool list \<Rightarrow> string \<rightharpoonup> bool" where
  "results_map keys results = map_of (rev (zip keys results))"

definition batch_contains_call ::
  "string list \<Rightarrow> (nat \<Rightarrow> string \<Rightarrow> string + BatchContainsResponse) \<Rightarrow> nat \<Rightarrow> string \<Rightarrow> sdk_error + (string \<rightharpoonup> bool)" where
  "batch_contains_call keys rpc i addr = (case rpc i addr of
      Inl e \<Rightarrow> Inl (TransportFailed e)
    | Inr resp \<Rightarrow> if bc_Error resp \<noteq> '''' then Inl (CallFailed (''batch contains failed: '' @ bc_Error resp))
        else Inr (results_map keys (bc_Results resp)))"

definition BatchContainsWithTimeout where
  "BatchContainsWithTimeout D wait keys rpc c = (case executeWithRetry D wait (batch_contains_call keys rpc) c of
      (err, v, c1, calls) \<Rightarrow> (the_or Map.empty v, err, c1))"

definition status_call :: "(nat \<Rightarrow> string \<Rightarrow> string + GetStatsResponse) \<Rightarrow> nat \<Rightarrow> string \<Rightarrow> sdk_error + GetStatsResponse" where
  "status_call rpc i addr = (case rpc i addr of
      Inl e \<Rightarrow> Inl (TransportFailed e)
    | Inr resp \<Rightarrow> if gs_Error resp \<noteq> '''' then Inl (CallFailed (''get stats failed: '' @ gs_Error resp)) else Inr resp)"

definition GetStatusWithTimeout where
  "GetStatusWithTimeout D wait rpc c = (case executeWithRetry D wait (status_call rpc) c of (err, v, c1, calls) \<Rightarrow> (v, err, c1))"

definition sdk_createAuthMetadata :: "(string \<Rightarrow> string \<Rightarrow> string) \<Rightarrow> int \<Rightarrow> string \<Rightarrow> Client \<Rightarrow> APIMetadata" where
  "sdk_createAuthMetadata sign now method c =
     (let timestamp = word_of_int (now div 10 ^ 9) in
      \<lparr>am_ApiKey = cl_APIKey (ct_config c), am_Timestamp = timestamp,
       am_Signature = sign (cl_APISecret (ct_config c)) (cl_APIKey (ct_config c) @ dec_int (sint timestamp) @ method)\<rparr>)"

section \<open>The retry loop\<close>

lemma sdk_connect_client: "sdk_connect D a c = (None, c1) \<Longrightarrow> ct_client c1 = Some a \<and> ct_config c1 = ct_config c"
  by (auto simp: sdk_connect_def split: if_splits)

lemma switchToLeader_client:
  "switchToLeader D msg c = (None, c1) \<Longrightarrow> ct_client c1 = Some (extractLeaderAddress msg) \<and> ct_config c1 = ct_config c"
  by (auto simp: switchToLeader_def Let_def dest!: sdk_connect_client split: if_splits)

text \<open>The calls of a loop: they fail one after the other, and the loop succeeds exactly if the last of them does.\<close>

definition loop_outcome ::
  "(nat \<Rightarrow> string \<Rightarrow> sdk_error + 'v) \<Rightarrow> nat \<Rightarrow> nat \<Rightarrow> sdk_error option \<times> 'v option \<times> Client \<times> string list \<Rightarrow> bool" where
  "loop_outcome fn attempt left r \<longleftrightarrow> (case r of (err, v, c, calls) \<Rightarrow>
     length calls \<le> left \<and> calls \<noteq> []
     \<and> (\<forall>i < length calls - 1. \<exists>e. fn (attempt + i) (calls ! i) = Inl e)
     \<and> (case fn (attempt + (length calls - 1)) (last calls) of Inr x \<Rightarrow> err = None \<and> v = Some x | Inl e \<Rightarrow> err \<noteq> None \<and> v = None))"

lemma loop_outcome_step:
  assumes "loop_outcome fn (Suc attempt) left (err, v, c2, calls)" and "fn attempt addr = Inl e"
  shows "loop_outcome fn attempt (Suc left) (err, v, c2, addr # calls)"
proof -
  have "calls \<noteq> []" using assms(1) by (simp add: loop_outcome_def)
  then have l: "attempt + (length (addr # calls) - 1) = Suc attempt + (length calls - 1)" by (cases calls) simp_all
  have "\<exists>e. fn (attempt + i) ((addr # calls) ! i) = Inl e" if "i < length (addr # calls) - 1" for i
  proof (cases i)
    case 0
    with assms(2) show ?thesis by simp
  next
    case (Suc j)
    with that assms(1) have "\<exists>e. fn (Suc attempt + j) (calls ! j) = Inl e" by (simp add: loop_outcome_def)
    with Suc show ?thesis by simp
  qed
  moreover have "case fn (attempt + (length (addr # calls) - 1)) (last (addr # calls)) of
      Inr x \<Rightarrow> err = None \<and> v = Some x | Inl e \<Rightarrow> err \<noteq> None \<and> v = None"
    using assms(1) \<open>calls \<noteq> []\<close> unfolding l by (simp add: loop_outcome_def)
  moreover have "length (addr # calls) \<le> Suc left" using assms(1) by (simp add: loop_outcome_def)
  ultimately show ?thesis unfolding loop_outcome_def by blast
qed

lemma loop_outcome_one: "fn attempt addr = Inl e \<Longrightarrow> loop_outcome fn attempt (Suc left) (Some x, None, c, [addr])"
  by (simp add: loop_outcome_def)

lemma retry_loop_outcome:
  assumes "ct_client c \<noteq> None"
  shows "loop_outcome fn attempt (Suc left) (retry_loop D wait fn (Suc left) attempt lastErr c)"
  using assms
proof (induction left arbitrary: attempt lastErr c)
  case 0
  then obtain addr where "ct_client c = Some addr" by blast
  then show ?case by (simp add: loop_outcome_def split: sum.splits prod.splits option.splits)
next
  case (Suc left)
  then obtain addr where addr: "ct_client c = Some addr" by blast
  note unfold = retry_loop.simps(2) [of D wait fn "Suc left" attempt lastErr c]
  show ?case
  proof (cases "fn attempt addr")
    case (Inr x)
    then show ?thesis unfolding unfold by (simp add: addr loop_outcome_def)
  next
    case (Inl e)
    have rec: "loop_outcome fn attempt (Suc (Suc left))
        (case retry_loop D wait fn (Suc left) (Suc attempt) le c1 of (err, v, c2, calls) \<Rightarrow> (err, v, c2, addr # calls))"
      if "ct_client c1 \<noteq> None" for le c1
    proof -
      obtain err v c2 calls where r: "retry_loop D wait fn (Suc left) (Suc attempt) le c1 = (err, v, c2, calls)"
        by (metis prod_cases4)
      show ?thesis using Suc.IH [OF that, of "Suc attempt" le] loop_outcome_step [where fn = fn, OF _ Inl] unfolding r by simp
    qed
    have step: "retry_loop D wait fn (Suc (Suc left)) attempt lastErr c = (case sdk_As e of
        Some msg \<Rightarrow> (case switchToLeader D msg c of
            (Some e', c1) \<Rightarrow> (Some (SwitchFailed e'), None, c1, [addr])
          | (None, c1) \<Rightarrow> (case retry_loop D wait fn (Suc left) (Suc attempt) (Some e) c1 of
              (err, v, c2, calls) \<Rightarrow> (err, v, c2, addr # calls)))
      | None \<Rightarrow> (case wait attempt of
            Some d \<Rightarrow> (Some (ContextDone d), None, c, [addr])
          | None \<Rightarrow> (case retry_loop D wait fn (Suc left) (Suc attempt) (Some e) c of
              (err, v, c2, calls) \<Rightarrow> (err, v, c2, addr # calls))))"
      unfolding unfold addr option.case Inl sum.case by (simp del: retry_loop.simps)
    show ?thesis
    proof (cases "sdk_As e")
      case None
      then show ?thesis unfolding step using rec [OF Suc.prems, of "Some e"] loop_outcome_one [where fn = fn, OF Inl]
        by (cases "wait attempt") (simp_all del: retry_loop.simps)
    next
      case (Some msg)
      obtain se c1 where sw: "switchToLeader D msg c = (se, c1)" by fastforce
      show ?thesis
      proof (cases se)
        case None
        then have "ct_client c1 \<noteq> None" using sw switchToLeader_client by fastforce
        from rec [OF this, of "Some e"] show ?thesis unfolding step using Some None sw by (simp del: retry_loop.simps)
      next
        case (Some x)
        then show ?thesis unfolding step using \<open>sdk_As e = Some msg\<close> sw loop_outcome_one [where fn = fn, OF Inl] by (simp del: retry_loop.simps)
      qed
    qed
  qed
qed

lemma executeWithRetry_loop:
  assumes "0 \<le> cl_MaxRetries (ct_config c)" and "ct_client c \<noteq> None" and "executeWithRetry D wait fn c = (err, v, c', calls)"
  shows "loop_outcome fn 0 (nat (cl_MaxRetries (ct_config c) + 1)) (err, v, c', calls)"
proof -
  obtain left where l: "nat (cl_MaxRetries (ct_config c) + 1) = Suc left" using assms(1) by (metis Suc_nat_eq_nat_zadd1 add.commute)
  show ?thesis using retry_loop_outcome [OF assms(2), of fn 0 left D wait None] assms(3) unfolding executeWithRetry_def l by simp
qed

text \<open>C15: a call through the SDK makes at least one and at most \<open>MaxRetries\<close> + 1 attempts, one after the other; it
  reports success, with the value, exactly if its last attempt succeeded, and every attempt before failed.\<close>

theorem executeWithRetry_outcome:
  assumes "0 \<le> cl_MaxRetries (ct_config c)" and "ct_client c \<noteq> None" and "executeWithRetry D wait fn c = (err, v, c', calls)"
  shows "calls \<noteq> [] \<and> int (length calls) \<le> cl_MaxRetries (ct_config c) + 1
    \<and> (\<forall>i < length calls - 1. \<exists>e. fn i (calls ! i) = Inl e)
    \<and> (\<forall>x. v = Some x \<longleftrightarrow> fn (length calls - 1) (last calls) = Inr x) \<and> (err = None \<longleftrightarrow> v \<noteq> None)"
  using executeWithRetry_loop [OF assms] assms(1) by (auto simp: loop_outcome_def split: sum.splits)

text \<open>A negative number of retries, which \<open>NewClient\<close> accepts, makes every operation report success without
  calling a server.\<close>

theorem negative_retries_succeed:
  assumes "cl_MaxRetries config < 0" and "NewClient D config = Inr c"
  shows "\<exists>v c'. AddWithTimeout D wait rpc c = (None, v, c', [])"
proof -
  have "ct_config c1 = ct_config c0" if "connect_first D as c0 = (None, c1)" for as c0 c1
    using that by (induction as arbitrary: c0) (auto simp: sdk_connect_def split: if_splits)
  then have "cl_MaxRetries (ct_config c) = cl_MaxRetries config"
    using assms by (fastforce simp: NewClient_def connectToFirstAvailable_def Let_def split: if_splits prod.splits option.splits)
  then show ?thesis using assms(1) by (simp add: AddWithTimeout_def executeWithRetry_def)
qed

definition demo_dial :: dial_lib where
  "demo_dial = \<lparr>dl_creds = (\<lambda>_. True), dl_dial = (\<lambda>_. True), dl_close = (\<lambda>_. None)\<rparr>"

definition demo_client :: "int \<Rightarrow> Client" where
  "demo_client n = \<lparr>ct_config = DefaultClientConfig\<lparr>cl_Addresses := [''f''], cl_MaxRetries := n\<rparr>, ct_client = Some ''f'',
     ct_connections = [''f''], ct_leaderAddress = ''''\<rparr>"

theorem executeWithRetry_outcome_witness:
  "\<exists>err v c' calls. executeWithRetry demo_dial (\<lambda>_. None) (\<lambda>i a. if i = 0 then Inl (TransportFailed ''x'') else Inr i) (demo_client 2) = (err, v, c', calls)
    \<and> calls \<noteq> [] \<and> length calls \<le> 3 \<and> (err = None \<longleftrightarrow> v \<noteq> None)"
proof -
  let ?fn = "\<lambda>i a. if i = 0 then Inl (TransportFailed ''x'') else Inr i :: sdk_error + nat"
  obtain err v c' calls where r: "executeWithRetry demo_dial (\<lambda>_. None) ?fn (demo_client 2) = (err, v, c', calls)"
    by (rule prod_cases4)
  have "0 \<le> cl_MaxRetries (ct_config (demo_client 2))" "ct_client (demo_client 2) \<noteq> None" by (simp_all add: demo_client_def)
  note out = executeWithRetry_outcome [OF this r]
  have "cl_MaxRetries (ct_config (demo_client 2)) = 2" by (simp add: demo_client_def)
  with out have "length calls \<le> 3" by linarith
  with out r show ?thesis by blast
qed

theorem negative_retries_succeed_witness:
  "\<exists>c v c'. NewClient demo_dial (DefaultClientConfig\<lparr>cl_Addresses := [''f''], cl_MaxRetries := - 1\<rparr>) = Inr c
    \<and> AddWithTimeout demo_dial (\<lambda>_. None) (\<lambda>_ _. Inl ''down'') c = (None, v, c', [])"
proof -
  let ?cfg = "DefaultClientConfig\<lparr>cl_Addresses := [''f''], cl_MaxRetries := - 1\<rparr>"
  obtain c where c: "NewClient demo_dial ?cfg = Inr c"
    by (simp add: NewClient_def connectToFirstAvailable_def sdk_connect_def demo_dial_def DefaultClientConfig_def)
  have "cl_MaxRetries ?cfg < 0" by simp
  from negative_retries_succeed [OF this c] c show ?thesis by blast
qed

section \<open>Following the leader\<close>

lemma find_parens_skip: "CHR ''('' \<notin> set s \<Longrightarrow> find_parens i (- 1) (s @ t) = find_parens (i + length s) (- 1) t"
  by (induction s arbitrary: i) auto

lemma find_parens_close:
  "CHR ''('' \<notin> set a \<Longrightarrow> CHR '')'' \<notin> set a \<Longrightarrow> start \<noteq> - 1 \<Longrightarrow> find_parens i start (a @ CHR '')'' # t) = (start, int (i + length a))"
  by (induction a arbitrary: i) auto

lemma extractLeaderAddress_message:
  assumes "CHR ''('' \<notin> set s" and "CHR ''('' \<notin> set a" and "CHR '')'' \<notin> set a"
  shows "extractLeaderAddress (s @ ''('' @ a @ '')'') = a"
proof -
  have "find_parens 0 (- 1) (s @ ''('' @ a @ '')'') = (int (length s) + 1, int (Suc (length s) + length a))"
    using assms by (simp add: find_parens_skip find_parens_close)
  then show ?thesis by (cases "a = []") (simp_all add: extractLeaderAddress_def nat_add_distrib)
qed

text \<open>What a redirect tells the client is the leader's address.\<close>

lemma extract_redirect:
  assumes "CHR ''('' \<notin> set (fst (getLeaderInfo state))"
    and "CHR ''('' \<notin> set (snd (getLeaderInfo state))" and "CHR '')'' \<notin> set (snd (getLeaderInfo state))"
  shows "extractLeaderAddress (redirect_message state) = snd (getLeaderInfo state)" and "isLeaderRedirect (redirect_message state)"
proof -
  obtain l a where la: "getLeaderInfo state = (l, a)" by fastforce
  have "redirect_message state = (''not the leader, redirect to: '' @ l @ '' '') @ ''('' @ a @ '')''"
    by (simp add: redirect_message_def la)
  then show "extractLeaderAddress (redirect_message state) = snd (getLeaderInfo state)"
    using extractLeaderAddress_message [of "''not the leader, redirect to: '' @ l @ '' ''" a] assms la by simp
  show "isLeaderRedirect (redirect_message state)" by (simp add: isLeaderRedirect_def redirect_message_def la)
qed

text \<open>The servers of a cluster, as one attempt of the client sees them.\<close>

definition cluster_Add :: "'n raft_iface \<Rightarrow> (string \<Rightarrow> 'n) \<Rightarrow> bytes \<Rightarrow> nat \<Rightarrow> string \<Rightarrow> string + AddResponse" where
  "cluster_Add R nodes item i addr = Inr (fst (svc_Add R item (nodes addr)))"

lemma follower_call:
  assumes "item \<noteq> []" and "\<not> rn_IsLeader R (nodes f)" and "isLeaderRedirect (redirect_message (rn_GetState R (nodes f)))"
  shows "add_call what (cluster_Add R nodes item) i f = Inl (ErrLeaderRedirect (redirect_message (rn_GetState R (nodes f))))"
  using assms by (simp add: add_call_def cluster_Add_def svc_Add_def)


text \<open>C40: the redirect of a \<open>raft.Node\<close> names no address, so a client at a follower fails after its first attempt,
  whatever the number of retries.\<close>

theorem node_redirect_unusable:
  assumes "item \<noteq> []" and "ct_client c = Some f" and "0 \<le> cl_MaxRetries (ct_config c)"
    and "rn_GetState R (nodes f) = node_GetState n" and "\<not> rn_IsLeader R (nodes f)"
    and "CHR ''('' \<notin> set (node_Leader n)"
  shows "\<exists>msg. AddWithTimeout D wait (cluster_Add R nodes item) c = (Some (SwitchFailed (NoLeaderAddress msg)), None, c, [f])"
proof -
  let ?msg = "redirect_message (rn_GetState R (nodes f))"
  have "snd (getLeaderInfo (node_GetState n)) = []" "CHR ''('' \<notin> set (fst (getLeaderInfo (node_GetState n)))"
    using assms(6) by (auto simp: getLeaderInfo_def as_string_def node_GetState_def the_or_def split: option.splits)
  then have x: "extractLeaderAddress ?msg = []" "isLeaderRedirect ?msg"
    using extract_redirect [of "node_GetState n"] by (simp_all add: assms(4))
  obtain left where l2: "nat (cl_MaxRetries (ct_config c) + 1) = Suc left"
    using assms(3) by (intro that [of "nat (cl_MaxRetries (ct_config c))"]) linarith
  show ?thesis unfolding AddWithTimeout_def executeWithRetry_def l2
    using follower_call [where R = R and nodes = nodes, OF assms(1,5) x(2)] assms(2) x(1) by (simp add: sdk_As_def switchToLeader_def)
qed

definition demo_iface :: "(string \<times> state_val) list raft_iface" where
  "demo_iface = \<lparr>rn_IsLeader = (\<lambda>s. map_of s ''is_leader'' = Some (SvBool True)), rn_Add = (\<lambda>i s. (None, s)), rn_Remove = (\<lambda>i s. (None, s)),
     rn_Contains = (\<lambda>i s. False), rn_BatchAdd = (\<lambda>is s. ((0, 0, []), s)), rn_BatchContains = (\<lambda>is s. []), rn_GetState = (\<lambda>s. s)\<rparr>"


theorem node_redirect_unusable_witness:
  "\<exists>msg. AddWithTimeout demo_dial (\<lambda>_. None) (cluster_Add demo_iface (\<lambda>_. node_GetState demo_node) [1]) (demo_client 3)
     = (Some (SwitchFailed (NoLeaderAddress msg)), None, demo_client 3, [''f''])"
  by (rule node_redirect_unusable [where n = demo_node])
    (simp_all add: demo_client_def demo_iface_def node_GetState_def demo_node_def NewNode_def node_IsLeader_def node_Leader_def DefaultClientConfig_def)

end
