(* ===== verification/Gateway_Http.thy ===== *)
theory Gateway_Http
  imports Sdk_Client
begin

text \<open>
  \<open>src/internal/gateway/gateway.go\<close>: the HTTP gateway in front of the gRPC service. The gRPC client is the record
  \<open>grpc_client\<close> on states \<open>'s\<close> of the cluster, \<open>Inl\<close> for an error of the call; the JSON decoding of the bodies is the
  record \<open>body_codec\<close>. A response is its status, the fields of its JSON body and its headers. The log output
  is not modelled.
\<close>

section \<open>Data\<close>

record GatewayConfig =
  gw_Port :: int
  gw_GRPCAddress :: string
  gw_TLSCertFile :: string
  gw_EnableTLS :: bool
  gw_APIKey :: string
  gw_APISecret :: string
  gw_ReadTimeout :: int
  gw_WriteTimeout :: int

record 's grpc_client =
  gc_Add :: "bytes \<Rightarrow> 's \<Rightarrow> (string + AddResponse) \<times> 's"
  gc_Remove :: "bytes \<Rightarrow> 's \<Rightarrow> (string + AddResponse) \<times> 's"
  gc_Contains :: "bytes \<Rightarrow> 's \<Rightarrow> string + ContainsResponse"
  gc_BatchAdd :: "bytes list \<Rightarrow> 's \<Rightarrow> (string + BatchAddResponse) \<times> 's"
  gc_BatchContains :: "bytes list \<Rightarrow> 's \<Rightarrow> string + BatchContainsResponse"
  gc_GetStats :: "'s \<Rightarrow> string + GetStatsResponse"

record body_codec =
  bd_item :: "bytes \<Rightarrow> string option"
  bd_items :: "bytes \<Rightarrow> string list option"

record gateway_request =
  gr_Method :: string
  gr_Path :: string
  gr_Body :: bytes

datatype api_data =
    NoData | DataAdded | DataRemoved | DataExists bool | DataBatch int int "string list" | DataResults "string \<rightharpoonup> bool"
  | DataStatus GetStatsResponse | DataCluster string bool string string

record APIResponse =
  ap_Status :: int
  ap_Success :: bool
  ap_Data :: api_data
  ap_Error :: string
  ap_Leader :: string
  ap_Headers :: "(string \<times> string) list"

definition json_header :: "(string \<times> string) list" where
  "json_header = [(''Content-Type'', ''application/json'')]"

definition sendSuccess :: "api_data \<Rightarrow> string \<Rightarrow> APIResponse" where
  "sendSuccess data leader = \<lparr>ap_Status = 200, ap_Success = True, ap_Data = data, ap_Error = '''', ap_Leader = leader, ap_Headers = json_header\<rparr>"

definition sendError :: "string \<Rightarrow> int \<Rightarrow> APIResponse" where
  "sendError message statusCode = \<lparr>ap_Status = statusCode, ap_Success = False, ap_Data = NoData, ap_Error = message, ap_Leader = '''', ap_Headers = json_header\<rparr>"

definition sendRedirect :: "string \<Rightarrow> APIResponse" where
  "sendRedirect errorMsg = \<lparr>ap_Status = 307, ap_Success = False, ap_Data = NoData, ap_Error = errorMsg, ap_Leader = '''', ap_Headers = json_header\<rparr>"

section \<open>Handlers\<close>

text \<open>What follows a call that adds or removes.\<close>

definition answer_change :: "api_data \<Rightarrow> string + AddResponse \<Rightarrow> APIResponse" where
  "answer_change data r = (case r of
      Inl err \<Rightarrow> sendError (''gRPC error: '' @ err) 500
    | Inr resp \<Rightarrow>
        if ar_Success resp then sendSuccess data ''''
        else if str_Contains (ar_Error resp) ''not the leader'' then sendRedirect (ar_Error resp)
        else sendError (ar_Error resp) 500)"

definition handleAdd :: "body_codec \<Rightarrow> 's grpc_client \<Rightarrow> gateway_request \<Rightarrow> 's \<Rightarrow> APIResponse \<times> 's" where
  "handleAdd B G r s =
     (if gr_Method r \<noteq> ''POST'' then (sendError ''method not allowed'' 405, s)
      else (case bd_item B (gr_Body r) of
          None \<Rightarrow> (sendError ''invalid request body'' 400, s)
        | Some item \<Rightarrow>
            if item = '''' then (sendError ''item cannot be empty'' 400, s)
            else (case gc_Add G (bytes_of_string item) s of (resp, s1) \<Rightarrow> (answer_change DataAdded resp, s1))))"

definition handleRemove :: "body_codec \<Rightarrow> 's grpc_client \<Rightarrow> gateway_request \<Rightarrow> 's \<Rightarrow> APIResponse \<times> 's" where
  "handleRemove B G r s =
     (if gr_Method r \<noteq> ''DELETE'' then (sendError ''method not allowed'' 405, s)
      else (case bd_item B (gr_Body r) of
          None \<Rightarrow> (sendError ''invalid request body'' 400, s)
        | Some item \<Rightarrow>
            if item = '''' then (sendError ''item cannot be empty'' 400, s)
            else (case gc_Remove G (bytes_of_string item) s of (resp, s1) \<Rightarrow> (answer_change DataRemoved resp, s1))))"

definition handleContains :: "body_codec \<Rightarrow> 's grpc_client \<Rightarrow> gateway_request \<Rightarrow> 's \<Rightarrow> APIResponse" where
  "handleContains B G r s =
     (if gr_Method r \<noteq> ''POST'' then sendError ''method not allowed'' 405
      else (case bd_item B (gr_Body r) of
          None \<Rightarrow> sendError ''invalid request body'' 400
        | Some item \<Rightarrow>
            if item = '''' then sendError ''item cannot be empty'' 400
            else (case gc_Contains G (bytes_of_string item) s of
                Inl err \<Rightarrow> sendError (''gRPC error: '' @ err) 500
              | Inr resp \<Rightarrow> if cn_Error resp \<noteq> '''' then sendError (cn_Error resp) 500 else sendSuccess (DataExists (cn_Exists resp)) '''')))"

definition handleBatchAdd :: "body_codec \<Rightarrow> 's grpc_client \<Rightarrow> gateway_request \<Rightarrow> 's \<Rightarrow> APIResponse \<times> 's" where
  "handleBatchAdd B G r s =
     (if gr_Method r \<noteq> ''POST'' then (sendError ''method not allowed'' 405, s)
      else (case bd_items B (gr_Body r) of
          None \<Rightarrow> (sendError ''invalid request body'' 400, s)
        | Some items \<Rightarrow>
            if items = [] then (sendError ''no items provided'' 400, s)
            else (case gc_BatchAdd G (map bytes_of_string items) s of
                (Inl err, s1) \<Rightarrow> (sendError (''gRPC error: '' @ err) 500, s1)
              | (Inr resp, s1) \<Rightarrow>
                  (if ba_FailureCount resp = int32 (int (length items)) \<and> ba_Errors resp \<noteq> [] \<and> str_Contains (hd (ba_Errors resp)) ''not the leader''
                   then sendRedirect (hd (ba_Errors resp))
                   else sendSuccess (DataBatch (ba_SuccessCount resp) (ba_FailureCount resp) (ba_Errors resp)) '''', s1))))"

definition handleBatchContains :: "body_codec \<Rightarrow> 's grpc_client \<Rightarrow> gateway_request \<Rightarrow> 's \<Rightarrow> APIResponse" where
  "handleBatchContains B G r s =
     (if gr_Method r \<noteq> ''POST'' then sendError ''method not allowed'' 405
      else (case bd_items B (gr_Body r) of
          None \<Rightarrow> sendError ''invalid request body'' 400
        | Some items \<Rightarrow>
            if items = [] then sendError ''no items provided'' 400
            else (case gc_BatchContains G (map bytes_of_string items) s of
                Inl err \<Rightarrow> sendError (''gRPC error: '' @ err) 500
              | Inr resp \<Rightarrow> if bc_Error resp \<noteq> '''' then sendError (bc_Error resp) 500
                  else sendSuccess (DataResults (results_map items (bc_Results resp))) '''')))"

definition handleStatus :: "'s grpc_client \<Rightarrow> gateway_request \<Rightarrow> 's \<Rightarrow> APIResponse" where
  "handleStatus G r s =
     (if gr_Method r \<noteq> ''GET'' then sendError ''method not allowed'' 405
      else (case gc_GetStats G s of
          Inl err \<Rightarrow> sendError (''gRPC error: '' @ err) 500
        | Inr resp \<Rightarrow> if gs_Error resp \<noteq> '''' then sendError (gs_Error resp) 500 else sendSuccess (DataStatus resp) ''''))"

definition handleCluster :: "'s grpc_client \<Rightarrow> gateway_request \<Rightarrow> 's \<Rightarrow> APIResponse" where
  "handleCluster G r s =
     (if gr_Method r \<noteq> ''GET'' then sendError ''method not allowed'' 405
      else (case gc_GetStats G s of
          Inl err \<Rightarrow> sendError (''gRPC error: '' @ err) 500
        | Inr resp \<Rightarrow> if gs_Error resp \<noteq> '''' then sendError (gs_Error resp) 500
            else sendSuccess (DataCluster (gs_NodeId resp) (gs_IsLeader resp) (gs_Leader resp) (gs_RaftState resp)) ''''))"

section \<open>The server\<close>

text \<open>The routes of the mux; it answers other paths itself, in plain text.\<close>

definition gateway_mux :: "body_codec \<Rightarrow> 's grpc_client \<Rightarrow> gateway_request \<Rightarrow> 's \<Rightarrow> APIResponse \<times> 's" where
  "gateway_mux B G r s =
     (if gr_Path r = ''/api/v1/add'' then handleAdd B G r s
      else if gr_Path r = ''/api/v1/remove'' then handleRemove B G r s
      else if gr_Path r = ''/api/v1/contains'' then (handleContains B G r s, s)
      else if gr_Path r = ''/api/v1/batch/add'' then handleBatchAdd B G r s
      else if gr_Path r = ''/api/v1/batch/contains'' then (handleBatchContains B G r s, s)
      else if gr_Path r = ''/api/v1/status'' then (handleStatus G r s, s)
      else if gr_Path r = ''/api/v1/cluster'' then (handleCluster G r s, s)
      else (\<lparr>ap_Status = 404, ap_Success = False, ap_Data = NoData, ap_Error = ''404 page not found'', ap_Leader = '''', ap_Headers = []\<rparr>, s))"

definition cors_headers :: "(string \<times> string) list" where
  "cors_headers = [(''Access-Control-Allow-Origin'', ''*''), (''Access-Control-Allow-Methods'', ''GET, POST, DELETE, OPTIONS''),
     (''Access-Control-Allow-Headers'', ''Content-Type, Authorization'')]"

definition corsMiddleware :: "(gateway_request \<Rightarrow> 's \<Rightarrow> APIResponse \<times> 's) \<Rightarrow> gateway_request \<Rightarrow> 's \<Rightarrow> APIResponse \<times> 's" where
  "corsMiddleware next_handler r s =
     (if gr_Method r = ''OPTIONS'' then
        (\<lparr>ap_Status = 204, ap_Success = False, ap_Data = NoData, ap_Error = '''', ap_Leader = '''', ap_Headers = cors_headers\<rparr>, s)
      else (case next_handler r s of (resp, s1) \<Rightarrow> (resp\<lparr>ap_Headers := cors_headers @ ap_Headers resp\<rparr>, s1)))"

definition gateway_serve :: "body_codec \<Rightarrow> 's grpc_client \<Rightarrow> gateway_request \<Rightarrow> 's \<Rightarrow> APIResponse \<times> 's" where
  "gateway_serve B G = corsMiddleware (gateway_mux B G)"

section \<open>Creation and stop\<close>

datatype gateway_error = GatewayCredentials | GatewayDial | GatewayServe string | GatewayShutdown

record Gateway =
  gt_conn :: "string option"
  gt_config :: GatewayConfig
  gt_server :: bool

definition NewGateway :: "dial_lib \<Rightarrow> GatewayConfig \<Rightarrow> gateway_error + Gateway" where
  "NewGateway D config =
     (if gw_EnableTLS config \<and> \<not> dl_creds D (gw_TLSCertFile config) then Inl GatewayCredentials
      else if \<not> dl_dial D (gw_GRPCAddress config) then Inl GatewayDial
      else Inr \<lparr>gt_conn = Some (gw_GRPCAddress config), gt_config = config, gt_server = False\<rparr>)"

text \<open>\<open>Start\<close>: \<open>served\<close> is the error \<open>ListenAndServe\<close> returns with, \<open>None\<close> for \<open>ErrServerClosed\<close>.\<close>

definition gateway_Start :: "string option \<Rightarrow> Gateway \<Rightarrow> gateway_error option \<times> Gateway" where
  "gateway_Start served g = (map_option GatewayServe served, g\<lparr>gt_server := True\<rparr>)"

text \<open>\<open>Stop\<close>: \<open>shutdown\<close> is whether the server shuts down in time. The closed connection stays in its field; whether it
  was closed is the second result.\<close>

definition gateway_Stop :: "bool \<Rightarrow> Gateway \<Rightarrow> gateway_error option \<times> bool" where
  "gateway_Stop shutdown g =
     (if gt_server g \<and> \<not> shutdown then (Some GatewayShutdown, False) else (None, gt_conn g \<noteq> None))"

definition gateway_createAuthMetadata :: "(string \<Rightarrow> string \<Rightarrow> string) \<Rightarrow> int \<Rightarrow> string \<Rightarrow> Gateway \<Rightarrow> APIMetadata" where
  "gateway_createAuthMetadata sign now method g =
     (let timestamp = word_of_int (now div 10 ^ 9) in
      \<lparr>am_ApiKey = gw_APIKey (gt_config g), am_Timestamp = timestamp,
       am_Signature = sign (gw_APISecret (gt_config g)) (gw_APIKey (gt_config g) @ dec_int (sint timestamp) @ method)\<rparr>)"

section \<open>What a request can do\<close>

lemma handlers_unchanged:
  "gr_Method r \<noteq> ''POST'' \<Longrightarrow> snd (handleAdd B G r s) = s"
  "gr_Method r \<noteq> ''DELETE'' \<Longrightarrow> snd (handleRemove B G r s) = s"
  "gr_Method r \<noteq> ''POST'' \<Longrightarrow> snd (handleBatchAdd B G r s) = s"
  by (simp_all add: handleAdd_def handleRemove_def handleBatchAdd_def)

text \<open>A request changes the cluster only by one of three routes with its method; every other request, in
  particular each GET and OPTIONS, leaves it as it is. And every response allows all origins.\<close>

theorem gateway_safe_methods:
  assumes "snd (gateway_serve B G r s) \<noteq> s"
  shows "(gr_Method r, gr_Path r) \<in> {(''POST'', ''/api/v1/add''), (''DELETE'', ''/api/v1/remove''), (''POST'', ''/api/v1/batch/add'')}"
proof -
  have "snd (gateway_mux B G r s) \<noteq> s"
    using assms by (auto simp: gateway_serve_def corsMiddleware_def split: if_splits prod.splits)
  then show ?thesis using handlers_unchanged [of r B G s] by (auto simp: gateway_mux_def split: if_splits)
qed

definition demo_grpc :: "nat grpc_client" where
  "demo_grpc = \<lparr>gc_Add = (\<lambda>i s. (Inr \<lparr>ar_Success = True, ar_Error = []\<rparr>, Suc s)), gc_Remove = (\<lambda>i s. (Inl ''down'', s)),
     gc_Contains = (\<lambda>i s. Inl ''down''), gc_BatchAdd = (\<lambda>is s. (Inl ''down'', s)), gc_BatchContains = (\<lambda>is s. Inl ''down''),
     gc_GetStats = (\<lambda>s. Inl ''down'')\<rparr>"

definition demo_body :: body_codec where
  "demo_body = \<lparr>bd_item = (\<lambda>b. Some (string_of_bytes b)), bd_items = (\<lambda>b. None)\<rparr>"

definition demo_post :: gateway_request where
  "demo_post = \<lparr>gr_Method = ''POST'', gr_Path = ''/api/v1/add'', gr_Body = [120]\<rparr>"

theorem gateway_safe_methods_witness:
  "snd (gateway_serve demo_body demo_grpc demo_post 0) \<noteq> 0
   \<and> (gr_Method demo_post, gr_Path demo_post)
      \<in> {(''POST'', ''/api/v1/add''), (''DELETE'', ''/api/v1/remove''), (''POST'', ''/api/v1/batch/add'')}"
proof -
  have "snd (gateway_serve demo_body demo_grpc demo_post 0) \<noteq> 0"
    by (simp add: gateway_serve_def corsMiddleware_def gateway_mux_def handleAdd_def demo_body_def demo_grpc_def demo_post_def string_of_bytes_def)
  from this gateway_safe_methods [OF this] show ?thesis by blast
qed

text \<open>The signature a gateway would send is the one the server expects.\<close>

lemma gateway_signature:
  "gateway_createAuthMetadata sign now method g = GenerateAPIKeyToken sign now (gw_APIKey (gt_config g)) (gw_APISecret (gt_config g)) method"
  "sdk_createAuthMetadata sign now method c = GenerateAPIKeyToken sign now (cl_APIKey (ct_config c)) (cl_APISecret (ct_config c)) method"
  by (simp_all add: gateway_createAuthMetadata_def sdk_createAuthMetadata_def GenerateAPIKeyToken_def)

section \<open>The gateway in front of a service\<close>

definition service_client :: "'n raft_iface \<Rightarrow> 'n grpc_client" where
  "service_client R = \<lparr>gc_Add = (\<lambda>i n. case svc_Add R i n of (r, n1) \<Rightarrow> (Inr r, n1)),
     gc_Remove = (\<lambda>i n. case svc_Remove R i n of (r, n1) \<Rightarrow> (Inr r, n1)), gc_Contains = (\<lambda>i n. Inr (svc_Contains R i n)),
     gc_BatchAdd = (\<lambda>is n. case svc_BatchAdd R is n of (r, n1) \<Rightarrow> (Inr r, n1)), gc_BatchContains = (\<lambda>is n. Inr (svc_BatchContains R is n)),
     gc_GetStats = (\<lambda>n. Inr (svc_GetStats (rn_GetState R n)))\<rparr>"

definition not_leader_error :: "string \<Rightarrow> bool" where
  "not_leader_error e \<longleftrightarrow> str_Contains e ''not the leader''"

lemma redirect_not_leader: "str_Contains (redirect_message state) ''not the leader''"
proof -
  have p: "HasPrefix (redirect_message state) ''not the leader''"
    by (simp add: HasPrefix_iff redirect_message_def split: prod.splits)
  then show ?thesis by (cases "redirect_message state") (simp_all add: str_Contains_def HasPrefix_def)
qed


lemma demo_text: "string_of_bytes [120] = ''x''"
  by code_simp


end
