(* ===== verification/Client_Command.thy ===== *)
theory Client_Command
  imports Grpc_Service
begin

text \<open>
  \<open>src/cmd/client/main.go\<close>: the command-line client, from its action and items to the calls it makes, and the lines it
  prints of an answer. A line of output is kept as its parts. The items are valid UTF-8, so that splitting at a
  comma by runes and by bytes is the same.
\<close>

section \<open>Items\<close>

fun split_loop :: "char \<Rightarrow> string \<Rightarrow> string list \<Rightarrow> string \<Rightarrow> string list" where
  "split_loop sep [] result current = (if current \<noteq> '''' then result @ [current] else result)"
| "split_loop sep (c # s) result current =
     (if c = sep then split_loop sep s (result @ [current]) '''' else split_loop sep s result (current @ [c]))"

definition client_split :: "string \<Rightarrow> char \<Rightarrow> string list" where
  "client_split s sep = split_loop sep s [] ''''"

definition parseItems :: "string \<Rightarrow> bytes list" where
  "parseItems items = (if items = '''' then [] else map bytes_of_string (client_split items (CHR '','')))"

section \<open>Actions\<close>

datatype client_call = CallAdd bytes | CallRemove bytes | CallContains bytes | CallBatchAdd "bytes list" | CallBatchContains "bytes list" | CallStats

datatype client_fatal = NoItems string | UnknownAction string

definition client_main :: "string \<Rightarrow> string \<Rightarrow> client_fatal + client_call list" where
  "client_main action items =
     (let itemList = parseItems items in
      if action = ''add'' then (if itemList = [] then Inl (NoItems action) else Inr (map CallAdd itemList))
      else if action = ''remove'' then (if itemList = [] then Inl (NoItems action) else Inr (map CallRemove itemList))
      else if action = ''contains'' then (if itemList = [] then Inl (NoItems action) else Inr (map CallContains itemList))
      else if action = ''batch-add'' then (if itemList = [] then Inl (NoItems action) else Inr [CallBatchAdd itemList])
      else if action = ''batch-contains'' then (if itemList = [] then Inl (NoItems action) else Inr [CallBatchContains itemList])
      else if action = ''stats'' then Inr [CallStats]
      else Inl (UnknownAction action))"

section \<open>Output\<close>

datatype output_line =
    CallError string bytes string | Added bytes | AddRefused bytes string | Removed bytes | RemoveRefused bytes string
  | ContainsLine bytes | NotFoundLine bytes | ErrorLine string | BatchSummary int int | BatchItem nat bytes string | BatchResult bool bytes

definition addItem :: "string + AddResponse \<Rightarrow> bytes \<Rightarrow> output_line" where
  "addItem r item = (case r of
      Inl err \<Rightarrow> CallError ''adding'' item err
    | Inr resp \<Rightarrow> if ar_Success resp then Added item else AddRefused item (ar_Error resp))"

definition removeItem :: "string + AddResponse \<Rightarrow> bytes \<Rightarrow> output_line" where
  "removeItem r item = (case r of
      Inl err \<Rightarrow> CallError ''removing'' item err
    | Inr resp \<Rightarrow> if ar_Success resp then Removed item else RemoveRefused item (ar_Error resp))"

definition containsItem :: "string + ContainsResponse \<Rightarrow> bytes \<Rightarrow> output_line" where
  "containsItem r item = (case r of
      Inl err \<Rightarrow> CallError ''checking'' item err
    | Inr resp \<Rightarrow> if cn_Error resp \<noteq> '''' then ErrorLine (cn_Error resp)
        else if cn_Exists resp then ContainsLine item else NotFoundLine item)"

text \<open>The loops over the answer of a batch read the item at the same index.\<close>

fun error_lines :: "nat \<Rightarrow> bytes list \<Rightarrow> string list \<Rightarrow> panic + output_line list" where
  "error_lines i items [] = Inr []"
| "error_lines i items (err # errs) =
     (if err = '''' then error_lines (Suc i) items errs
      else go_bind (go_index items (int i)) (\<lambda>item.
           go_bind (error_lines (Suc i) items errs) (\<lambda>ls. Inr (BatchItem i item err # ls))))"

definition client_batchAdd :: "string + BatchAddResponse \<Rightarrow> bytes list \<Rightarrow> panic + (string + output_line list)" where
  "client_batchAdd r items = (case r of
      Inl err \<Rightarrow> Inr (Inl err)
    | Inr resp \<Rightarrow> go_bind (error_lines 0 items (ba_Errors resp)) (\<lambda>ls.
        Inr (Inr (BatchSummary (ba_SuccessCount resp) (ba_FailureCount resp) # ls))))"

fun result_lines :: "nat \<Rightarrow> bytes list \<Rightarrow> bool list \<Rightarrow> panic + output_line list" where
  "result_lines i items [] = Inr []"
| "result_lines i items (b # bs) =
     go_bind (go_index items (int i)) (\<lambda>item.
     go_bind (result_lines (Suc i) items bs) (\<lambda>ls. Inr (BatchResult b item # ls)))"

definition client_batchContains :: "string + BatchContainsResponse \<Rightarrow> bytes list \<Rightarrow> panic + (string + output_line list)" where
  "client_batchContains r items = (case r of
      Inl err \<Rightarrow> Inr (Inl err)
    | Inr resp \<Rightarrow> if bc_Error resp \<noteq> '''' then Inr (Inr [ErrorLine (bc_Error resp)])
        else go_bind (result_lines 0 items (bc_Results resp)) (\<lambda>ls. Inr (Inr ls)))"

section \<open>Splitting\<close>

text \<open>The hand-written split is \<open>strings.Split\<close> without a last empty part.\<close>

lemma split_on_nonempty: "split_on sep s \<noteq> []"
  by (induction s) (auto split: list.splits)

lemma split_loop_spec:
  "split_loop sep s result current =
     (let ws = (case split_on sep s of [] \<Rightarrow> [current] | w # ws \<Rightarrow> (current @ w) # ws)
      in result @ (if last ws = [] then butlast ws else ws))"
proof (induction s arbitrary: result current)
  case (Cons c s)
  then show ?case using split_on_nonempty [of sep s] by (auto simp: Let_def split: list.splits)
qed simp

lemma client_split_spec: "client_split s sep = (let ws = split_on sep s in if last ws = [] then butlast ws else ws)"
  using split_on_nonempty [of sep s] by (auto simp: client_split_def split_loop_spec Let_def split: list.splits)

section \<open>Batches against the server\<close>

lemma error_lines_total: "i + length errs \<le> length items \<Longrightarrow> \<exists>ls. error_lines i items errs = Inr ls"
proof (induction errs arbitrary: i)
  case (Cons e errs)
  then obtain ls where "error_lines (Suc i) items errs = Inr ls" by fastforce
  then show ?case using Cons.prems by (simp add: go_bind_def go_index_def)
qed simp

lemma result_lines_total: "i + length bs \<le> length items \<Longrightarrow> \<exists>ls. result_lines i items bs = Inr ls"
proof (induction bs arbitrary: i)
  case (Cons e bs)
  then obtain ls where "result_lines (Suc i) items bs = Inr ls" by fastforce
  then show ?case using Cons.prems by (simp add: go_bind_def go_index_def)
qed simp

lemma batch_contains_length: "batch_contains_loop murmur n items = Inr bs \<Longrightarrow> length bs = length items"
  by (induction items arbitrary: bs) (auto simp: go_bind_eq_Inr_iff)

lemma srv_BatchAdd_errors: "items \<noteq> [] \<Longrightarrow> length (ba_Errors (srv_BatchAdd J ra n items)) = length items"
  using batch_loop_result [of "replicate (length items) []" 0 items J ra n 0 0] by (simp add: srv_BatchAdd_def)

text \<open>The batches the command sends are never empty, and it prints the server's answers to them without reading
  past its items.\<close>

theorem client_batches_safe:
  assumes "client_main action text = Inr calls"
  shows "(\<forall>items. CallBatchAdd items \<in> set calls \<longrightarrow> items \<noteq> []
      \<and> (\<exists>ls. client_batchAdd (Inr (srv_BatchAdd J ra n items)) items = Inr (Inr ls)))
    \<and> (\<forall>items resp. CallBatchContains items \<in> set calls \<longrightarrow> srv_BatchContains murmur n items = Inr resp \<longrightarrow> items \<noteq> []
      \<and> (\<exists>ls. client_batchContains (Inr resp) items = Inr (Inr ls)))"
proof -
  have ne: "items \<noteq> []" if "CallBatchAdd items \<in> set calls \<or> CallBatchContains items \<in> set calls" for items
    using assms that by (auto simp: client_main_def Let_def split: if_splits)
  have a: "\<exists>ls. client_batchAdd (Inr (srv_BatchAdd J ra n items)) items = Inr (Inr ls)" if "items \<noteq> []" for items
    using error_lines_total [of 0 "ba_Errors (srv_BatchAdd J ra n items)" items] srv_BatchAdd_errors [OF that, of J ra n]
    by (auto simp: client_batchAdd_def go_bind_def)
  have b: "\<exists>ls. client_batchContains (Inr resp) items = Inr (Inr ls)"
    if nonempty: "items \<noteq> []" and answer: "srv_BatchContains murmur n items = Inr resp" for items resp
  proof -
    from answer nonempty have "go_bind (batch_contains_loop murmur n items) (\<lambda>bs. Inr \<lparr>bc_Results = bs, bc_Error = []\<rparr>) = Inr resp"
      by (simp add: srv_BatchContains_def)
    then obtain bs where bs: "batch_contains_loop murmur n items = Inr bs" "resp = \<lparr>bc_Results = bs, bc_Error = []\<rparr>"
      by (auto simp: go_bind_def split: sum.splits)
    obtain ls where "result_lines 0 items bs = Inr ls"
      using result_lines_total [of 0 bs items] batch_contains_length [OF bs(1)] by auto
    with bs(2) show ?thesis by (simp add: client_batchContains_def go_bind_def)
  qed
  show ?thesis using ne a b by blast
qed

end
