(* ===== verification/Spec2Isabelle.thy ===== *)
theory Spec2Isabelle
  imports Bloom_Cache Bloom_Compress Wal_Async Raft_Node Raft_Managers Raft_Snapshot
    Metadata_Service Grpc_Audit Gateway_Http Client_Command
begin

text \<open>
  A verification development of the distributed counting Bloom filter under \<open>src/\<close>.

  \<^bold>\<open>The program.\<close> Clients (the SDK \<open>sdk/client.go\<close>, the command \<open>cmd/client\<close>, or HTTP through
  \<open>internal/gateway\<close>) call a gRPC server (\<open>internal/grpc\<close>, started by \<open>cmd/server\<close>). Interceptors
  authenticate, limit and audit a call. The server hands additions and removals to a Raft node
  (\<open>internal/raft\<close>), which proposes them to the consensus library and applies the committed ones to a
  counting Bloom filter (\<open>pkg/bloom\<close>); queries read the local filter. State machines write an encrypted
  write-ahead log (\<open>internal/wal\<close>) and snapshots; a node's metadata is kept by \<open>internal/metadata\<close>.

  \<^bold>\<open>Conventions.\<close> Go's \<open>int\<close> is \<open>int\<close> (written \<open>wrap64\<close> where it may overflow), \<open>uint8\<close>, \<open>uint16\<close>, \<open>uint32\<close> and
  \<open>uint64\<close> are words, byte slices are lists of 8-bit words and strings are byte strings. A panic is
  \<open>Inl\<close> of the panic monad (\<open>go_bind\<close>), an error is a constructor of the component's error datatype.
  A method with a receiver takes and returns the record of the receiver; it holds its lock for the whole body
  and so is one step, except where a theory says otherwise. The clock is an argument. What the
  operating system does in a call (which system calls fail, how much of a failed write is on disk) is an
  argument. Code that is not in the repository is a parameter: MurmurHash3, AES-GCM, DEFLATE,
  SHA-256, HMAC, JSON, JWT, X.509 and the TLS handshake, \<open>x/time/rate\<close>, gRPC, and HashiCorp's Raft. Where a theorem
  needs its documented behaviour, the behaviour is a hypothesis (\<open>json_ok\<close>, \<open>gcm_ok\<close>, \<open>gzip_roundtrip\<close>,
  \<open>handshake_ok\<close>) with an instance that meets it, and the theorem's witness uses that instance.

  \<^bold>\<open>The library.\<close> \<open>Go_Prelude\<close> has the panic monad, slice access, the 32-bit codec and CRC-32 with the proof
  that it detects a changed byte. \<open>Go_Strings\<close> has the functions of \<open>strings\<close> and \<open>fmt\<close> in use, \<open>Go_Files\<close>
  one directory of files. Three interfaces are locales: \<open>membership_filter\<close> (\<open>Membership_Spec\<close>), what a deletable
  filter promises, interpreted on the plain and on the cached filter; \<open>codec\<close> (\<open>Codec_Spec\<close>), a canonical
  encoding, interpreted on the filter's serialization; \<open>memo_cache\<close> (\<open>Bloom_Cache\<close>), what the cached filter needs of
  its cache, interpreted on the LRU cache.

  \<^bold>\<open>The filter\<close> (\<open>pkg/bloom\<close>).
  \<^item> \<open>Bloom_Hash\<close>, \<open>hash.go\<close>: the positions of an item, their range, the equality of the three ways they
    are computed, and when the computation panics.
  \<^item> \<open>Bloom_Counting\<close>, \<open>counting.go\<close>: every operation. No false negatives over every legal history; additions and
    removals refine the multiset of held items; the outcome of \<open>Add\<close> on every branch; batches equal the
    single operations where no counter wraps; \<open>Count\<close> is bounded by the load; \<open>Deserialize\<close> accepts exactly the
    serializations and rejects every change of one byte. \<open>covers\<close> and \<open>represents\<close> relate counters to the
    held items.
  \<^item> \<open>Bloom_Cache\<close>, \<open>cache.go\<close>: the cache is an LRU cache, and the cached filter simulates the plain one.
  \<^item> \<open>Bloom_Compress\<close>, \<open>compression.go\<close>: which compressed forms can be read back.

  \<^bold>\<open>The write-ahead log\<close> (\<open>internal/wal\<close>).
  \<^item> \<open>Wal_Encryptor\<close>, \<open>encryptor.go\<close>: records encrypted under any key still cached decrypt to the plaintext.
  \<^item> \<open>Wal_Files\<close>, the writer and reader of \<open>encryptor.go\<close>: what was written is read back in order over rolls and
    cleanups, and what a torn write leaves.
  \<^item> \<open>Wal_Async\<close>, \<open>async_wal.go\<close>: the critical sections as a step relation; no record is lost or written twice, and
    the callbacks made are those of the flushed records, in every reachable state.

  \<^bold>\<open>Consensus\<close> (\<open>internal/raft\<close>, \<open>pkg/tls\<close>).
  \<^item> \<open>Raft_Log\<close>, \<open>log.go\<close>, and the JSON data; \<open>Raft_FSM\<close>, \<open>fsm.go\<close>: a replica keeps the filter's promise, snapshots and
    replay reach the same state, and the log rebuilds the filter.
  \<^item> \<open>Raft_Node\<close>, \<open>node.go\<close>: the node as state machine agrees with \<open>fsm.go\<close>, what a log leaves in it, start and
    shutdown, and that it cannot restore the snapshots of \<open>fsm.go\<close>.
  \<^item> \<open>Raft_Managers\<close>, \<open>state.go\<close>, \<open>election.go\<close>, \<open>replication.go\<close>, \<open>config.go\<close>: waiting loops return, the peer table stays
    consistent, the monitor reports the changes of leadership. \<open>Raft_Snapshot\<close>, \<open>snapshot.go\<close>: snapshot files
    load back, and the statistics.
  \<^item> \<open>Tls_Config\<close>, \<open>pkg/tls/config.go\<close>: every configuration the reloader returns has the policy of its settings and
    rests on files loaded at most the reload interval ago. \<open>Raft_Transport\<close>, \<open>tls_transport.go\<close>: only verified peers get a connection and failed ones are closed.

  \<^bold>\<open>Services\<close> (\<open>internal/grpc\<close>, \<open>internal/audit\<close>, \<open>internal/metadata\<close>, \<open>internal/gateway\<close>, \<open>cmd\<close>, \<open>sdk\<close>).
  \<^item> \<open>Grpc_Context\<close>: what an interceptor sees of a call. \<open>Grpc_Auth\<close>, \<open>auth.go\<close>: exactly who is let in; no signed
    request is accepted twice; the client's signature is accepted.
  \<^item> \<open>Grpc_RateLimit\<close>, \<open>ratelimit.go\<close>: the bound of the token bucket, its waiting loop, and that clients do not
    share a limiter.
  \<^item> \<open>Audit_Logger\<close>, \<open>events.go\<close> and \<open>logger.go\<close>: every accepted event is in the log files once its queue is written;
    rotation; masking. \<open>Grpc_Audit\<close>, \<open>audit_interceptor.go\<close>: the auditing wrappers are transparent and record
    one event per call.
  \<^item> \<open>Grpc_Service\<close>, \<open>service.go\<close>, \<open>server.go\<close>, \<open>cmd/server/main.go\<close>: the handlers, batches item by item, and what the
    program's flags guarantee of its authentication. \<open>Metadata_Service\<close>, \<open>service.go\<close>: saving is atomic.
  \<^item> \<open>Sdk_Client\<close>, \<open>sdk/client.go\<close>: attempts and results of a call, and following a redirect to the leader.
    \<open>Gateway_Http\<close>, \<open>gateway.go\<close>: routes and responses, composed with the service. \<open>Client_Command\<close>,
    \<open>cmd/client/main.go\<close>: the calls of each action.
  \<^item> Below: from the SDK through the server, the consensus library and the replicas to the filter.

  \<^bold>\<open>Bounds.\<close> There is no fuel: a loop is structural recursion on a list (indices, files, entries), on the
  number of retries left or on the list of events a \<open>select\<close> receives; the sort of the file list and the
  reader of records, which are not structural, have termination proofs. So every definition is total; where a
  loop of the program might wait forever, a theorem says which events make it return. File and record numbers stay below
  \<open>10 ^ 6\<close> in the theorems on WAL files because the file name has six digits.

  \<^bold>\<open>Not modelled.\<close> The generated protocol code \<open>api/proto\<close> (its messages are records); \<open>benchmark\<close> and
  \<open>examples\<close>, which only measure and print; \<open>internal/grpc/interceptors.go\<close>, which is a comment; logging
  output; the sockets and goroutine scheduling of the gRPC and HTTP servers; flag parsing. The rounding of
  \<open>float64\<close> in the token bucket and in compression ratios is left out: they are exact numbers.
\<close>

section \<open>From a client to the replicas\<close>



end
